(* ===== verification/Prelude.thy ===== *)
theory Prelude
  imports Main "HOL-Library.Word" "HOL-Library.Code_Target_Nat"
begin

text \<open>
  Shared vocabulary of the development. Go values as they are used by the modelled packages:
  a Go \<open>string\<close> or \<open>[]byte\<close> is a list of bytes (\<open>string\<close>, one \<open>char\<close> per byte), \<open>uint64\<close>,
  \<open>int64\<close> and \<open>int32\<close> are words, a Go \<open>map\<close> is a partial function, an \<open>error\<close> result is a sum
  whose left summand is the error. The collections \<open>frame\<close> (what an operation leaves alone)
  and \<open>outcome\<close> (what an operation returns on a branch) gather the facts the component
  theories hand to the simplifier.
\<close>

named_theorems frame "what an operation leaves unchanged"
named_theorems outcome "what an operation returns on one of its branches"

type_synonym u64 = "64 word"
type_synonym i64 = "64 word"
type_synonym u32 = "32 word"
type_synonym i32 = "32 word"

text \<open>A Go \<open>map[string]string\<close>, called \<open>labels\<close> in the exporters.\<close>

type_synonym labels = "string \<rightharpoonup> string"

subsection \<open>Results\<close>

text \<open>\<open>(T, error)\<close>: \<open>Inl\<close> carries the error, \<open>Inr\<close> the value.\<close>

type_synonym ('e, 'a) res = "'e + 'a"

definition res_bind :: "('e, 'a) res \<Rightarrow> ('a \<Rightarrow> ('e, 'b) res) \<Rightarrow> ('e, 'b) res" where
  "res_bind r f = (case r of Inl e \<Rightarrow> Inl e | Inr a \<Rightarrow> f a)"

lemma res_bind_simps [simp]:
  "res_bind (Inl e) f = Inl e"
  "res_bind (Inr a) f = f a"
  by (simp_all add: res_bind_def)

text \<open>Panics: an index or slice bound out of range, a regular expression that does not compile, a channel of
a negative size, a channel closed twice.\<close>

datatype go_panic = IndexOutOfRange | RegexpPanic string | MakeChanSize | CloseOfClosedChannel

lemma res_bind_Inr_iff: "res_bind r f = Inr b \<longleftrightarrow> (\<exists>a. r = Inr a \<and> f a = Inr b)"
  by (cases r) auto

lemma res_bind_Inl_iff:
  "res_bind r f = Inl e \<longleftrightarrow> r = Inl e \<or> (\<exists>a. r = Inr a \<and> f a = Inl e)"
  by (cases r) auto

subsection \<open>Maps\<close>

lemma map_add_dom_eq: "dom (m ++ n) = dom m \<union> dom n"
  by (auto simp: map_add_def split: option.splits)

text \<open>Overwriting in list order: the last binding of a key wins.\<close>

fun put_all :: "('k \<rightharpoonup> 'v) \<Rightarrow> ('k \<times> 'v) list \<Rightarrow> ('k \<rightharpoonup> 'v)" where
  "put_all m [] = m"
| "put_all m ((k, v) # kvs) = put_all (m(k \<mapsto> v)) kvs"

lemma put_all_append [simp]: "put_all m (xs @ ys) = put_all (put_all m xs) ys"
  by (induction xs arbitrary: m) auto

lemma put_all_map_of: "put_all m kvs = m ++ map_of (rev kvs)"
proof (induction kvs arbitrary: m)
  case (Cons kv kvs)
  then show ?case
    by (cases kv) (simp add: map_add_upd_left [symmetric] fun_eq_iff map_add_def split: option.splits)
qed simp

lemma dom_put_all: "dom (put_all m kvs) = dom m \<union> fst ` set kvs"
  by (auto simp: put_all_map_of dom_map_of_conv_image_fst)

lemma put_all_notin: "k \<notin> fst ` set kvs \<Longrightarrow> put_all m kvs k = m k"
  by (induction kvs arbitrary: m) auto

lemma put_all_ran: "put_all m kvs k = Some v \<Longrightarrow> m k = Some v \<or> (k, v) \<in> set kvs"
  by (induction kvs arbitrary: m) (force split: if_splits)+

lemma put_all_distinct:
  "distinct (map fst kvs) \<Longrightarrow> (k, v) \<in> set kvs \<Longrightarrow> put_all m kvs k = Some v"
  by (induction kvs arbitrary: m) (auto simp: put_all_notin image_iff)

text \<open>
  Ranging over a Go map visits every key once, in an order the runtime chooses. Where the
  order shows in the result the model takes it as an argument; \<open>ranges_over\<close> says which
  lists are such orders.
\<close>

definition ranges_over :: "'k list \<Rightarrow> ('k \<rightharpoonup> 'v) \<Rightarrow> bool" where
  "ranges_over ks m \<longleftrightarrow> distinct ks \<and> set ks = dom m"

lemma ranges_over_empty [simp]: "ranges_over [] Map.empty"
  by (simp add: ranges_over_def)

subsection \<open>Lists\<close>

text \<open>Consecutive slices \<open>xs[:n], xs[n:2*n], \<dots>\<close>.\<close>

function chunks :: "nat \<Rightarrow> 'a list \<Rightarrow> 'a list list" where
  "chunks n xs = (if n = 0 \<or> xs = [] then [] else take n xs # chunks n (drop n xs))"
  by pat_completeness auto
termination
  by (relation "measure (\<lambda>(n, xs). length xs)") auto

declare chunks.simps [simp del]

lemma chunks_Nil [simp]: "chunks n [] = []"
  by (simp add: chunks.simps)

lemma chunks_step: "0 < n \<Longrightarrow> xs \<noteq> [] \<Longrightarrow> chunks n xs = take n xs # chunks n (drop n xs)"
  by (subst chunks.simps) simp

lemma chunks_code [code]:
  "chunks n [] = []"
  "chunks n (x # xs) = (if n = 0 then [] else take n (x # xs) # chunks n (drop n (x # xs)))"
  by (simp_all add: chunks.simps [of n "x # xs"])

lemma concat_chunks: "0 < n \<Longrightarrow> concat (chunks n xs) = xs"
proof (induction n xs rule: chunks.induct)
  case (1 n xs)
  then show ?case by (cases "xs = []") (auto simp: chunks_step)
qed

lemma chunks_size: "c \<in> set (chunks n xs) \<Longrightarrow> 0 < length c \<and> length c \<le> n"
proof (induction n xs rule: chunks.induct)
  case (1 n xs)
  show ?case
  proof (cases "n = 0 \<or> xs = []")
    case True
    with "1.prems" show ?thesis by (auto simp: chunks.simps)
  next
    case False
    with "1.prems" have "c = take n xs \<or> c \<in> set (chunks n (drop n xs))"
      by (auto simp: chunks_step)
    with False "1.IH" show ?thesis by auto
  qed
qed

lemma list_all2_map_same: "list_all2 P (map f xs) (map g xs) \<longleftrightarrow> (\<forall>x \<in> set xs. P (f x) (g x))"
  by (induction xs) auto

subsection \<open>Signed readings\<close>

lemma sint_eq_uint_small: "uint (w :: u64) < 2 ^ 63 \<Longrightarrow> sint w = uint w"
  by (simp add: sint_uint signed_take_bit_int_eq_self_iff order_trans [OF _ uint_ge_0])

end
