(* ===== verification/GoStrings.thy ===== *)
theory GoStrings
  imports Prelude
begin

text \<open>
  The part of Go's \<open>strings\<close>, \<open>unicode/utf8\<close>, \<open>unicode\<close>, \<open>strconv\<close> and \<open>path\<close> packages that the
  exporters call, on byte strings. \<open>decode_rune\<close> is \<open>utf8.DecodeRune\<close> (an invalid
  sequence is U+FFFD of width one), \<open>segments\<close> is what \<open>range\<close> over a string visits, and
  \<open>to_valid_utf8\<close> is \<open>strings.ToValidUTF8\<close>, which replaces each maximal run of invalid bytes once.
  The Unicode letter and digit tables beyond Latin-1 are a parameter (\<open>unicode_tables\<close>); Latin-1 is
  written out as in \<open>unicode.IsLetter\<close> and \<open>unicode.IsDigit\<close>.
\<close>

subsection \<open>Bytes, prefixes, substrings\<close>

abbreviation byte :: "char \<Rightarrow> nat" where
  "byte c \<equiv> of_char c"

abbreviation chr :: "nat \<Rightarrow> char" where
  "chr n \<equiv> char_of n"

lemma byte_less_256: "byte c < 256"
  by (metis of_char_mod_256 mod_less_divisor zero_less_numeral)

definition has_prefix :: "string \<Rightarrow> string \<Rightarrow> bool" where
  "has_prefix s p \<longleftrightarrow> take (length p) s = p"

definition has_suffix :: "string \<Rightarrow> string \<Rightarrow> bool" where
  "has_suffix s p \<longleftrightarrow> length p \<le> length s \<and> drop (length s - length p) s = p"

definition trim_prefix :: "string \<Rightarrow> string \<Rightarrow> string" where
  "trim_prefix s p = (if has_prefix s p then drop (length p) s else s)"

definition trim_suffix :: "string \<Rightarrow> string \<Rightarrow> string" where
  "trim_suffix s p = (if has_suffix s p then take (length s - length p) s else s)"

fun str_contains :: "string \<Rightarrow> string \<Rightarrow> bool" where
  "str_contains [] sub = (sub = [])"
| "str_contains (c # s) sub = (has_prefix (c # s) sub \<or> str_contains s sub)"

fun trim_left_char :: "string \<Rightarrow> char \<Rightarrow> string" where
  "trim_left_char [] c = []"
| "trim_left_char (x # xs) c = (if x = c then trim_left_char xs c else x # xs)"

lemma has_prefix_append [simp]: "has_prefix (p @ s) p"
  by (simp add: has_prefix_def)

lemma has_prefix_iff: "has_prefix s p \<longleftrightarrow> (\<exists>t. s = p @ t)"
  by (metis append_take_drop_id append_eq_conv_conj has_prefix_def)

lemma has_suffix_iff: "has_suffix s p \<longleftrightarrow> (\<exists>t. s = t @ p)"
proof
  assume "has_suffix s p"
  then show "\<exists>t. s = t @ p" by (metis append_take_drop_id has_suffix_def)
qed (auto simp: has_suffix_def)

lemma trim_prefix_append [simp]: "trim_prefix (p @ s) p = s"
  by (simp add: trim_prefix_def)

lemma trim_suffix_append [simp]: "trim_suffix (s @ p) p = s"
  by (simp add: trim_suffix_def has_suffix_def)

lemma str_contains_iff: "str_contains s sub \<longleftrightarrow> (\<exists>a b. s = a @ sub @ b)"
proof (induction s)
  case Nil
  then show ?case by auto
next
  case (Cons c s)
  show ?case
  proof
    assume "str_contains (c # s) sub"
    then consider "has_prefix (c # s) sub" | "str_contains s sub" by auto
    then show "\<exists>a b. c # s = a @ sub @ b"
    proof cases
      case 1
      then show ?thesis by (metis append_Nil has_prefix_iff)
    next
      case 2
      then show ?thesis using Cons.IH by (metis append_Cons)
    qed
  next
    assume "\<exists>a b. c # s = a @ sub @ b"
    then obtain a b where ab: "c # s = a @ sub @ b" by blast
    show "str_contains (c # s) sub"
    proof (cases a)
      case Nil
      with ab have "has_prefix (c # s) sub" by (simp add: has_prefix_def)
      then show ?thesis by simp
    next
      case (Cons x a')
      with ab Cons.IH show ?thesis by auto
    qed
  qed
qed

subsection \<open>UTF-8\<close>

definition rune_error :: nat where
  "rune_error = 65533"

definition valid_rune :: "nat \<Rightarrow> bool" where
  "valid_rune r \<longleftrightarrow> r < 55296 \<or> (57344 \<le> r \<and> r \<le> 1114111)"

definition is_cont :: "nat \<Rightarrow> bool" where
  "is_cont b \<longleftrightarrow> 128 \<le> b \<and> b \<le> 191"

text \<open>The second byte of a three- or four-byte sequence has a narrower range after E0, ED, F0, F4.\<close>

definition second_ok :: "nat \<Rightarrow> nat \<Rightarrow> bool" where
  "second_ok b0 b1 \<longleftrightarrow>
     (if b0 = 224 then 160 else if b0 = 240 then 144 else 128) \<le> b1 \<and>
     b1 \<le> (if b0 = 237 then 159 else if b0 = 244 then 143 else 191)"

definition decode2 :: "nat \<Rightarrow> string \<Rightarrow> nat \<times> nat" where
  "decode2 b0 s = (case s of
     c1 # _ \<Rightarrow> if is_cont (byte c1) then ((b0 - 192) * 64 + (byte c1 - 128), 2) else (rune_error, 1)
   | [] \<Rightarrow> (rune_error, 1))"

definition decode3 :: "nat \<Rightarrow> string \<Rightarrow> nat \<times> nat" where
  "decode3 b0 s = (case s of
     c1 # c2 # _ \<Rightarrow>
       if second_ok b0 (byte c1) \<and> is_cont (byte c2)
       then ((b0 - 224) * 4096 + (byte c1 - 128) * 64 + (byte c2 - 128), 3) else (rune_error, 1)
   | _ \<Rightarrow> (rune_error, 1))"

definition decode4 :: "nat \<Rightarrow> string \<Rightarrow> nat \<times> nat" where
  "decode4 b0 s = (case s of
     c1 # c2 # c3 # _ \<Rightarrow>
       if second_ok b0 (byte c1) \<and> is_cont (byte c2) \<and> is_cont (byte c3)
       then ((b0 - 240) * 262144 + (byte c1 - 128) * 4096 + (byte c2 - 128) * 64 + (byte c3 - 128), 4)
       else (rune_error, 1)
   | _ \<Rightarrow> (rune_error, 1))"

text \<open>\<open>utf8.DecodeRune\<close>: the first rune and its width; width 0 only on the empty string.\<close>

fun decode_rune :: "string \<Rightarrow> nat \<times> nat" where
  "decode_rune [] = (rune_error, 0)"
| "decode_rune (c # s) =
     (let b0 = byte c in
      if b0 < 128 then (b0, 1)
      else if 194 \<le> b0 \<and> b0 \<le> 223 then decode2 b0 s
      else if 224 \<le> b0 \<and> b0 \<le> 239 then decode3 b0 s
      else if 240 \<le> b0 \<and> b0 \<le> 244 then decode4 b0 s
      else (rune_error, 1))"

text \<open>\<open>utf8.EncodeRune\<close>: surrogates and out-of-range values become U+FFFD.\<close>

definition encode_rune :: "nat \<Rightarrow> string" where
  "encode_rune r0 =
     (let r = (if valid_rune r0 then r0 else rune_error) in
      if r < 128 then [chr r]
      else if r < 2048 then [chr (192 + r div 64), chr (128 + r mod 64)]
      else if r < 65536 then
        [chr (224 + r div 4096), chr (128 + r div 64 mod 64), chr (128 + r mod 64)]
      else
        [chr (240 + r div 262144), chr (128 + r div 4096 mod 64),
         chr (128 + r div 64 mod 64), chr (128 + r mod 64)])"

lemma decode_width:
  assumes "s \<noteq> []"
  shows "1 \<le> snd (decode_rune s) \<and> snd (decode_rune s) \<le> length s"
proof -
  from assms obtain c t where s: "s = c # t" by (cases s) auto
  show ?thesis
    by (auto simp: s Let_def decode2_def decode3_def decode4_def split: list.splits)
qed

lemma decode_append:
  assumes "decode_rune s \<noteq> (rune_error, 1)" "s \<noteq> []"
  shows "decode_rune (s @ t) = decode_rune s"
proof -
  from assms(2) obtain c u where s: "s = c # u" by (cases s) auto
  show ?thesis using assms(1)
    by (auto simp: s Let_def decode2_def decode3_def decode4_def split: list.splits if_splits)
qed

lemma decode_take:
  assumes "decode_rune s \<noteq> (rune_error, 1)" "s \<noteq> []"
  shows "decode_rune (take (snd (decode_rune s)) s) = decode_rune s"
proof -
  from assms(2) obtain c u where s: "s = c # u" by (cases s) auto
  show ?thesis using assms(1)
    by (auto simp: s Let_def decode2_def decode3_def decode4_def split: list.splits if_splits)
qed

lemma byte_chr [simp]: "n < 256 \<Longrightarrow> byte (chr n) = n"
  by (simp add: of_char_of)

lemma base64_digits:
  fixes r :: nat
  shows "r div 64 * 64 + r mod 64 = r"
    and "r div 4096 * 64 + r div 64 mod 64 = r div 64"
    and "r div 262144 * 64 + r div 4096 mod 64 = r div 4096"
proof -
  show "r div 64 * 64 + r mod 64 = r" by simp
  have "r div 4096 = r div 64 div 64" by (simp add: div_mult2_eq [symmetric])
  then show "r div 4096 * 64 + r div 64 mod 64 = r div 64" by simp
  have "r div 262144 = r div 4096 div 64" by (simp add: div_mult2_eq [symmetric])
  then show "r div 262144 * 64 + r div 4096 mod 64 = r div 4096" by simp
qed

lemma decode2_bytes:
  "b < 32 \<Longrightarrow> c < 64 \<Longrightarrow> decode2 (192 + b) (chr (128 + c) # s) = (b * 64 + c, 2)"
  by (simp add: decode2_def is_cont_def)

lemma decode3_bytes:
  assumes "a < 16" "b < 64" "c < 64" "a = 0 \<Longrightarrow> 32 \<le> b" "a = 13 \<Longrightarrow> b < 32"
  shows "decode3 (224 + a) (chr (128 + b) # chr (128 + c) # s) = (a * 4096 + b * 64 + c, 3)"
  using assms by (auto simp: decode3_def is_cont_def second_ok_def)

lemma decode4_bytes:
  assumes "a < 5" "b < 64" "c < 64" "d < 64" "a = 0 \<Longrightarrow> 16 \<le> b" "a = 4 \<Longrightarrow> b < 16"
  shows "decode4 (240 + a) (chr (128 + b) # chr (128 + c) # chr (128 + d) # s) =
           (a * 262144 + b * 4096 + c * 64 + d, 4)"
  using assms by (auto simp: decode4_def is_cont_def second_ok_def)

lemma decode_encode:
  assumes "valid_rune r"
  shows "decode_rune (encode_rune r @ s) = (r, length (encode_rune r))"
proof -
  define a where "a = r div 262144"
  define b where "b = r div 4096"
  define b' where "b' = r div 4096 mod 64"
  define c where "c = r div 64"
  define c' where "c' = r div 64 mod 64"
  define d where "d = r mod 64"
  have eqs: "c * 64 + d = r" "b * 64 + c' = c" "a * 64 + b' = b"
    using base64_digits [of r] by (simp_all add: a_def b_def b'_def c_def c'_def d_def)
  have bnd: "b' < 64" "c' < 64" "d < 64" by (simp_all add: b'_def c'_def d_def)
  consider "r < 128" | "128 \<le> r" "r < 2048" | "2048 \<le> r" "r < 65536" | "65536 \<le> r" "r \<le> 1114111"
    using assms by (force simp: valid_rune_def)
  then show ?thesis
  proof cases
    case 1
    with assms show ?thesis by (simp add: encode_rune_def Let_def)
  next
    case 2
    have "2 \<le> c" "c < 32" using 2 eqs(1) bnd by linarith+
    moreover have "encode_rune r = [chr (192 + c), chr (128 + d)]"
      using 2 assms by (simp add: encode_rune_def Let_def c_def d_def)
    ultimately show ?thesis using eqs bnd by (simp add: Let_def decode2_bytes)
  next
    case 3
    have "b < 16" "b = 0 \<Longrightarrow> 32 \<le> c'" "b = 13 \<Longrightarrow> c' < 32"
      using 3 assms eqs bnd by (simp_all add: valid_rune_def)
    moreover have "encode_rune r = [chr (224 + b), chr (128 + c'), chr (128 + d)]"
      using 3 assms by (simp add: encode_rune_def Let_def b_def c'_def d_def)
    ultimately show ?thesis using eqs bnd by (simp add: Let_def decode3_bytes)
  next
    case 4
    have "a < 5" "a = 0 \<Longrightarrow> 16 \<le> b'" "a = 4 \<Longrightarrow> b' < 16"
      using 4 eqs bnd by simp_all
    moreover have "encode_rune r = [chr (240 + a), chr (128 + b'), chr (128 + c'), chr (128 + d)]"
      using 4 assms by (simp add: encode_rune_def Let_def a_def b'_def c'_def d_def)
    ultimately show ?thesis using eqs bnd by (simp add: Let_def decode4_bytes)
  qed
qed

subsection \<open>Ranging over a string\<close>

text \<open>The runes of a string with the bytes each was decoded from.\<close>

function segments :: "string \<Rightarrow> (nat \<times> string) list" where
  "segments s =
     (if s = [] then []
      else (fst (decode_rune s), take (snd (decode_rune s)) s) # segments (drop (snd (decode_rune s)) s))"
  by pat_completeness auto
termination
proof (relation "measure length")
  fix s :: string
  assume "s \<noteq> []"
  then show "(drop (snd (decode_rune s)) s, s) \<in> measure length"
    using decode_width [of s] by (cases s) auto
qed auto

declare segments.simps [simp del]

lemma segments_Nil [simp]: "segments [] = []"
  by (simp add: segments.simps)

lemma segments_step:
  "s \<noteq> [] \<Longrightarrow> segments s = (fst (decode_rune s), take (snd (decode_rune s)) s) # segments (drop (snd (decode_rune s)) s)"
  by (subst segments.simps) simp

lemma segments_code [code]:
  "segments [] = []"
  "segments (c # s) = (let (r, w) = decode_rune (c # s) in (r, take w (c # s)) # segments (drop w (c # s)))"
  by (simp_all add: segments_step case_prod_beta)

definition bad_segment :: "nat \<times> string \<Rightarrow> bool" where
  "bad_segment rb \<longleftrightarrow> fst rb = rune_error \<and> length (snd rb) = 1"

text \<open>\<open>utf8.ValidString\<close>.\<close>

definition valid_utf8 :: "string \<Rightarrow> bool" where
  "valid_utf8 s \<longleftrightarrow> (\<forall>rb \<in> set (segments s). \<not> bad_segment rb)"

definition runes :: "string \<Rightarrow> nat list" where
  "runes s = List.map fst (segments s)"

fun tv_segments :: "string \<Rightarrow> bool \<Rightarrow> (nat \<times> string) list \<Rightarrow> string" where
  "tv_segments rep prev [] = []"
| "tv_segments rep prev (rb # rest) =
     (if bad_segment rb
      then (if prev then [] else rep) @ tv_segments rep True rest
      else snd rb @ tv_segments rep False rest)"

text \<open>\<open>strings.ToValidUTF8(s, rep)\<close>.\<close>

definition to_valid_utf8 :: "string \<Rightarrow> string \<Rightarrow> string" where
  "to_valid_utf8 s rep = tv_segments rep False (segments s)"

text \<open>\<open>strings.Map(f, s)\<close> for a mapping that never drops a rune.\<close>

definition str_map :: "(nat \<Rightarrow> nat) \<Rightarrow> string \<Rightarrow> string" where
  "str_map f s = concat (List.map (\<lambda>r. encode_rune (f r)) (runes s))"

lemma concat_segments: "concat (List.map snd (segments s)) = s"
proof (induction s rule: segments.induct)
  case (1 s)
  then show ?case by (cases "s = []") (simp_all add: segments_step)
qed

lemma valid_utf8_Nil [simp]: "valid_utf8 []"
  by (simp add: valid_utf8_def)

lemma decode_first_ok:
  assumes "s \<noteq> []" "\<not> bad_segment (fst (decode_rune s), take (snd (decode_rune s)) s)"
  shows "decode_rune s \<noteq> (rune_error, 1)"
  using assms decode_width [of s] by (auto simp: bad_segment_def prod_eq_iff Suc_le_eq)

lemma segments_append: "valid_utf8 s \<Longrightarrow> segments (s @ t) = segments s @ segments t"
proof (induction s rule: segments.induct)
  case (1 s)
  show ?case
  proof (cases "s = []")
    case False
    let ?w = "snd (decode_rune s)"
    from "1.prems" False have ok: "decode_rune s \<noteq> (rune_error, 1)"
      by (intro decode_first_ok) (auto simp: valid_utf8_def segments_step)
    have w: "?w \<le> length s" using decode_width [OF False] by simp
    have rest: "valid_utf8 (drop ?w s)" using "1.prems" False by (simp add: valid_utf8_def segments_step)
    have "segments (s @ t) = (fst (decode_rune s), take ?w s) # segments (drop ?w s @ t)"
      using False w by (simp add: segments_step decode_append [OF ok False])
    also have "\<dots> = segments s @ segments t"
      using False "1.IH" [OF False rest] by (simp add: segments_step)
    finally show ?thesis .
  qed simp
qed

lemma valid_utf8_append: "valid_utf8 s \<Longrightarrow> valid_utf8 t \<Longrightarrow> valid_utf8 (s @ t)"
  by (auto simp: segments_append valid_utf8_def)

lemma length_encode_rune: "0 < length (encode_rune r)"
  by (simp add: encode_rune_def Let_def)

lemma segments_encode:
  assumes "valid_rune r"
  shows "segments (encode_rune r) = [(r, encode_rune r)]"
proof -
  have "decode_rune (encode_rune r) = (r, length (encode_rune r))"
    using decode_encode [OF assms, of "[]"] by simp
  with length_encode_rune [of r] show ?thesis by (simp add: segments_step)
qed

lemma encode_invalid: "\<not> valid_rune r \<Longrightarrow> encode_rune r = encode_rune rune_error"
  by (auto simp: encode_rune_def Let_def rune_error_def valid_rune_def)

lemma valid_utf8_encode [intro]: "valid_utf8 (encode_rune r)"
proof -
  have v: "valid_utf8 (encode_rune q)" if "valid_rune q" for q
  proof -
    have "q = rune_error \<Longrightarrow> length (encode_rune q) = 3"
      by (simp add: encode_rune_def rune_error_def valid_rune_def Let_def)
    then show ?thesis
      using that by (auto simp: valid_utf8_def segments_encode bad_segment_def)
  qed
  show ?thesis
  proof (cases "valid_rune r")
    case False
    have "valid_rune rune_error" by (simp add: valid_rune_def rune_error_def)
    with False v show ?thesis by (simp add: encode_invalid)
  qed (rule v)
qed

lemma valid_utf8_concat: "(\<And>x. x \<in> set xs \<Longrightarrow> valid_utf8 x) \<Longrightarrow> valid_utf8 (concat xs)"
  by (induction xs) (auto intro: valid_utf8_append)

lemma valid_utf8_str_map [intro]: "valid_utf8 (str_map f s)"
  by (auto simp: str_map_def intro!: valid_utf8_concat)

text \<open>A segment that is not bad is a valid string by itself.\<close>

lemma valid_segment:
  assumes "rb \<in> set (segments s)" "\<not> bad_segment rb"
  shows "valid_utf8 (snd rb)"
  using assms
proof (induction s rule: segments.induct)
  case (1 s)
  show ?case
  proof (cases "s = [] \<or> rb \<in> set (segments (drop (snd (decode_rune s)) s))")
    case True
    with 1 show ?thesis by (cases "s = []") auto
  next
    case False
    let ?w = "snd (decode_rune s)"
    from False "1.prems" have ne: "s \<noteq> []" and rb: "rb = (fst (decode_rune s), take ?w s)"
      by (auto simp: segments_step)
    from "1.prems"(2) rb ne have ok: "decode_rune s \<noteq> (rune_error, 1)" by (intro decode_first_ok) auto
    have w: "1 \<le> ?w" "?w \<le> length s" using decode_width [OF ne] by auto
    have d: "decode_rune (take ?w s) = decode_rune s" by (rule decode_take [OF ok ne])
    have "segments (take ?w s) = [rb]"
      using w ne by (auto simp: segments_step d rb)
    with "1.prems"(2) show ?thesis by (simp add: valid_utf8_def rb)
  qed
qed

lemma tv_segments_valid:
  assumes "valid_utf8 rep" "\<And>rb. rb \<in> set segs \<Longrightarrow> \<not> bad_segment rb \<Longrightarrow> valid_utf8 (snd rb)"
  shows "valid_utf8 (tv_segments rep prev segs)"
  using assms(2) by (induction segs arbitrary: prev) (auto intro!: valid_utf8_append simp: assms(1))

text \<open>The result is valid UTF-8, and a valid string is returned as it is.\<close>

lemma to_valid_utf8_valid: "valid_utf8 rep \<Longrightarrow> valid_utf8 (to_valid_utf8 s rep)"
  unfolding to_valid_utf8_def by (rule tv_segments_valid) (auto intro: valid_segment)

lemma tv_segments_id: "(\<forall>rb \<in> set segs. \<not> bad_segment rb) \<Longrightarrow> tv_segments rep prev segs = concat (List.map snd segs)"
  by (induction rep prev segs rule: tv_segments.induct) auto

lemma to_valid_utf8_id: "valid_utf8 s \<Longrightarrow> to_valid_utf8 s rep = s"
  by (simp add: to_valid_utf8_def valid_utf8_def tv_segments_id concat_segments)

lemma to_valid_utf8_idem: "valid_utf8 rep \<Longrightarrow> to_valid_utf8 (to_valid_utf8 s rep) rep' = to_valid_utf8 s rep"
  by (rule to_valid_utf8_id) (rule to_valid_utf8_valid)

text \<open>An ASCII string is its own sequence of runes.\<close>

lemma segments_ascii: "byte c < 128 \<Longrightarrow> segments (c # s) = (byte c, [c]) # segments s"
  by (simp add: segments_step)

lemma valid_utf8_ascii: "\<forall>c \<in> set s. byte c < 128 \<Longrightarrow> valid_utf8 s"
  by (induction s) (auto simp: valid_utf8_def segments_ascii bad_segment_def rune_error_def)

lemma runes_ascii: "\<forall>c \<in> set s. byte c < 128 \<Longrightarrow> runes s = List.map byte s"
  by (induction s) (auto simp: runes_def segments_ascii)

text \<open>The replacement character as the exporters write it: the bytes EF BF BD.\<close>

definition replacement_char :: string where
  "replacement_char = [chr 239, chr 191, chr 189]"

lemma replacement_char_eq: "replacement_char = encode_rune rune_error"
  by (simp add: replacement_char_def encode_rune_def rune_error_def valid_rune_def Let_def)

lemma valid_replacement_char [simp]: "valid_utf8 replacement_char"
  by (simp add: replacement_char_eq valid_utf8_encode)

subsection \<open>Letters and digits\<close>

record unicode_tables =
  uni_letter :: "nat \<Rightarrow> bool"
  uni_digit :: "nat \<Rightarrow> bool"

definition is_letter :: "unicode_tables \<Rightarrow> nat \<Rightarrow> bool" where
  "is_letter u r =
     (if r \<le> 255
      then (65 \<le> r \<and> r \<le> 90) \<or> (97 \<le> r \<and> r \<le> 122) \<or> r = 170 \<or> r = 181 \<or> r = 186 \<or>
           (192 \<le> r \<and> r \<le> 255 \<and> r \<noteq> 215 \<and> r \<noteq> 247)
      else uni_letter u r)"

definition is_digit :: "unicode_tables \<Rightarrow> nat \<Rightarrow> bool" where
  "is_digit u r = (if r \<le> 255 then 48 \<le> r \<and> r \<le> 57 else uni_digit u r)"

subsection \<open>Mapping runes\<close>

text \<open>Decoding only produces valid runes.\<close>

lemma decode3_valid: "224 \<le> b0 \<Longrightarrow> b0 \<le> 239 \<Longrightarrow> valid_rune (fst (decode3 b0 s))"
  by (auto simp: decode3_def second_ok_def is_cont_def valid_rune_def rune_error_def split: list.splits if_splits)

lemma decode4_valid: "240 \<le> b0 \<Longrightarrow> b0 \<le> 244 \<Longrightarrow> valid_rune (fst (decode4 b0 s))"
  by (auto simp: decode4_def second_ok_def is_cont_def valid_rune_def rune_error_def split: list.splits if_splits)

lemma decode_valid: "valid_rune (fst (decode_rune s))"
proof (cases s)
  case (Cons c t)
  have "valid_rune (fst (decode2 b0 t))" if "194 \<le> b0" "b0 \<le> 223" for b0
    using that by (auto simp: decode2_def is_cont_def valid_rune_def rune_error_def split: list.splits)
  moreover have "valid_rune rune_error" by (simp add: valid_rune_def rune_error_def)
  moreover have "valid_rune b" if "b < 128" for b using that by (simp add: valid_rune_def)
  ultimately show ?thesis using Cons by (auto simp: Let_def decode3_valid decode4_valid)
qed (simp add: valid_rune_def rune_error_def)

lemma runes_valid: "r \<in> set (runes s) \<Longrightarrow> valid_rune r"
proof (induction s rule: segments.induct)
  case (1 s)
  then show ?case by (cases "s = []") (auto simp: runes_def segments_step decode_valid)
qed

lemma runes_concat_encode:
  "\<forall>r \<in> set rs. valid_rune r \<Longrightarrow> runes (concat (List.map encode_rune rs)) = rs"
  by (induction rs) (auto simp: runes_def segments_append valid_utf8_encode segments_encode)

lemma runes_str_map:
  assumes "\<And>r. r \<in> set (runes s) \<Longrightarrow> valid_rune (f r)"
  shows "runes (str_map f s) = List.map f (runes s)"
proof -
  have "str_map f s = concat (List.map encode_rune (List.map f (runes s)))"
    by (simp add: str_map_def comp_def)
  moreover have "runes (concat (List.map encode_rune (List.map f (runes s)))) = List.map f (runes s)"
    by (rule runes_concat_encode) (use assms in auto)
  ultimately show ?thesis by simp
qed

lemma str_map_Nil_iff: "str_map f s = [] \<longleftrightarrow> s = []"
proof
  assume a: "str_map f s = []"
  show "s = []"
  proof (rule ccontr)
    assume "s \<noteq> []"
    then have "runes s \<noteq> []" by (simp add: runes_def segments_step)
    with a length_encode_rune show False by (cases "runes s") (auto simp: str_map_def)
  qed
qed (simp add: str_map_def runes_def)

subsection \<open>Splitting and joining\<close>

text \<open>\<open>strings.FieldsFunc\<close>: the maximal runs of runes that are not separators.\<close>

fun fields_loop :: "(nat \<Rightarrow> bool) \<Rightarrow> (nat \<times> string) list \<Rightarrow> string \<Rightarrow> string list" where
  "fields_loop sep [] cur = (if cur = [] then [] else [cur])"
| "fields_loop sep (rb # rest) cur =
     (if sep (fst rb) then (if cur = [] then fields_loop sep rest [] else cur # fields_loop sep rest [])
      else fields_loop sep rest (cur @ snd rb))"

definition fields_func :: "string \<Rightarrow> (nat \<Rightarrow> bool) \<Rightarrow> string list" where
  "fields_func s sep = fields_loop sep (segments s) []"

text \<open>\<open>strings.Split\<close> at one byte.\<close>

fun split_char :: "char \<Rightarrow> string \<Rightarrow> string list" where
  "split_char c [] = [[]]"
| "split_char c (x # xs) =
     (if x = c then [] # split_char c xs
      else (case split_char c xs of [] \<Rightarrow> [[x]] | w # ws \<Rightarrow> (x # w) # ws))"

definition slash :: char where
  "slash = CHR ''/''"

fun join_slash :: "string list \<Rightarrow> string" where
  "join_slash [] = []"
| "join_slash [w] = w"
| "join_slash (w # ws) = w @ slash # join_slash ws"

definition dot :: string where
  "dot = ''.''"

definition dotdot :: string where
  "dotdot = ''..''"

text \<open>
  \<open>path.Clean\<close>: empty and \<open>.\<close> elements go, \<open>..\<close> takes the element before it away; a leading
  \<open>..\<close> stays in a relative path and goes in a rooted one. The elements kept so far are in
  reverse.
\<close>

fun clean_elements :: "bool \<Rightarrow> string list \<Rightarrow> string list \<Rightarrow> string list" where
  "clean_elements rooted out [] = rev out"
| "clean_elements rooted out (w # ws) =
     (if w = [] \<or> w = dot then clean_elements rooted out ws
      else if w = dotdot then
        (case out of
           [] \<Rightarrow> clean_elements rooted (if rooted then [] else [w]) ws
         | d # out' \<Rightarrow> if d = dotdot then clean_elements rooted (w # out) ws
                       else clean_elements rooted out' ws)
      else clean_elements rooted (w # out) ws)"

definition path_clean :: "string \<Rightarrow> string" where
  "path_clean p =
     (if p = [] then dot
      else let rooted = (hd p = slash); ws = clean_elements rooted [] (split_char slash p) in
        if rooted then slash # join_slash ws else if ws = [] then dot else join_slash ws)"

text \<open>\<open>path.Join\<close> of two elements.\<close>

definition path_join :: "string \<Rightarrow> string \<Rightarrow> string" where
  "path_join a b =
     (if a = [] \<and> b = [] then []
      else path_clean (if a = [] then b else if b = [] then a else a @ slash # b))"

text \<open>A path without empty, \<open>.\<close> and \<open>..\<close> elements is kept by \<open>path.Clean\<close>.\<close>

definition plain_path :: "string \<Rightarrow> bool" where
  "plain_path p \<longleftrightarrow> p \<noteq> [] \<and> (\<forall>w \<in> set (split_char slash p). w \<noteq> [] \<and> w \<noteq> dot \<and> w \<noteq> dotdot)"

lemma split_char_ne: "split_char c s \<noteq> []"
  by (induction s) (auto split: list.splits)

lemma join_split: "join_slash (split_char slash s) = s"
proof (induction s)
  case (Cons x s)
  obtain w ws where w: "split_char slash s = w # ws" using split_char_ne by (metis list.exhaust)
  with Cons show ?case by (cases ws) (auto simp: w)
qed simp

lemma split_append: "split_char slash (a @ slash # b) = split_char slash a @ split_char slash b"
  by (induction a) (auto split: list.splits simp: split_char_ne)

lemma clean_plain: "\<forall>w \<in> set ws. w \<noteq> [] \<and> w \<noteq> dot \<and> w \<noteq> dotdot \<Longrightarrow> clean_elements r out ws = rev out @ ws"
  by (induction ws arbitrary: out) auto

lemma path_clean_plain:
  assumes "plain_path p"
  shows "path_clean p = p"
proof -
  from assms have ne: "p \<noteq> []" and ws: "\<forall>w \<in> set (split_char slash p). w \<noteq> [] \<and> w \<noteq> dot \<and> w \<noteq> dotdot"
    unfolding plain_path_def by blast+
  have hd: "hd p \<noteq> slash"
  proof
    assume "hd p = slash"
    with ne have "[] \<in> set (split_char slash p)" by (cases p) simp_all
    with ws show False by blast
  qed
  have "clean_elements False [] (split_char slash p) = split_char slash p"
    using clean_plain [OF ws, of False "[]"] by (simp only: rev.simps append_Nil)
  with ne hd split_char_ne show ?thesis by (simp only: path_clean_def Let_def if_False join_split simp_thms)
qed

lemma path_join_plain: "plain_path a \<Longrightarrow> plain_path b \<Longrightarrow> path_join a b = a @ slash # b"
proof -
  assume ab: "plain_path a" "plain_path b"
  then have "plain_path (a @ slash # b)" by (auto simp: plain_path_def split_append)
  with ab show ?thesis by (simp add: path_join_def path_clean_plain plain_path_def)
qed

subsection \<open>Numbers as text\<close>

text \<open>Decimal digits; the number of steps bounds the number of digits.\<close>

fun show_digits :: "nat \<Rightarrow> nat \<Rightarrow> string" where
  "show_digits 0 n = []"
| "show_digits (Suc fuel) n =
     (if n < 10 then [chr (48 + n)] else show_digits fuel (n div 10) @ [chr (48 + n mod 10)])"

text \<open>Twenty digits are enough for any machine integer.\<close>

definition show_nat :: "nat \<Rightarrow> string" where
  "show_nat n = show_digits 20 n"

text \<open>\<open>hex.EncodeToString\<close> uses the lower case digits.\<close>

definition hex_char :: "bool \<Rightarrow> nat \<Rightarrow> char" where
  "hex_char upper n = chr (if n < 10 then 48 + n else (if upper then 55 else 87) + n)"

definition hex_encode :: "string \<Rightarrow> string" where
  "hex_encode s = concat (List.map (\<lambda>c. [hex_char False (byte c div 16), hex_char False (byte c mod 16)]) s)"

text \<open>\<open>unicode.IsSpace\<close>, and \<open>strings.TrimSpace\<close> on the runes of a string.\<close>

definition is_space :: "nat \<Rightarrow> bool" where
  "is_space r \<longleftrightarrow> 9 \<le> r \<and> r \<le> 13 \<or> r \<in> {32, 133, 160, 5760, 8232, 8233, 8239, 8287, 12288} \<or> 8192 \<le> r \<and> r \<le> 8202"

definition trim_space :: "string \<Rightarrow> string" where
  "trim_space s = concat (List.map snd (rev (dropWhile (\<lambda>rb. is_space (fst rb))
     (rev (dropWhile (\<lambda>rb. is_space (fst rb)) (segments s))))))"

text \<open>\<open>strings.TrimRight\<close> of one character, and \<open>strings.SplitN\<close> at one character for a positive count.\<close>

definition trim_right_char :: "string \<Rightarrow> char \<Rightarrow> string" where
  "trim_right_char s c = rev (dropWhile (\<lambda>x. x = c) (rev s))"

fun split_n :: "char \<Rightarrow> nat \<Rightarrow> string \<Rightarrow> string list" where
  "split_n c 0 s = []"
| "split_n c (Suc 0) s = [s]"
| "split_n c (Suc (Suc n)) s =
     (if c \<in> set s then takeWhile (\<lambda>x. x \<noteq> c) s # split_n c (Suc n) (tl (dropWhile (\<lambda>x. x \<noteq> c) s)) else [s])"

text \<open>What follows the last occurrence of a character, the whole string when there is none.\<close>

definition after_last :: "char \<Rightarrow> string \<Rightarrow> string" where
  "after_last c s = rev (takeWhile (\<lambda>x. x \<noteq> c) (rev s))"

end
