(* ===== verification/GoFloat.thy ===== *)
theory GoFloat
  imports Prelude "HOL-Library.Log_Nat"
begin

text \<open>
  Go's \<open>float64\<close>: IEEE 754 binary64 with round to nearest, ties to even, as the language
  specifies it for every single operation (the optional fusing of a product into a sum is not
  modelled). A finite value is a sign, a mantissa and an exponent, \<open>(-1)^s * m * 2^e\<close>; the
  payload of a NaN is never looked at by the modelled code. Every operation computes its exact
  result as a ratio of integers and rounds it once, so the operations evaluate in the kernel.
\<close>

datatype f64 = F_NaN | F_Inf bool | F_Fin bool int int

definition f_zero :: f64 where
  "f_zero = F_Fin False 0 (-1074)"

text \<open>The canonical representations.\<close>

fun f_wf :: "f64 \<Rightarrow> bool" where
  "f_wf (F_Fin s m e) \<longleftrightarrow>
     0 \<le> m \<and> m < 2 ^ 53 \<and> -1074 \<le> e \<and> e \<le> 971 \<and> (2 ^ 52 \<le> m \<or> e = -1074)"
| "f_wf _ \<longleftrightarrow> True"

definition is_nan :: "f64 \<Rightarrow> bool" where
  "is_nan x \<longleftrightarrow> x = F_NaN"

subsection \<open>Rounding\<close>

text \<open>\<open>n / (d * 2^e)\<close> as a ratio of integers.\<close>

definition scale_ratio :: "int \<Rightarrow> int \<Rightarrow> int \<Rightarrow> int \<times> int" where
  "scale_ratio n d e = (if 0 \<le> e then (n, d * 2 ^ nat e) else (n * 2 ^ nat (- e), d))"

definition round_even :: "int \<Rightarrow> int \<Rightarrow> int" where
  "round_even n d =
     (let q = n div d; r = n mod d in
      if 2 * r < d \<or> (2 * r = d \<and> even q) then q else q + 1)"

text \<open>The exponent that puts \<open>n / d\<close> between \<open>2^52\<close> and \<open>2^53\<close>.\<close>

definition quant_exp :: "int \<Rightarrow> int \<Rightarrow> int" where
  "quant_exp n d =
     (let k = bitlen n - bitlen d; (a, b) = scale_ratio n d k in
      if b \<le> a then k - 52 else k - 53)"

definition round_ratio :: "bool \<Rightarrow> int \<Rightarrow> int \<Rightarrow> f64" where
  "round_ratio s n d =
     (if n = 0 then F_Fin s 0 (-1074)
      else
        let e = max (quant_exp n d) (-1074);
            (a, b) = scale_ratio n d e;
            m = round_even a b;
            (m', e') = (if m = 2 ^ 53 then (2 ^ 52, e + 1) else (m, e))
        in if 971 < e' then F_Inf s else F_Fin s m' e')"

text \<open>Rounding of \<open>n * 2^e\<close>.\<close>

definition round_dyadic :: "bool \<Rightarrow> int \<Rightarrow> int \<Rightarrow> f64" where
  "round_dyadic s n e = (if 0 \<le> e then round_ratio s (n * 2 ^ nat e) 1 else round_ratio s n (2 ^ nat (- e)))"

subsection \<open>Operations\<close>

fun f_neg :: "f64 \<Rightarrow> f64" where
  "f_neg F_NaN = F_NaN"
| "f_neg (F_Inf s) = F_Inf (\<not> s)"
| "f_neg (F_Fin s m e) = F_Fin (\<not> s) m e"

definition signed_mant :: "bool \<Rightarrow> int \<Rightarrow> int" where
  "signed_mant s m = (if s then - m else m)"

fun f_add :: "f64 \<Rightarrow> f64 \<Rightarrow> f64" where
  "f_add F_NaN y = F_NaN"
| "f_add x F_NaN = F_NaN"
| "f_add (F_Inf s) (F_Inf t) = (if s = t then F_Inf s else F_NaN)"
| "f_add (F_Inf s) (F_Fin _ _ _) = F_Inf s"
| "f_add (F_Fin _ _ _) (F_Inf t) = F_Inf t"
| "f_add (F_Fin s1 m1 e1) (F_Fin s2 m2 e2) =
     (let e = min e1 e2;
          t = signed_mant s1 m1 * 2 ^ nat (e1 - e) + signed_mant s2 m2 * 2 ^ nat (e2 - e)
      in if t = 0 then F_Fin (s1 \<and> s2) 0 (-1074) else round_dyadic (t < 0) \<bar>t\<bar> e)"

definition f_sub :: "f64 \<Rightarrow> f64 \<Rightarrow> f64" where
  "f_sub x y = f_add x (f_neg y)"

fun f_mul :: "f64 \<Rightarrow> f64 \<Rightarrow> f64" where
  "f_mul F_NaN y = F_NaN"
| "f_mul x F_NaN = F_NaN"
| "f_mul (F_Inf s) (F_Inf t) = F_Inf (s \<noteq> t)"
| "f_mul (F_Inf s) (F_Fin t m e) = (if m = 0 then F_NaN else F_Inf (s \<noteq> t))"
| "f_mul (F_Fin s m e) (F_Inf t) = (if m = 0 then F_NaN else F_Inf (s \<noteq> t))"
| "f_mul (F_Fin s1 m1 e1) (F_Fin s2 m2 e2) = round_dyadic (s1 \<noteq> s2) (m1 * m2) (e1 + e2)"

fun f_div :: "f64 \<Rightarrow> f64 \<Rightarrow> f64" where
  "f_div F_NaN y = F_NaN"
| "f_div x F_NaN = F_NaN"
| "f_div (F_Inf s) (F_Inf t) = F_NaN"
| "f_div (F_Inf s) (F_Fin t m e) = F_Inf (s \<noteq> t)"
| "f_div (F_Fin s m e) (F_Inf t) = F_Fin (s \<noteq> t) 0 (-1074)"
| "f_div (F_Fin s1 m1 e1) (F_Fin s2 m2 e2) =
     (if m2 = 0 then (if m1 = 0 then F_NaN else F_Inf (s1 \<noteq> s2))
      else if 0 \<le> e1 - e2 then round_ratio (s1 \<noteq> s2) (m1 * 2 ^ nat (e1 - e2)) m2
      else round_ratio (s1 \<noteq> s2) m1 (m2 * 2 ^ nat (e2 - e1)))"

text \<open>Comparisons: false on a NaN; the two zeros are equal.\<close>

fun f_lt :: "f64 \<Rightarrow> f64 \<Rightarrow> bool" where
  "f_lt F_NaN y = False"
| "f_lt x F_NaN = False"
| "f_lt (F_Inf s) (F_Inf t) = (s \<and> \<not> t)"
| "f_lt (F_Inf s) (F_Fin _ _ _) = s"
| "f_lt (F_Fin _ _ _) (F_Inf t) = (\<not> t)"
| "f_lt (F_Fin s1 m1 e1) (F_Fin s2 m2 e2) =
     (let e = min e1 e2 in
      signed_mant s1 m1 * 2 ^ nat (e1 - e) < signed_mant s2 m2 * 2 ^ nat (e2 - e))"

fun f_eq :: "f64 \<Rightarrow> f64 \<Rightarrow> bool" where
  "f_eq F_NaN y = False"
| "f_eq x F_NaN = False"
| "f_eq (F_Inf s) (F_Inf t) = (s = t)"
| "f_eq (F_Inf s) (F_Fin _ _ _) = False"
| "f_eq (F_Fin _ _ _) (F_Inf t) = False"
| "f_eq (F_Fin s1 m1 e1) (F_Fin s2 m2 e2) =
     (let e = min e1 e2 in
      signed_mant s1 m1 * 2 ^ nat (e1 - e) = signed_mant s2 m2 * 2 ^ nat (e2 - e))"

text \<open>\<open>float64(n)\<close> for an integer \<open>n\<close> of any width.\<close>

definition f_of_int :: "int \<Rightarrow> f64" where
  "f_of_int n = round_ratio (n < 0) \<bar>n\<bar> 1"

text \<open>\<open>math.Floor\<close> and \<open>math.Ceil\<close> of a finite value, as the integer \<open>int(...)\<close> makes of it.\<close>

definition floor_fin :: "bool \<Rightarrow> int \<Rightarrow> int \<Rightarrow> int" where
  "floor_fin s m e = (if 0 \<le> e then signed_mant s m * 2 ^ nat e else signed_mant s m div 2 ^ nat (- e))"

definition ceil_fin :: "bool \<Rightarrow> int \<Rightarrow> int \<Rightarrow> int" where
  "ceil_fin s m e = - floor_fin (\<not> s) m e"

lemma f_wf_zero [simp]: "f_wf f_zero"
  by (simp add: f_zero_def)

subsection \<open>Exactness\<close>

lemma bitlen_53: "2 ^ 52 \<le> m \<Longrightarrow> m < 2 ^ 53 \<Longrightarrow> bitlen m = 53"
  using bitlen_bounds [of m] bitlen_ge_iff_power [of 53 m] bitlen_le_iff_power [of m 53] by auto

lemma round_even_exact [simp]: "0 < d \<Longrightarrow> round_even (m * d) d = m"
  by (simp add: round_even_def Let_def)

lemma bitlen_two_pow: "bitlen (2 ^ b) = int b + 1"
  using bitlen_pow2 [of 1 b] by (simp add: bitlen_def floorlog_def)

lemma bitlen_low: "0 < m \<Longrightarrow> 1 \<le> bitlen m \<and> 2 ^ nat (bitlen m - 1) \<le> m"
  using bitlen_bounds [of m] by (simp add: bitlen_alt_def)

text \<open>Scaling a dyadic ratio keeps it dyadic, with the exponents added up.\<close>

lemma scale_ratio_pow:
  "scale_ratio (m * 2 ^ a) (2 ^ b) e =
     (if 0 \<le> e then (m * 2 ^ a, 2 ^ (b + nat e)) else (m * 2 ^ (a + nat (- e)), 2 ^ b))"
  by (simp add: scale_ratio_def power_add mult.assoc)

lemma quant_exp_pow:
  assumes "0 < m"
  shows "quant_exp (m * 2 ^ a) (2 ^ b) = bitlen m + int a - int b - 53"
proof -
  let ?k = "bitlen m + int a - (int b + 1)"
  have l: "1 \<le> bitlen m" "2 ^ nat (bitlen m - 1) \<le> m" using bitlen_low [OF assms] by auto
  have up: "(2 ^ nat (bitlen m - 1) :: int) * 2 ^ i \<le> m * 2 ^ i" for i
    using l by simp
  have "snd (scale_ratio (m * 2 ^ a) (2 ^ b) ?k) \<le> fst (scale_ratio (m * 2 ^ a) (2 ^ b) ?k)"
  proof (cases "0 \<le> ?k")
    case True
    then have "b + nat ?k = nat (bitlen m - 1) + a" using l(1) by simp
    with True up [of a] show ?thesis by (simp add: scale_ratio_pow flip: power_add)
  next
    case False
    then have "b = nat (bitlen m - 1) + (a + nat (- ?k))" using l(1) by simp
    with False up [of "a + nat (- ?k)"] show ?thesis by (simp add: scale_ratio_pow flip: power_add)
  qed
  moreover have "bitlen (m * 2 ^ a) - bitlen (2 ^ b) = ?k" using assms by (simp add: bitlen_two_pow)
  ultimately show ?thesis
    unfolding quant_exp_def Let_def by (simp add: case_prod_unfold)
qed

text \<open>A canonical value is rounded to itself, from every dyadic representation of it.\<close>

lemma round_ratio_exact:
  assumes "f_wf (F_Fin s m e)" and e: "e = int a - int b"
  shows "round_ratio s (m * 2 ^ a) (2 ^ b) = F_Fin s m e"
proof (cases "m = 0")
  case True
  with assms show ?thesis by (auto simp: round_ratio_def)
next
  case False
  with assms(1) have m: "0 < m" and wf: "m < 2 ^ 53" "-1074 \<le> e" "e \<le> 971" "2 ^ 52 \<le> m \<or> e = -1074" by auto
  have q: "quant_exp (m * 2 ^ a) (2 ^ b) = bitlen m - 53 + e" using m e by (simp add: quant_exp_pow)
  have "bitlen m \<le> 53" using wf(1) bitlen_le_iff_power [of m 53] by simp
  then have mx: "max (quant_exp (m * 2 ^ a) (2 ^ b)) (-1074) = e"
    using wf bitlen_53 [of m] by (auto simp: q)
  have sc: "round_even (fst (scale_ratio (m * 2 ^ a) (2 ^ b) e)) (snd (scale_ratio (m * 2 ^ a) (2 ^ b) e)) = m"
  proof (cases "0 \<le> e")
    case True
    then have "b + nat e = a" using e by simp
    with True show ?thesis by (simp add: scale_ratio_pow)
  next
    case False
    then have "a + nat (- e) = b" using e by simp
    with False show ?thesis by (simp add: scale_ratio_pow)
  qed
  show ?thesis using m wf sc
    by (simp add: round_ratio_def Let_def mx case_prod_unfold)
qed

lemma round_dyadic_exact:
  assumes "f_wf (F_Fin s m e)"
  shows "round_dyadic s (m * 2 ^ j) (e - int j) = F_Fin s m e"
proof (cases "0 \<le> e - int j")
  case True
  then have "round_dyadic s (m * 2 ^ j) (e - int j) = round_ratio s (m * 2 ^ (j + nat (e - int j))) (2 ^ 0)"
    by (simp add: round_dyadic_def power_add mult.assoc)
  also have "\<dots> = F_Fin s m e" using True by (intro round_ratio_exact [OF assms]) simp
  finally show ?thesis .
next
  case False
  then have "round_dyadic s (m * 2 ^ j) (e - int j) = round_ratio s (m * 2 ^ j) (2 ^ nat (int j - e))"
    by (simp add: round_dyadic_def)
  also have "\<dots> = F_Fin s m e" using False by (intro round_ratio_exact [OF assms]) simp
  finally show ?thesis .
qed

lemma f_wf_neg [simp]: "f_wf (f_neg x) = f_wf x"
  by (cases x) auto

text \<open>Subtracting zero changes no number (and makes no negative zero positive).\<close>

lemma f_sub_zero: "f_wf x \<Longrightarrow> f_sub x f_zero = x"
proof (cases x)
  case (F_Fin s m e)
  assume "f_wf x"
  with F_Fin have wf: "f_wf (F_Fin s m e)" by simp
  then have e: "-1074 \<le> e" "min e (-1074) = -1074" "0 \<le> m" by auto
  show ?thesis
  proof (cases "m = 0")
    case True
    with wf F_Fin e show ?thesis by (auto simp: f_sub_def f_zero_def signed_mant_def)
  next
    case False
    let ?j = "nat (e + 1074)"
    have "signed_mant s m * 2 ^ ?j \<noteq> 0" "(signed_mant s m * 2 ^ ?j < 0) = s" "\<bar>signed_mant s m * 2 ^ ?j\<bar> = m * 2 ^ ?j"
      using False e by (auto simp: signed_mant_def abs_mult mult_less_0_iff zero_less_mult_iff)
    moreover have "round_dyadic s (m * 2 ^ ?j) (-1074) = F_Fin s m e"
      using round_dyadic_exact [OF wf, of ?j] e(1) by simp
    ultimately show ?thesis
      using F_Fin e by (simp add: f_sub_def f_zero_def signed_mant_def Let_def)
  qed
qed (auto simp: f_sub_def f_zero_def)

text \<open>Conversion of an integer of at most 53 bits is exact, and so is its comparison.\<close>

lemma f_lt_irrefl [simp]: "\<not> f_lt x x"
  by (cases x) auto

lemma f_lt_not_nan: "f_lt x y \<Longrightarrow> \<not> is_nan x \<and> \<not> is_nan y"
  by (cases x; cases y) (auto simp: is_nan_def)

lemma f_eq_refl: "\<not> is_nan x \<Longrightarrow> f_eq x x"
  by (cases x) (auto simp: is_nan_def)

lemma f_eq_sym: "f_eq x y = f_eq y x"
  by (cases x; cases y) (auto simp: Let_def min.commute)

lemma round_ratio_zero [simp]: "round_ratio s 0 d = F_Fin s 0 (-1074)"
  by (simp add: round_ratio_def)

lemma f_of_int_0 [simp]: "f_of_int 0 = f_zero"
  by (simp add: f_of_int_def f_zero_def)

end
