(* ===== verification/Pdata.thy ===== *)
theory Pdata
  imports GoStrings GoFloat
begin

text \<open>
  The OTLP values the collector exporters read and write, as the accessors of the
  \<open>pcommon\<close> and \<open>pmetric\<close> packages present them: attribute maps (\<open>Get\<close>, \<open>PutStr\<close>, \<open>Range\<close> in
  order), data points with their getters and setters as record fields, metrics with one of five
  kinds of data. \<open>AsString\<close>, which renders any attribute value, is code of that package and is an
  argument (\<open>as_string\<close>) of every definition that calls it.
\<close>

subsection \<open>Attribute values and maps\<close>

datatype pvalue =
    VEmpty
  | VStr string
  | VBool bool
  | VInt i64
  | VDouble f64
  | VMap "(string \<times> pvalue) list"
  | VSlice "pvalue list"
  | VBytes string

type_synonym pmap = "(string \<times> pvalue) list"

type_synonym as_string = "pvalue \<Rightarrow> string"

text \<open>\<open>Value.Str\<close> is the empty string on every other type.\<close>

definition val_str :: "pvalue \<Rightarrow> string" where
  "val_str v = (case v of VStr s \<Rightarrow> s | _ \<Rightarrow> [])"

definition val_bool :: "pvalue \<Rightarrow> bool" where
  "val_bool v = (case v of VBool b \<Rightarrow> b | _ \<Rightarrow> False)"

definition pmap_get :: "pmap \<Rightarrow> string \<Rightarrow> pvalue option" where
  "pmap_get m k = map_of m k"

fun pmap_put :: "pmap \<Rightarrow> string \<Rightarrow> pvalue \<Rightarrow> pmap" where
  "pmap_put [] k v = [(k, v)]"
| "pmap_put ((k', v') # m) k v = (if k' = k then (k, v) # m else (k', v') # pmap_put m k v)"

lemma pmap_get_put: "pmap_get (pmap_put m k v) k' = (if k' = k then Some v else pmap_get m k')"
  by (induction m k v rule: pmap_put.induct) (auto simp: pmap_get_def)

lemma keys_pmap_put: "set (map fst (pmap_put m k v)) = insert k (set (map fst m))"
  by (induction m k v rule: pmap_put.induct) auto

lemma distinct_pmap_put: "distinct (map fst m) \<Longrightarrow> distinct (map fst (pmap_put m k v))"
proof (induction m k v rule: pmap_put.induct)
  case (2 k' v' m k v)
  then show ?case using keys_pmap_put [of m k v] by auto
qed simp

subsection \<open>Timestamps\<close>

text \<open>
  A \<open>pcommon.Timestamp\<close> counts nanoseconds in a \<open>uint64\<close>; \<open>AsTime\<close> is \<open>time.Unix(0, int64(ts))\<close>,
  so two instants compare as their signed readings.
\<close>

definition as_time :: "u64 \<Rightarrow> int" where
  "as_time ts = sint ts"

definition ts_before :: "u64 \<Rightarrow> u64 \<Rightarrow> bool" where
  "ts_before a b \<longleftrightarrow> as_time a < as_time b"

text \<open>\<open>time.Time{}\<close>, the first instant of year 1, in nanoseconds since 1970.\<close>

definition zero_time :: int where
  "zero_time = - 62135596800 * 1000000000"

text \<open>\<open>uint64(time.Millisecond)\<close>.\<close>

definition millisecond :: u64 where
  "millisecond = 1000000"

text \<open>\<open>timestamppb.New\<close>: seconds and nanoseconds of an instant, the nanoseconds never negative.\<close>

record pb_timestamp =
  pb_seconds :: int
  pb_nanos :: int

definition timestamp_new :: "int \<Rightarrow> pb_timestamp" where
  "timestamp_new t = \<lparr>pb_seconds = t div 1000000000, pb_nanos = t mod 1000000000\<rparr>"

lemma timestamp_new_eq_iff: "timestamp_new s = timestamp_new t \<longleftrightarrow> s = t"
proof
  assume "timestamp_new s = timestamp_new t"
  then have "s div 1000000000 = t div 1000000000" "s mod 1000000000 = t mod 1000000000"
    by (simp_all add: timestamp_new_def)
  then show "s = t" by (metis div_mult_mod_eq)
qed simp

lemma timestamp_new_nanos: "0 \<le> pb_nanos (timestamp_new t) \<and> pb_nanos (timestamp_new t) < 1000000000"
  by (simp add: timestamp_new_def)

lemma ts_before_irrefl [simp]: "\<not> ts_before a a"
  by (simp add: ts_before_def)

lemma ts_before_asym: "ts_before a b \<Longrightarrow> \<not> ts_before b a"
  by (simp add: ts_before_def)

lemma ts_before_trans: "ts_before a b \<Longrightarrow> ts_before b c \<Longrightarrow> ts_before a c"
  by (simp add: ts_before_def)

text \<open>A reset instant \<open>t - 1ms\<close> precedes \<open>t\<close> unless the subtraction leaves the signed range.\<close>

lemma ts_before_minus_ms:
  assumes "- (2 ^ 63) + 1000000 \<le> sint t"
  shows "ts_before (t - millisecond) t"
proof -
  have "sint (t - millisecond) = sint t - sint millisecond"
    using assms sint_greater_eq [of t] sint_less [of t]
    by (simp add: sint_word_ariths millisecond_def signed_take_bit_int_eq_self)
  then show ?thesis by (simp add: ts_before_def as_time_def millisecond_def)
qed

subsection \<open>Data points\<close>

text \<open>\<open>Flags().NoRecordedValue()\<close> is the lowest bit of the flags.\<close>

definition no_recorded_value :: "u32 \<Rightarrow> bool" where
  "no_recorded_value f \<longleftrightarrow> bit f 0"

datatype number_value = NEmpty | NInt i64 | NDouble f64

record exemplar =
  ex_trace_id :: string
  ex_span_id :: string
  ex_filtered :: pmap
  ex_value :: number_value
  ex_time :: u64

record number_point =
  np_attrs :: pmap
  np_start :: u64
  np_time :: u64
  np_flags :: u32
  np_value :: number_value

text \<open>\<open>IntValue\<close> and \<open>DoubleValue\<close> are zero on a value of the other type.\<close>

definition np_int :: "number_point \<Rightarrow> i64" where
  "np_int p = (case np_value p of NInt i \<Rightarrow> i | _ \<Rightarrow> 0)"

definition np_double :: "number_point \<Rightarrow> f64" where
  "np_double p = (case np_value p of NDouble d \<Rightarrow> d | _ \<Rightarrow> f_zero)"

record summary_point =
  sp_attrs :: pmap
  sp_start :: u64
  sp_time :: u64
  sp_flags :: u32
  sp_count :: u64
  sp_sum :: f64
  sp_quantiles :: "(f64 \<times> f64) list"

record histogram_point =
  hp_attrs :: pmap
  hp_start :: u64
  hp_time :: u64
  hp_flags :: u32
  hp_count :: u64
  hp_sum :: "f64 option"
  hp_buckets :: "u64 list"
  hp_bounds :: "f64 list"
  hp_exemplars :: "exemplar list"

text \<open>\<open>Sum\<close> of a point without a sum is zero.\<close>

definition hp_sum_value :: "histogram_point \<Rightarrow> f64" where
  "hp_sum_value p = (case hp_sum p of Some s \<Rightarrow> s | None \<Rightarrow> f_zero)"

record exp_buckets =
  eb_offset :: i32
  eb_counts :: "u64 list"

record exp_point =
  xp_attrs :: pmap
  xp_start :: u64
  xp_time :: u64
  xp_flags :: u32
  xp_count :: u64
  xp_sum :: "f64 option"
  xp_scale :: i32
  xp_zero_count :: u64
  xp_zero_threshold :: f64
  xp_positive :: exp_buckets
  xp_negative :: exp_buckets
  xp_exemplars :: "exemplar list"

definition xp_sum_value :: "exp_point \<Rightarrow> f64" where
  "xp_sum_value p = (case xp_sum p of Some s \<Rightarrow> s | None \<Rightarrow> f_zero)"

text \<open>The zero values that \<open>pmetric.New...DataPoint\<close> returns.\<close>

definition new_number_point :: number_point where
  "new_number_point = \<lparr>np_attrs = [], np_start = 0, np_time = 0, np_flags = 0, np_value = NEmpty\<rparr>"

definition new_summary_point :: summary_point where
  "new_summary_point = \<lparr>sp_attrs = [], sp_start = 0, sp_time = 0, sp_flags = 0, sp_count = 0,
     sp_sum = f_zero, sp_quantiles = []\<rparr>"

definition new_histogram_point :: histogram_point where
  "new_histogram_point = \<lparr>hp_attrs = [], hp_start = 0, hp_time = 0, hp_flags = 0, hp_count = 0,
     hp_sum = None, hp_buckets = [], hp_bounds = [], hp_exemplars = []\<rparr>"

definition new_exp_point :: exp_point where
  "new_exp_point = \<lparr>xp_attrs = [], xp_start = 0, xp_time = 0, xp_flags = 0, xp_count = 0,
     xp_sum = None, xp_scale = 0, xp_zero_count = 0, xp_zero_threshold = f_zero,
     xp_positive = \<lparr>eb_offset = 0, eb_counts = []\<rparr>, xp_negative = \<lparr>eb_offset = 0, eb_counts = []\<rparr>,
     xp_exemplars = []\<rparr>"

subsection \<open>Metrics\<close>

datatype temporality = TUnspecified | TDelta | TCumulative

datatype metric_data =
    MEmpty
  | MGauge "number_point list"
  | MSum bool temporality "number_point list"
  | MHistogram temporality "histogram_point list"
  | MExpHistogram temporality "exp_point list"
  | MSummary "summary_point list"

record metric =
  m_name :: string
  m_description :: string
  m_unit :: string
  m_metadata :: pmap
  m_data :: metric_data

record scope =
  scope_name :: string
  scope_version :: string
  scope_attrs :: pmap

record scope_metrics =
  sm_scope :: scope
  sm_metrics :: "metric list"

record resource_metrics =
  rm_resource :: pmap
  rm_scopes :: "scope_metrics list"

end
