(* ===== verification/PointCache.thy ===== *)
theory PointCache
  imports Pdata "HOL-Library.Char_ord" "HOL-Library.List_Lexorder"
begin

text \<open>
  The data point cache (exporter/collector/internal/datapointstorage/datapointcache.go): four maps
  from series identifiers to points with a used flag, one per kind of point; \<open>Get\<close> and \<open>Set\<close> on
  each of them, the sweep the garbage collector makes on every tick, and the FNV hash that
  identifies a series. Each operation holds its map's lock from the first to the last access,
  so an operation is one step. A cached point is overwritten field by field
  (\<open>minimal...CopyTo\<close>): a field the copy skips keeps what an earlier point left there.
\<close>

subsection \<open>State\<close>

record 'p used_point =
  up_point :: 'p
  up_used :: bool

record cache =
  number_cache :: "u64 \<rightharpoonup> number_point used_point"
  summary_cache :: "u64 \<rightharpoonup> summary_point used_point"
  histogram_cache :: "u64 \<rightharpoonup> histogram_point used_point"
  exp_cache :: "u64 \<rightharpoonup> exp_point used_point"

definition newCache :: cache where
  "newCache = \<lparr>number_cache = Map.empty, summary_cache = Map.empty,
     histogram_cache = Map.empty, exp_cache = Map.empty\<rparr>"

subsection \<open>Copies that keep what normalization needs\<close>

definition minimalSummaryCopyTo :: "summary_point \<Rightarrow> summary_point \<Rightarrow> summary_point" where
  "minimalSummaryCopyTo src dest =
     dest\<lparr>sp_time := sp_time src, sp_count := sp_count src, sp_sum := sp_sum src\<rparr>"

definition minimalHistogramCopyTo :: "histogram_point \<Rightarrow> histogram_point \<Rightarrow> histogram_point" where
  "minimalHistogramCopyTo src dest =
     dest\<lparr>hp_time := hp_time src, hp_count := hp_count src, hp_buckets := hp_buckets src,
       hp_bounds := hp_bounds src,
       hp_sum := (case hp_sum src of Some s \<Rightarrow> Some s | None \<Rightarrow> hp_sum dest)\<rparr>"

definition minimalExpCopyTo :: "exp_point \<Rightarrow> exp_point \<Rightarrow> exp_point" where
  "minimalExpCopyTo src dest =
     dest\<lparr>xp_time := xp_time src, xp_count := xp_count src, xp_zero_count := xp_zero_count src,
       xp_scale := xp_scale src, xp_positive := xp_positive src, xp_negative := xp_negative src,
       xp_sum := (case xp_sum src of Some s \<Rightarrow> Some s | None \<Rightarrow> xp_sum dest),
       xp_zero_threshold := xp_zero_threshold src\<rparr>"

definition minimalNumberCopyTo :: "number_point \<Rightarrow> number_point \<Rightarrow> number_point" where
  "minimalNumberCopyTo src dest =
     (let dest' = dest\<lparr>np_time := np_time src\<rparr> in
      case np_value src of
        NDouble d \<Rightarrow> dest'\<lparr>np_value := NDouble d\<rparr>
      | NInt i \<Rightarrow> dest'\<lparr>np_value := NInt i\<rparr>
      | NEmpty \<Rightarrow> dest')"

subsection \<open>Get and Set\<close>

definition getNumberDataPoint :: "cache \<Rightarrow> u64 \<Rightarrow> number_point option \<times> cache" where
  "getNumberDataPoint c i = (case number_cache c i of
     None \<Rightarrow> (None, c)
   | Some u \<Rightarrow> (Some (up_point u), c\<lparr>number_cache := (number_cache c)(i \<mapsto> u\<lparr>up_used := True\<rparr>)\<rparr>))"

definition setNumberDataPoint :: "cache \<Rightarrow> u64 \<Rightarrow> number_point \<Rightarrow> cache" where
  "setNumberDataPoint c i p = (case number_cache c i of
     Some u \<Rightarrow> c\<lparr>number_cache := (number_cache c)
       (i \<mapsto> \<lparr>up_point = minimalNumberCopyTo p (up_point u), up_used = True\<rparr>)\<rparr>
   | None \<Rightarrow> c\<lparr>number_cache := (number_cache c)
       (i \<mapsto> \<lparr>up_point = minimalNumberCopyTo p new_number_point, up_used = True\<rparr>)\<rparr>)"

definition getSummaryDataPoint :: "cache \<Rightarrow> u64 \<Rightarrow> summary_point option \<times> cache" where
  "getSummaryDataPoint c i = (case summary_cache c i of
     None \<Rightarrow> (None, c)
   | Some u \<Rightarrow> (Some (up_point u), c\<lparr>summary_cache := (summary_cache c)(i \<mapsto> u\<lparr>up_used := True\<rparr>)\<rparr>))"

definition setSummaryDataPoint :: "cache \<Rightarrow> u64 \<Rightarrow> summary_point \<Rightarrow> cache" where
  "setSummaryDataPoint c i p = (case summary_cache c i of
     Some u \<Rightarrow> c\<lparr>summary_cache := (summary_cache c)
       (i \<mapsto> \<lparr>up_point = minimalSummaryCopyTo p (up_point u), up_used = True\<rparr>)\<rparr>
   | None \<Rightarrow> c\<lparr>summary_cache := (summary_cache c)
       (i \<mapsto> \<lparr>up_point = minimalSummaryCopyTo p new_summary_point, up_used = True\<rparr>)\<rparr>)"

definition getHistogramDataPoint :: "cache \<Rightarrow> u64 \<Rightarrow> histogram_point option \<times> cache" where
  "getHistogramDataPoint c i = (case histogram_cache c i of
     None \<Rightarrow> (None, c)
   | Some u \<Rightarrow> (Some (up_point u), c\<lparr>histogram_cache := (histogram_cache c)(i \<mapsto> u\<lparr>up_used := True\<rparr>)\<rparr>))"

definition setHistogramDataPoint :: "cache \<Rightarrow> u64 \<Rightarrow> histogram_point \<Rightarrow> cache" where
  "setHistogramDataPoint c i p = (case histogram_cache c i of
     Some u \<Rightarrow> c\<lparr>histogram_cache := (histogram_cache c)
       (i \<mapsto> \<lparr>up_point = minimalHistogramCopyTo p (up_point u), up_used = True\<rparr>)\<rparr>
   | None \<Rightarrow> c\<lparr>histogram_cache := (histogram_cache c)
       (i \<mapsto> \<lparr>up_point = minimalHistogramCopyTo p new_histogram_point, up_used = True\<rparr>)\<rparr>)"

definition getExponentialHistogramDataPoint :: "cache \<Rightarrow> u64 \<Rightarrow> exp_point option \<times> cache" where
  "getExponentialHistogramDataPoint c i = (case exp_cache c i of
     None \<Rightarrow> (None, c)
   | Some u \<Rightarrow> (Some (up_point u), c\<lparr>exp_cache := (exp_cache c)(i \<mapsto> u\<lparr>up_used := True\<rparr>)\<rparr>))"

definition setExponentialHistogramDataPoint :: "cache \<Rightarrow> u64 \<Rightarrow> exp_point \<Rightarrow> cache" where
  "setExponentialHistogramDataPoint c i p = (case exp_cache c i of
     Some u \<Rightarrow> c\<lparr>exp_cache := (exp_cache c)
       (i \<mapsto> \<lparr>up_point = minimalExpCopyTo p (up_point u), up_used = True\<rparr>)\<rparr>
   | None \<Rightarrow> c\<lparr>exp_cache := (exp_cache c)
       (i \<mapsto> \<lparr>up_point = minimalExpCopyTo p new_exp_point, up_used = True\<rparr>)\<rparr>)"

subsection \<open>Garbage collection\<close>

text \<open>One loop of \<open>gc\<close>: a used entry becomes unused, an unused entry is deleted.\<close>

definition sweep_slot :: "'p used_point option \<Rightarrow> 'p used_point option" where
  "sweep_slot s = (case s of
     None \<Rightarrow> None
   | Some u \<Rightarrow> if up_used u then Some (u\<lparr>up_used := False\<rparr>) else None)"

definition sweep :: "(u64 \<rightharpoonup> 'p used_point) \<Rightarrow> (u64 \<rightharpoonup> 'p used_point)" where
  "sweep m = (\<lambda>i. sweep_slot (m i))"

text \<open>What the \<open>select\<close> of \<open>gc\<close> received; the result says whether the loop goes on.\<close>

datatype gc_signal = Shutdown | Tick

fun gc :: "cache \<Rightarrow> gc_signal \<Rightarrow> bool \<times> cache" where
  "gc c Shutdown = (False, c)"
| "gc c Tick =
     (True, \<lparr>number_cache = sweep (number_cache c), summary_cache = sweep (summary_cache c),
        histogram_cache = sweep (histogram_cache c), exp_cache = sweep (exp_cache c)\<rparr>)"

declare gc.simps(2) [simp del]

lemma gc_slots [simp]:
  "number_cache (snd (gc c Tick)) i = sweep_slot (number_cache c i)"
  "summary_cache (snd (gc c Tick)) i = sweep_slot (summary_cache c i)"
  "histogram_cache (snd (gc c Tick)) i = sweep_slot (histogram_cache c i)"
  "exp_cache (snd (gc c Tick)) i = sweep_slot (exp_cache c i)"
  by (simp_all add: gc.simps sweep_def)

subsection \<open>Series identifiers\<close>

text \<open>\<open>fnv.New64\<close>: multiply by the prime, then xor the byte.\<close>

definition fnv_offset :: u64 where
  "fnv_offset = 14695981039346656037"

definition fnv_prime :: u64 where
  "fnv_prime = 1099511628211"

definition fnv_byte :: "char \<Rightarrow> u64 \<Rightarrow> u64" where
  "fnv_byte b h = semiring_bit_operations_class.xor (h * fnv_prime) (word_of_int (of_char b))"

definition fnv_write :: "u64 \<Rightarrow> string \<Rightarrow> u64" where
  "fnv_write h bs = fold fnv_byte bs h"

definition itemSep :: string where
  "itemSep = [chr 254]"

definition kvSep :: string where
  "kvSep = [chr 255]"

text \<open>The order in which the runtime ranges over a map, for every map.\<close>

type_synonym map_order = "labels \<Rightarrow> string list"

definition is_map_order :: "map_order \<Rightarrow> bool" where
  "is_map_order mo \<longleftrightarrow> (\<forall>m. finite (dom m) \<longrightarrow> ranges_over (mo m) m)"

definition get_label :: "labels \<Rightarrow> string \<Rightarrow> string" where
  "get_label m k = (case m k of Some v \<Rightarrow> v | None \<Rightarrow> [])"

definition hashOfMap :: "map_order \<Rightarrow> u64 \<Rightarrow> labels \<Rightarrow> u64" where
  "hashOfMap mo h m =
     fold (\<lambda>k h. fnv_write (fnv_write (fnv_write (fnv_write h k) kvSep) (get_label m k)) kvSep)
       (sort (mo m)) h"

text \<open>\<open>attributes.Range\<close> filling a fresh \<open>map[string]string\<close>.\<close>

definition attribute_strings :: "as_string \<Rightarrow> pmap \<Rightarrow> labels" where
  "attribute_strings as attrs = put_all Map.empty (List.map (\<lambda>(k, v). (k, as v)) attrs)"

record monitored_resource =
  mr_type :: string
  mr_labels :: labels

definition seriesIdentifier ::
  "map_order \<Rightarrow> as_string \<Rightarrow> monitored_resource \<Rightarrow> labels \<Rightarrow> metric \<Rightarrow> pmap \<Rightarrow> u64" where
  "seriesIdentifier mo as resource extra m attrs =
     (let h = fnv_write fnv_offset (mr_type resource);
          h = fnv_write h itemSep;
          h = fnv_write h (m_name m);
          h = fnv_write h itemSep;
          h = hashOfMap mo h extra;
          h = fnv_write h itemSep;
          h = hashOfMap mo h (attribute_strings as attrs);
          h = fnv_write h itemSep
      in hashOfMap mo h (mr_labels resource))"

subsection \<open>One map of the cache\<close>

text \<open>
  What each of the four maps offers its client: \<open>slot\<close> is the entry of a series, \<open>copy\<close> the
  field by field copy of its kind of point, \<open>blank\<close> the new point that a first \<open>Set\<close> fills.
\<close>

locale point_map =
  fixes fetch :: "cache \<Rightarrow> u64 \<Rightarrow> 'p option \<times> cache"
    and store :: "cache \<Rightarrow> u64 \<Rightarrow> 'p \<Rightarrow> cache"
    and slot :: "cache \<Rightarrow> u64 \<Rightarrow> 'p used_point option"
    and copy :: "'p \<Rightarrow> 'p \<Rightarrow> 'p"
    and blank :: 'p
  assumes fetch_value: "fst (fetch c i) = map_option up_point (slot c i)"
    and fetch_slot: "slot (snd (fetch c i)) j =
      (if j = i then map_option (\<lambda>u. \<lparr>up_point = up_point u, up_used = True\<rparr>) (slot c i)
       else slot c j)"
    and store_slot: "slot (store c i p) j =
      (if j = i then Some \<lparr>up_point = copy p (case slot c i of Some u \<Rightarrow> up_point u | None \<Rightarrow> blank),
                           up_used = True\<rparr>
       else slot c j)"
    and tick_slot: "slot (snd (gc c Tick)) i = sweep_slot (slot c i)"
begin

lemma fetch_store: "fst (fetch (store c i p) j) =
    (if j = i then Some (copy p (case fst (fetch c i) of Some q \<Rightarrow> q | None \<Rightarrow> blank))
     else fst (fetch c j))"
  by (auto simp: fetch_value store_slot split: option.splits)

lemma fetch_fetch: "fst (fetch (snd (fetch c i)) j) = fst (fetch c j)"
  by (auto simp: fetch_value fetch_slot option.map_comp comp_def)

lemma store_then_fetch: "fst (fetch (store c i p) i) \<noteq> None"
  by (simp add: fetch_store)

lemma fetch_None: "fst (fetch c i) = None \<longleftrightarrow> slot c i = None"
  by (simp add: fetch_value)

lemma survives_one_tick: "fst (fetch (snd (gc (snd (fetch c i)) Tick)) i) = fst (fetch c i)"
  by (cases "slot c i") (auto simp: fetch_value fetch_slot tick_slot sweep_slot_def)

end

lemma used_point_update_True: "u\<lparr>up_used := True\<rparr> = \<lparr>up_point = up_point u, up_used = True\<rparr>"
  by (cases u) simp

interpretation number_map: point_map getNumberDataPoint setNumberDataPoint number_cache
    minimalNumberCopyTo new_number_point
  by unfold_locales
    (auto simp: getNumberDataPoint_def setNumberDataPoint_def sweep_def used_point_update_True
      split: option.splits)

interpretation summary_map: point_map getSummaryDataPoint setSummaryDataPoint summary_cache
    minimalSummaryCopyTo new_summary_point
  by unfold_locales
    (auto simp: getSummaryDataPoint_def setSummaryDataPoint_def sweep_def used_point_update_True
      split: option.splits)

interpretation histogram_map: point_map getHistogramDataPoint setHistogramDataPoint histogram_cache
    minimalHistogramCopyTo new_histogram_point
  by unfold_locales
    (auto simp: getHistogramDataPoint_def setHistogramDataPoint_def sweep_def used_point_update_True
      split: option.splits)

interpretation exp_map: point_map getExponentialHistogramDataPoint setExponentialHistogramDataPoint
    exp_cache minimalExpCopyTo new_exp_point
  by unfold_locales
    (auto simp: getExponentialHistogramDataPoint_def setExponentialHistogramDataPoint_def sweep_def
      used_point_update_True split: option.splits)

subsection \<open>The life of an entry\<close>

text \<open>The steps of a cache, in the order in which they take its locks.\<close>

datatype cache_event =
    GetNumber u64 | SetNumber u64 number_point
  | GetSummary u64 | SetSummary u64 summary_point
  | GetHistogram u64 | SetHistogram u64 histogram_point
  | GetExp u64 | SetExp u64 exp_point
  | Gc

fun cache_step :: "cache \<Rightarrow> cache_event \<Rightarrow> cache" where
  "cache_step c (GetNumber i) = snd (getNumberDataPoint c i)"
| "cache_step c (SetNumber i p) = setNumberDataPoint c i p"
| "cache_step c (GetSummary i) = snd (getSummaryDataPoint c i)"
| "cache_step c (SetSummary i p) = setSummaryDataPoint c i p"
| "cache_step c (GetHistogram i) = snd (getHistogramDataPoint c i)"
| "cache_step c (SetHistogram i p) = setHistogramDataPoint c i p"
| "cache_step c (GetExp i) = snd (getExponentialHistogramDataPoint c i)"
| "cache_step c (SetExp i p) = setExponentialHistogramDataPoint c i p"
| "cache_step c Gc = snd (gc c Tick)"

definition cache_run :: "cache \<Rightarrow> cache_event list \<Rightarrow> cache" where
  "cache_run c es = foldl cache_step c es"

lemma cache_run_simps [simp]:
  "cache_run c [] = c"
  "cache_run c (e # es) = cache_run (cache_step c e) es"
  by (simp_all add: cache_run_def)

definition ticks :: "cache_event list \<Rightarrow> nat" where
  "ticks es = length (filter (\<lambda>e. e = Gc) es)"

lemma ticks_simps [simp]:
  "ticks [] = 0"
  "ticks (e # es) = (if e = Gc then Suc (ticks es) else ticks es)"
  by (simp_all add: ticks_def)

fun touches_number :: "u64 \<Rightarrow> cache_event \<Rightarrow> bool" where
  "touches_number i (GetNumber j) = (j = i)"
| "touches_number i (SetNumber j _) = (j = i)"
| "touches_number i _ = False"

fun touches_summary :: "u64 \<Rightarrow> cache_event \<Rightarrow> bool" where
  "touches_summary i (GetSummary j) = (j = i)"
| "touches_summary i (SetSummary j _) = (j = i)"
| "touches_summary i _ = False"

fun touches_histogram :: "u64 \<Rightarrow> cache_event \<Rightarrow> bool" where
  "touches_histogram i (GetHistogram j) = (j = i)"
| "touches_histogram i (SetHistogram j _) = (j = i)"
| "touches_histogram i _ = False"

fun touches_exp :: "u64 \<Rightarrow> cache_event \<Rightarrow> bool" where
  "touches_exp i (GetExp j) = (j = i)"
| "touches_exp i (SetExp j _) = (j = i)"
| "touches_exp i _ = False"

text \<open>
  An entry nobody touches is swept only by the collector: a used one is still there after one
  tick and gone after two.
\<close>

fun aged :: "nat \<Rightarrow> 'p used_point option \<Rightarrow> 'p used_point option" where
  "aged 0 s = s"
| "aged (Suc n) s = aged n (sweep_slot s)"

lemma sweep_slot_simps [simp]:
  "sweep_slot None = None"
  "sweep_slot (Some \<lparr>up_point = p, up_used = b\<rparr>) =
     (if b then Some \<lparr>up_point = p, up_used = False\<rparr> else None)"
  by (simp_all add: sweep_slot_def)

lemma aged_None [simp]: "aged n None = None"
  by (induction n) auto

lemma aged_used: "aged n (Some \<lparr>up_point = p, up_used = True\<rparr>) =
    (if n = 0 then Some \<lparr>up_point = p, up_used = True\<rparr>
     else if n = 1 then Some \<lparr>up_point = p, up_used = False\<rparr> else None)"
  by (cases n rule: nat.exhaust; cases "n - 1") auto

locale swept_map =
  fixes slot :: "cache \<Rightarrow> u64 \<Rightarrow> 'p used_point option"
    and touches :: "u64 \<Rightarrow> cache_event \<Rightarrow> bool"
  assumes untouched: "\<not> touches i e \<Longrightarrow> e \<noteq> Gc \<Longrightarrow> slot (cache_step c e) i = slot c i"
    and swept: "slot (cache_step c Gc) i = sweep_slot (slot c i)"
begin

lemma run_untouched:
  "\<forall>e \<in> set es. \<not> touches i e \<Longrightarrow> slot (cache_run c es) i = aged (ticks es) (slot c i)"
proof (induction es arbitrary: c)
  case (Cons e es)
  then show ?case
    by (cases "e = Gc") (simp_all add: untouched swept del: cache_step.simps)
qed simp

lemma run_untouched_used:
  assumes "\<forall>e \<in> set es. \<not> touches i e" "slot c i = Some \<lparr>up_point = p, up_used = True\<rparr>"
  shows "map_option up_point (slot (cache_run c es) i) = (if ticks es \<le> 1 then Some p else None)"
  using run_untouched [OF assms(1), of c] assms(2) by (auto simp: aged_used)

end

lemmas cache_operations =
  getNumberDataPoint_def setNumberDataPoint_def getSummaryDataPoint_def setSummaryDataPoint_def
  getHistogramDataPoint_def setHistogramDataPoint_def
  getExponentialHistogramDataPoint_def setExponentialHistogramDataPoint_def

interpretation number_life: swept_map number_cache touches_number
proof
  show "number_cache (cache_step c e) i = number_cache c i"
    if "\<not> touches_number i e" "e \<noteq> Gc" for i e c
    using that by (cases e) (auto simp: cache_operations split: option.splits)
qed simp

interpretation summary_life: swept_map summary_cache touches_summary
proof
  show "summary_cache (cache_step c e) i = summary_cache c i"
    if "\<not> touches_summary i e" "e \<noteq> Gc" for i e c
    using that by (cases e) (auto simp: cache_operations split: option.splits)
qed simp

interpretation histogram_life: swept_map histogram_cache touches_histogram
proof
  show "histogram_cache (cache_step c e) i = histogram_cache c i"
    if "\<not> touches_histogram i e" "e \<noteq> Gc" for i e c
    using that by (cases e) (auto simp: cache_operations split: option.splits)
qed simp

interpretation exp_life: swept_map exp_cache touches_exp
proof
  show "exp_cache (cache_step c e) i = exp_cache c i"
    if "\<not> touches_exp i e" "e \<noteq> Gc" for i e c
    using that by (cases e) (auto simp: cache_operations split: option.splits)
qed simp

subsection \<open>Identifiers as hashes of an encoding\<close>

text \<open>The bytes an identifier hashes, in one list.\<close>

definition map_bytes :: "string list \<Rightarrow> labels \<Rightarrow> string" where
  "map_bytes ks m = concat (List.map (\<lambda>k. k @ kvSep @ get_label m k @ kvSep) ks)"

definition canonical_bytes :: "labels \<Rightarrow> string" where
  "canonical_bytes m = map_bytes (sorted_list_of_set (dom m)) m"

definition series_bytes :: "monitored_resource \<Rightarrow> labels \<Rightarrow> string \<Rightarrow> labels \<Rightarrow> string" where
  "series_bytes r extra name attrs =
     mr_type r @ itemSep @ name @ itemSep @ canonical_bytes extra @ itemSep @
     canonical_bytes attrs @ itemSep @ canonical_bytes (mr_labels r)"

lemma fnv_write_append [simp]: "fnv_write (fnv_write h xs) ys = fnv_write h (xs @ ys)"
  by (simp add: fnv_write_def)

lemma fnv_write_Nil [simp]: "fnv_write h [] = h"
  by (simp add: fnv_write_def)

lemma sort_ranges: "ranges_over ks m \<Longrightarrow> sort ks = sorted_list_of_set (dom m)"
  by (metis ranges_over_def sorted_list_of_set_sort_remdups distinct_remdups_id)

lemma hashOfMap_bytes:
  assumes "is_map_order mo" "finite (dom m)"
  shows "hashOfMap mo h m = fnv_write h (canonical_bytes m)"
proof -
  have "fold (\<lambda>k h. fnv_write (fnv_write (fnv_write (fnv_write h k) kvSep) (get_label m k)) kvSep) ks h =
      fnv_write h (map_bytes ks m)" for ks :: "string list"
    by (induction ks arbitrary: h) (simp_all add: map_bytes_def)
  moreover have "sort (mo m) = sorted_list_of_set (dom m)"
    using assms by (simp add: is_map_order_def sort_ranges)
  ultimately show ?thesis by (simp add: hashOfMap_def canonical_bytes_def)
qed

lemma finite_attribute_strings: "finite (dom (attribute_strings str attrs))"
  by (simp add: attribute_strings_def dom_put_all)

lemma identifier_bytes:
  assumes "is_map_order mo" "finite (dom extra)" "finite (dom (mr_labels r))"
  shows "seriesIdentifier mo str r extra m attrs =
    fnv_write fnv_offset (series_bytes r extra (m_name m) (attribute_strings str attrs))"
  using assms by (simp add: seriesIdentifier_def Let_def hashOfMap_bytes finite_attribute_strings
      series_bytes_def)

subsection \<open>The encoding tells series apart\<close>

definition clean :: "string \<Rightarrow> bool" where
  "clean s \<longleftrightarrow> chr 254 \<notin> set s \<and> chr 255 \<notin> set s"

definition clean_labels :: "labels \<Rightarrow> bool" where
  "clean_labels m \<longleftrightarrow> finite (dom m) \<and> (\<forall>k v. m k = Some v \<longrightarrow> clean k \<and> clean v)"

lemma separators_differ: "chr 254 \<noteq> chr 255"
  by (simp add: char_of_eq_iff)

lemma split_at_separator:
  assumes "c \<notin> set x" "c \<notin> set x'" "x @ c # y = x' @ c # y'"
  shows "x = x' \<and> y = y'"
proof -
  from assms(3) obtain us where "x = x' @ us \<and> us @ c # y = c # y' \<or> x @ us = x' \<and> c # y = us @ c # y'"
    by (auto simp: append_eq_append_conv2)
  with assms(1,2) show ?thesis by (cases us) auto
qed

lemma map_bytes_no_itemSep:
  assumes "\<forall>k \<in> set ks. clean k \<and> clean (get_label m k)"
  shows "chr 254 \<notin> set (map_bytes ks m)"
proof -
  have gen: "a \<notin> set (map_bytes ks m)"
    if "\<forall>k \<in> set ks. a \<notin> set k \<and> a \<notin> set (get_label m k)" "a \<notin> set kvSep" for a
    using that by (auto simp: map_bytes_def)
  have "chr 254 \<notin> set kvSep" using separators_differ by (simp only: kvSep_def set_simps) blast
  with assms show ?thesis by (intro gen) (auto simp only: clean_def)
qed

lemma map_bytes_simps:
  "map_bytes [] m = []"
  "map_bytes (k # ks) m = k @ chr 255 # (get_label m k @ chr 255 # map_bytes ks m)"
  by (simp_all add: map_bytes_def kvSep_def)

lemma map_bytes_Nil_iff: "map_bytes ks m = [] \<longleftrightarrow> ks = []"
  by (cases ks) (simp_all only: map_bytes_simps append_is_Nil_conv list.distinct simp_thms)

lemma map_bytes_inj:
  assumes "\<forall>k \<in> set ks. clean k \<and> clean (get_label m k)"
    and "\<forall>k \<in> set ks'. clean k \<and> clean (get_label m' k)"
    and "map_bytes ks m = map_bytes ks' m'"
  shows "ks = ks' \<and> (\<forall>k \<in> set ks. get_label m k = get_label m' k)"
  using assms
proof (induction ks arbitrary: ks')
  case Nil
  from Nil.prems(3) have "ks' = []" by (metis map_bytes_Nil_iff)
  then show ?case by simp
next
  case (Cons k ks)
  from Cons.prems(3) have "ks' \<noteq> []" by (metis map_bytes_Nil_iff list.distinct(1))
  then obtain k' ks'' where ks': "ks' = k' # ks''" by (metis list.exhaust)
  have sep: "chr 255 \<notin> set x" if "clean x" for x
    using that by (simp only: clean_def simp_thms)
  have c: "clean k" "clean (get_label m k)" "clean k'" "clean (get_label m' k')"
    using Cons.prems(1,2) unfolding ks' by simp_all
  note eq = Cons.prems(3) [unfolded ks' map_bytes_simps]
  note k = split_at_separator [OF sep [OF c(1)] sep [OF c(3)] eq]
  note v = split_at_separator [OF sep [OF c(2)] sep [OF c(4)] conjunct2 [OF k]]
  have "\<forall>k \<in> set ks. clean k \<and> clean (get_label m k)" using Cons.prems(1) by simp
  moreover have "\<forall>k \<in> set ks''. clean k \<and> clean (get_label m' k)"
    using Cons.prems(2) unfolding ks' by simp
  ultimately have "ks = ks'' \<and> (\<forall>k \<in> set ks. get_label m k = get_label m' k)"
    using conjunct2 [OF v] by (rule Cons.IH)
  with conjunct1 [OF k] conjunct1 [OF v] ks' show ?case by simp
qed

lemma clean_labels_keys: "clean_labels m \<Longrightarrow>
    \<forall>k \<in> set (sorted_list_of_set (dom m)). clean k \<and> clean (get_label m k)"
  by (auto simp: clean_labels_def get_label_def)

lemma canonical_no_itemSep: "clean_labels m \<Longrightarrow> chr 254 \<notin> set (canonical_bytes m)"
  unfolding canonical_bytes_def by (intro map_bytes_no_itemSep clean_labels_keys)

lemma canonical_inj:
  assumes "clean_labels m" "clean_labels m'" "canonical_bytes m = canonical_bytes m'"
  shows "m = m'"
proof -
  have fin: "finite (dom m)" "finite (dom m')" using assms by (auto simp: clean_labels_def)
  have "sorted_list_of_set (dom m) = sorted_list_of_set (dom m') \<and>
      (\<forall>k \<in> set (sorted_list_of_set (dom m)). get_label m k = get_label m' k)"
    using assms by (intro map_bytes_inj clean_labels_keys) (simp_all add: canonical_bytes_def)
  then have d: "dom m = dom m'" and g: "\<forall>k \<in> dom m. get_label m k = get_label m' k"
    using fin by (metis sorted_list_of_set.set_sorted_key_list_of_set)+
  show ?thesis
  proof
    fix k
    show "m k = m' k"
    proof (cases "k \<in> dom m")
      case True
      with d obtain v v' where "m k = Some v" "m' k = Some v'" by blast
      with True g show ?thesis by (force simp: get_label_def)
    next
      case False
      with d show ?thesis by (metis domIff)
    qed
  qed
qed

lemma series_bytes_inj:
  assumes "clean (mr_type r)" "clean (mr_type r')" "clean n" "clean n'"
    and "clean_labels e" "clean_labels e'" "clean_labels a" "clean_labels a'"
    and "clean_labels (mr_labels r)" "clean_labels (mr_labels r')"
    and eq: "series_bytes r e n a = series_bytes r' e' n' a'"
  shows "r = r' \<and> e = e' \<and> n = n' \<and> a = a'"
proof -
  have sep: "chr 254 \<notin> set x" if "clean x" for x
    using that by (simp only: clean_def simp_thms)
  note no = canonical_no_itemSep
  note s = eq [unfolded series_bytes_def itemSep_def append_Cons append_Nil]
  note 1 = split_at_separator [OF sep [OF assms(1)] sep [OF assms(2)] s]
  note 2 = split_at_separator [OF sep [OF assms(3)] sep [OF assms(4)] conjunct2 [OF 1]]
  note 3 = split_at_separator [OF no [OF assms(5)] no [OF assms(6)] conjunct2 [OF 2]]
  note 4 = split_at_separator [OF no [OF assms(7)] no [OF assms(8)] conjunct2 [OF 3]]
  have "mr_labels r = mr_labels r'" using 4 assms canonical_inj by blast
  moreover have "e = e'" "a = a'" using 3 4 assms canonical_inj by blast+
  ultimately show ?thesis using 1 2 by (cases r; cases r') simp
qed

text \<open>Valid UTF-8 has no byte above 244.\<close>

lemma decode_bytes_small:
  assumes "s \<noteq> []" "decode_rune s \<noteq> (rune_error, 1)" "c \<in> set (take (snd (decode_rune s)) s)"
  shows "byte c < 245"
proof -
  from assms(1) obtain b t where s: "s = b # t" by (cases s) auto
  show ?thesis using assms(2,3)
    by (auto simp: s Let_def decode2_def decode3_def decode4_def is_cont_def second_ok_def
        split: list.splits if_splits)
qed

lemma valid_utf8_bytes: "valid_utf8 s \<Longrightarrow> c \<in> set s \<Longrightarrow> byte c < 245"
proof (induction s rule: segments.induct)
  case (1 s)
  then have ne: "s \<noteq> []" by auto
  let ?w = "snd (decode_rune s)"
  have ok: "decode_rune s \<noteq> (rune_error, 1)"
    using 1 ne by (intro decode_first_ok) (auto simp: valid_utf8_def segments_step)
  have rest: "valid_utf8 (drop ?w s)" using "1.prems" ne by (simp add: valid_utf8_def segments_step)
  have "c \<in> set (take ?w s) \<or> c \<in> set (drop ?w s)"
    using "1.prems"(2) by (metis Un_iff append_take_drop_id set_append)
  then show ?case using decode_bytes_small [OF ne ok] "1.IH" [OF ne rest] by blast
qed

lemma valid_utf8_clean: "valid_utf8 s \<Longrightarrow> clean s"
  using valid_utf8_bytes [of s "chr 254"] valid_utf8_bytes [of s "chr 255"] by (auto simp: clean_def)

subsection \<open>Properties\<close>

text \<open>C6. A point that was stored and that nobody reads or stores again is found until the second
tick of the collector after it, whatever else happens to the cache in between, and is gone after
that; for each of the four kinds.\<close>

theorem stored_points_live_until_second_tick:
  assumes "\<forall>e \<in> set es. \<not> touches_number i e \<and> \<not> touches_summary i e \<and> \<not> touches_histogram i e \<and> \<not> touches_exp i e"
  shows "fst (getNumberDataPoint (cache_run (setNumberDataPoint c i np) es) i) =
      (if ticks es \<le> 1 then fst (getNumberDataPoint (setNumberDataPoint c i np) i) else None) \<and>
    fst (getSummaryDataPoint (cache_run (setSummaryDataPoint c i sp) es) i) =
      (if ticks es \<le> 1 then fst (getSummaryDataPoint (setSummaryDataPoint c i sp) i) else None) \<and>
    fst (getHistogramDataPoint (cache_run (setHistogramDataPoint c i hp) es) i) =
      (if ticks es \<le> 1 then fst (getHistogramDataPoint (setHistogramDataPoint c i hp) i) else None) \<and>
    fst (getExponentialHistogramDataPoint (cache_run (setExponentialHistogramDataPoint c i xp) es) i) =
      (if ticks es \<le> 1 then fst (getExponentialHistogramDataPoint (setExponentialHistogramDataPoint c i xp) i) else None)"
  using assms
  by (simp add: number_map.fetch_value summary_map.fetch_value histogram_map.fetch_value exp_map.fetch_value
      number_map.store_slot summary_map.store_slot histogram_map.store_slot exp_map.store_slot
      number_life.run_untouched_used [where i = i] summary_life.run_untouched_used [where i = i]
      histogram_life.run_untouched_used [where i = i] exp_life.run_untouched_used [where i = i])

definition example_events :: "cache_event list" where
  "example_events = [GetNumber 1, Gc, SetSummary 2 new_summary_point, Gc, SetExp 4 new_exp_point]"

lemma stored_points_live_until_second_tick_witness:
  "fst (getNumberDataPoint (cache_run (setNumberDataPoint newCache 3 new_number_point) example_events) 3) =
      (if ticks example_events \<le> 1
       then fst (getNumberDataPoint (setNumberDataPoint newCache 3 new_number_point) 3) else None)"
  using stored_points_live_until_second_tick [of example_events 3 newCache new_number_point]
  by (simp add: example_events_def)

text \<open>What a \<open>Get\<close> returns after a \<open>Set\<close> of the same series is the new point's time and
values laid over what was cached before; other series and the other kinds of point are not affected,
and a \<open>Get\<close> keeps an entry through the next tick.\<close>

theorem cache_get_after_set:
  "fst (getNumberDataPoint (setNumberDataPoint c i p) j) =
     (if j = i then Some (minimalNumberCopyTo p (case fst (getNumberDataPoint c i) of Some d \<Rightarrow> d | None \<Rightarrow> new_number_point))
      else fst (getNumberDataPoint c j)) \<and>
   fst (getSummaryDataPoint (setNumberDataPoint c i p) j) = fst (getSummaryDataPoint c j) \<and>
   fst (getHistogramDataPoint (setNumberDataPoint c i p) j) = fst (getHistogramDataPoint c j) \<and>
   fst (getExponentialHistogramDataPoint (setNumberDataPoint c i p) j) = fst (getExponentialHistogramDataPoint c j) \<and>
   fst (getNumberDataPoint (snd (gc (snd (getNumberDataPoint c i)) Tick)) i) = fst (getNumberDataPoint c i)"
  by (simp add: number_map.fetch_store number_map.survives_one_tick)
    (simp add: cache_operations split: option.splits)

text \<open>The identifier of a series does not depend on the order in which the runtime ranges over
the label maps.\<close>

theorem identifier_ignores_map_order:
  assumes "is_map_order mo" "is_map_order mo'" "finite (dom extra)" "finite (dom (mr_labels r))"
  shows "seriesIdentifier mo str r extra m attrs = seriesIdentifier mo' str r extra m attrs"
  using assms by (simp add: identifier_bytes)

definition sorted_order :: map_order where
  "sorted_order m = sorted_list_of_set (dom m)"

lemma sorted_order_ok: "is_map_order sorted_order" "is_map_order (\<lambda>m. rev (sorted_order m))"
  by (simp_all add: is_map_order_def ranges_over_def sorted_order_def)

lemma identifier_ignores_map_order_witness:
  "seriesIdentifier sorted_order val_str \<lparr>mr_type = ''global'', mr_labels = Map.empty\<rparr> [''a'' \<mapsto> ''1'', ''b'' \<mapsto> ''2'']
     \<lparr>m_name = ''m'', m_description = [], m_unit = [], m_metadata = [], m_data = MEmpty\<rparr> [(''k'', VStr ''v'')] =
   seriesIdentifier (\<lambda>m. rev (sorted_order m)) val_str \<lparr>mr_type = ''global'', mr_labels = Map.empty\<rparr> [''a'' \<mapsto> ''1'', ''b'' \<mapsto> ''2'']
     \<lparr>m_name = ''m'', m_description = [], m_unit = [], m_metadata = [], m_data = MEmpty\<rparr> [(''k'', VStr ''v'')]"
  by (rule identifier_ignores_map_order) (simp_all add: sorted_order_ok)

text \<open>C7. The identifier is the FNV hash of an encoding of the resource, the extra labels, the metric's
name and the attributes, and on strings that are valid UTF-8 two encodings agree only if all four
do: two series share an identifier only by a collision of the hash.\<close>

theorem identifier_encoding_is_injective:
  assumes "is_map_order mo" "clean_labels e" "clean_labels e'"
    and "clean_labels (mr_labels r)" "clean_labels (mr_labels r')"
    and "clean_labels (attribute_strings str a)" "clean_labels (attribute_strings str a')"
    and "valid_utf8 (mr_type r)" "valid_utf8 (mr_type r')" "valid_utf8 (m_name m)" "valid_utf8 (m_name m')"
  shows "seriesIdentifier mo str r e m a =
      fnv_write fnv_offset (series_bytes r e (m_name m) (attribute_strings str a)) \<and>
    seriesIdentifier mo str r' e' m' a' =
      fnv_write fnv_offset (series_bytes r' e' (m_name m') (attribute_strings str a')) \<and>
    (series_bytes r e (m_name m) (attribute_strings str a) = series_bytes r' e' (m_name m') (attribute_strings str a')
     \<longleftrightarrow> r = r' \<and> e = e' \<and> m_name m = m_name m' \<and> attribute_strings str a = attribute_strings str a')"
proof -
  have "finite (dom e)" "finite (dom e')" "finite (dom (mr_labels r))" "finite (dom (mr_labels r'))"
    using assms by (simp_all add: clean_labels_def)
  moreover have "r = r' \<and> e = e' \<and> m_name m = m_name m' \<and> attribute_strings str a = attribute_strings str a'"
    if "series_bytes r e (m_name m) (attribute_strings str a) = series_bytes r' e' (m_name m') (attribute_strings str a')"
    using series_bytes_inj [OF _ _ _ _ assms(2,3,6,7,4,5) that] assms valid_utf8_clean by blast
  ultimately show ?thesis using assms(1) by (auto simp: identifier_bytes)
qed

lemma identifier_encoding_is_injective_witness:
  "seriesIdentifier sorted_order val_str \<lparr>mr_type = ''global'', mr_labels = Map.empty\<rparr> Map.empty
      \<lparr>m_name = ''m'', m_description = [], m_unit = [], m_metadata = [], m_data = MEmpty\<rparr> [(''k'', VStr ''v'')] =
    fnv_write fnv_offset (series_bytes \<lparr>mr_type = ''global'', mr_labels = Map.empty\<rparr> Map.empty
      (m_name \<lparr>m_name = ''m'', m_description = [], m_unit = [], m_metadata = [], m_data = MEmpty\<rparr>)
      (attribute_strings val_str [(''k'', VStr ''v'')]))"
proof -
  have clean: "clean_labels Map.empty"
    "clean_labels (mr_labels \<lparr>mr_type = ''global'', mr_labels = Map.empty\<rparr>)"
    by (simp_all add: clean_labels_def)
  have kv: "clean ''k''" "clean ''v''" by (rule valid_utf8_clean, code_simp)+
  have single: "clean_labels [k \<mapsto> v]" if "clean k" "clean v" for k v
    using that by (simp add: clean_labels_def)
  have "attribute_strings val_str [(''k'', VStr ''v'')] = [''k'' \<mapsto> ''v'']"
    by (simp add: attribute_strings_def val_str_def)
  with single [OF kv] have attrs: "clean_labels (attribute_strings val_str [(''k'', VStr ''v'')])" by (simp only:)
  have utf: "valid_utf8 (mr_type \<lparr>mr_type = ''global'', mr_labels = Map.empty\<rparr>)"
    "valid_utf8 (m_name \<lparr>m_name = ''m'', m_description = [], m_unit = [], m_metadata = [], m_data = MEmpty\<rparr>)"
    by code_simp+
  show ?thesis
    by (rule identifier_encoding_is_injective [OF sorted_order_ok(1) clean(1,1,2,2) attrs attrs utf(1,1,2,2), THEN conjunct1])
qed

end
