(* ===== verification/Normalization.thy ===== *)
theory Normalization
  imports PointCache "HOL-Library.Sublist"
begin

text \<open>
  The normalizers (exporter/collector/internal/normalization): the standard one keeps, for every
  series, the point that started it and the last point it produced, drops the first point of a
  series whose start is unknown and subtracts it from the later ones; the disabled one only
  repairs intervals. A point is passed by reference and changed in place, so an operation
  returns whether the point is kept, the changed point and the changed caches; the histogram
  operation can index past a shorter cached bucket list, which is a panic of the process. An
  operation is one step: the collector tick of the caches falls between operations.
\<close>

record normalizer =
  nz_start :: cache
  nz_previous :: cache

definition NewStandardNormalizer :: normalizer where
  "NewStandardNormalizer = \<lparr>nz_start = newCache, nz_previous = newCache\<rparr>"

subsection \<open>Comparison and subtraction\<close>

definition lessThanNumberDataPoint :: "number_point \<Rightarrow> number_point \<Rightarrow> bool" where
  "lessThanNumberDataPoint a b = (case np_value a of
     NInt _ \<Rightarrow> np_int a <s np_int b
   | NDouble _ \<Rightarrow> f_lt (np_double a) (np_double b)
   | NEmpty \<Rightarrow> False)"

definition subtractNumberDataPoint :: "number_point \<Rightarrow> number_point \<Rightarrow> number_point" where
  "subtractNumberDataPoint a b =
     (let a = a\<lparr>np_start := np_time b\<rparr> in
      case np_value a of
        NInt _ \<Rightarrow> a\<lparr>np_value := NInt (np_int a - np_int b)\<rparr>
      | NDouble _ \<Rightarrow> a\<lparr>np_value := NDouble (f_sub (np_double a) (np_double b))\<rparr>
      | NEmpty \<Rightarrow> a)"

definition lessThanSummaryDataPoint :: "summary_point \<Rightarrow> summary_point \<Rightarrow> bool" where
  "lessThanSummaryDataPoint a b \<longleftrightarrow> sp_count a < sp_count b \<or> f_lt (sp_sum a) (sp_sum b)"

definition subtractSummaryDataPoint :: "summary_point \<Rightarrow> summary_point \<Rightarrow> summary_point" where
  "subtractSummaryDataPoint a b =
     a\<lparr>sp_start := sp_time b, sp_count := sp_count a - sp_count b, sp_sum := f_sub (sp_sum a) (sp_sum b)\<rparr>"

definition lessThanHistogramDataPoint :: "histogram_point \<Rightarrow> histogram_point \<Rightarrow> bool" where
  "lessThanHistogramDataPoint a b \<longleftrightarrow>
     hp_count a < hp_count b \<or> f_lt (hp_sum_value a) (hp_sum_value b)"

text \<open>The loop reads \<open>bBuckets.At(i)\<close> for every bucket of \<open>a\<close>.\<close>

fun subtract_buckets :: "u64 list \<Rightarrow> u64 list \<Rightarrow> (go_panic, u64 list) res" where
  "subtract_buckets [] bs = Inr []"
| "subtract_buckets (a # as) [] = Inl IndexOutOfRange"
| "subtract_buckets (a # as) (b # bs) = res_bind (subtract_buckets as bs) (\<lambda>ds. Inr ((a - b) # ds))"

definition subtractHistogramDataPoint ::
  "histogram_point \<Rightarrow> histogram_point \<Rightarrow> (go_panic, histogram_point) res" where
  "subtractHistogramDataPoint a b =
     res_bind (subtract_buckets (hp_buckets a) (hp_buckets b)) (\<lambda>ds.
       Inr (a\<lparr>hp_start := hp_time b, hp_count := hp_count a - hp_count b,
              hp_sum := Some (f_sub (hp_sum_value a) (hp_sum_value b)), hp_buckets := ds\<rparr>))"

fun bucketBoundariesEqual :: "f64 list \<Rightarrow> f64 list \<Rightarrow> bool" where
  "bucketBoundariesEqual [] [] = True"
| "bucketBoundariesEqual (a # as) (b # bs) = (f_eq a b \<and> bucketBoundariesEqual as bs)"
| "bucketBoundariesEqual _ _ = False"

definition lessThanExponentialHistogramDataPoint :: "exp_point \<Rightarrow> exp_point \<Rightarrow> bool" where
  "lessThanExponentialHistogramDataPoint a b \<longleftrightarrow>
     xp_count a < xp_count b \<or> f_lt (xp_sum_value a) (xp_sum_value b)"

text \<open>The difference of the offsets is an \<open>int32\<close>, so it wraps before it is widened.\<close>

definition subtractExponentialBuckets :: "exp_buckets \<Rightarrow> exp_buckets \<Rightarrow> u64 list" where
  "subtractExponentialBuckets a b =
     (let offsetDiff = sint (eb_offset a - eb_offset b) in
      List.map (\<lambda>i. let bOffset = int i + offsetDiff in
                   if bOffset < 0 \<or> int (length (eb_counts b)) \<le> bOffset then eb_counts a ! i
                   else eb_counts a ! i - eb_counts b ! nat bOffset)
        [0..<length (eb_counts a)])"

definition subtractExponentialHistogramDataPoint :: "exp_point \<Rightarrow> exp_point \<Rightarrow> exp_point" where
  "subtractExponentialHistogramDataPoint a b =
     a\<lparr>xp_start := xp_time b, xp_count := xp_count a - xp_count b,
       xp_sum := Some (f_sub (xp_sum_value a) (xp_sum_value b)),
       xp_zero_count := xp_zero_count a - xp_zero_count b,
       xp_positive := (xp_positive a)\<lparr>eb_counts := subtractExponentialBuckets (xp_positive a) (xp_positive b)\<rparr>,
       xp_negative := (xp_negative a)\<lparr>eb_counts := subtractExponentialBuckets (xp_negative a) (xp_negative b)\<rparr>\<rparr>"

subsection \<open>The standard normalizer\<close>

definition NormalizeNumberDataPoint ::
  "normalizer \<Rightarrow> number_point \<Rightarrow> u64 \<Rightarrow> bool \<times> number_point \<times> normalizer" where
  "NormalizeNumberDataPoint n point i =
     (let (cached, sc) = getNumberDataPoint (nz_start n) i; n = n\<lparr>nz_start := sc\<rparr> in
      case cached of
        None \<Rightarrow>
          if np_start point = 0 \<or> \<not> ts_before (np_start point) (np_time point)
          then (False, point,
            \<lparr>nz_start = setNumberDataPoint (nz_start n) i point,
             nz_previous = setNumberDataPoint (nz_previous n) i point\<rparr>)
          else (True, point, n)
      | Some start \<Rightarrow>
          let (found, pc) = getNumberDataPoint (nz_previous n) i; n = n\<lparr>nz_previous := pc\<rparr>;
              previous = (case found of None \<Rightarrow> start | Some p \<Rightarrow> p) in
          if \<not> ts_before (np_start point) (np_time point) \<or>
             (np_start point = 0 \<and> lessThanNumberDataPoint point previous)
          then
            let point = point\<lparr>np_start := np_time point - millisecond\<rparr>;
                zeroPoint = new_number_point\<lparr>np_time := np_start point\<rparr> in
            (True, point,
              \<lparr>nz_start = setNumberDataPoint (nz_start n) i zeroPoint,
               nz_previous = setNumberDataPoint (nz_previous n) i point\<rparr>)
          else if \<not> ts_before (np_time start) (np_time point) then (False, point, n)
          else
            let point = subtractNumberDataPoint point start in
            (True, point, n\<lparr>nz_previous := setNumberDataPoint (nz_previous n) i point\<rparr>))"

definition NormalizeSummaryDataPoint ::
  "normalizer \<Rightarrow> summary_point \<Rightarrow> u64 \<Rightarrow> bool \<times> summary_point \<times> normalizer" where
  "NormalizeSummaryDataPoint n point i =
     (let (cached, sc) = getSummaryDataPoint (nz_start n) i; n = n\<lparr>nz_start := sc\<rparr> in
      case cached of
        None \<Rightarrow>
          if sp_start point = 0 \<or> \<not> ts_before (sp_start point) (sp_time point)
          then (False, point,
            \<lparr>nz_start = setSummaryDataPoint (nz_start n) i point,
             nz_previous = setSummaryDataPoint (nz_previous n) i point\<rparr>)
          else (True, point, n)
      | Some start \<Rightarrow>
          let (found, pc) = getSummaryDataPoint (nz_previous n) i; n = n\<lparr>nz_previous := pc\<rparr>;
              previous = (case found of None \<Rightarrow> start | Some p \<Rightarrow> p) in
          if \<not> ts_before (sp_start point) (sp_time point) \<or>
             (sp_start point = 0 \<and> lessThanSummaryDataPoint point previous)
          then
            let point = point\<lparr>sp_start := sp_time point - millisecond\<rparr>;
                zeroPoint = new_summary_point\<lparr>sp_time := sp_start point\<rparr> in
            (True, point,
              \<lparr>nz_start = setSummaryDataPoint (nz_start n) i zeroPoint,
               nz_previous = setSummaryDataPoint (nz_previous n) i point\<rparr>)
          else if \<not> ts_before (sp_time start) (sp_time point) then (False, point, n)
          else
            let point = subtractSummaryDataPoint point start in
            (True, point, n\<lparr>nz_previous := setSummaryDataPoint (nz_previous n) i point\<rparr>))"

definition NormalizeHistogramDataPoint ::
  "normalizer \<Rightarrow> histogram_point \<Rightarrow> u64 \<Rightarrow> (go_panic, bool \<times> histogram_point \<times> normalizer) res" where
  "NormalizeHistogramDataPoint n point i =
     (let (cached, sc) = getHistogramDataPoint (nz_start n) i; n = n\<lparr>nz_start := sc\<rparr> in
      case cached of
        None \<Rightarrow>
          if hp_start point = 0 \<or> \<not> ts_before (hp_start point) (hp_time point)
          then Inr (False, point,
            \<lparr>nz_start = setHistogramDataPoint (nz_start n) i point,
             nz_previous = setHistogramDataPoint (nz_previous n) i point\<rparr>)
          else Inr (True, point, n)
      | Some start \<Rightarrow>
          if \<not> bucketBoundariesEqual (hp_bounds point) (hp_bounds start)
          then Inr (False, point,
            \<lparr>nz_start = setHistogramDataPoint (nz_start n) i point,
             nz_previous = setHistogramDataPoint (nz_previous n) i point\<rparr>)
          else
          let (found, pc) = getHistogramDataPoint (nz_previous n) i; n = n\<lparr>nz_previous := pc\<rparr>;
              previous = (case found of None \<Rightarrow> start | Some p \<Rightarrow> p) in
          if \<not> ts_before (hp_start point) (hp_time point) \<or>
             (hp_start point = 0 \<and> lessThanHistogramDataPoint point previous)
          then
            let point = point\<lparr>hp_start := hp_time point - millisecond\<rparr>;
                zeroPoint = new_histogram_point\<lparr>hp_time := hp_start point, hp_bounds := hp_bounds point,
                  hp_buckets := replicate (length (hp_buckets point)) 0\<rparr> in
            Inr (True, point,
              \<lparr>nz_start = setHistogramDataPoint (nz_start n) i zeroPoint,
               nz_previous = setHistogramDataPoint (nz_previous n) i point\<rparr>)
          else if \<not> ts_before (hp_time start) (hp_time point) then Inr (False, point, n)
          else
            res_bind (subtractHistogramDataPoint point start) (\<lambda>point.
            Inr (True, point, n\<lparr>nz_previous := setHistogramDataPoint (nz_previous n) i point\<rparr>)))"

definition NormalizeExponentialHistogramDataPoint ::
  "normalizer \<Rightarrow> exp_point \<Rightarrow> u64 \<Rightarrow> bool \<times> exp_point \<times> normalizer" where
  "NormalizeExponentialHistogramDataPoint n point i =
     (let (cached, sc) = getExponentialHistogramDataPoint (nz_start n) i; n = n\<lparr>nz_start := sc\<rparr> in
      case cached of
        None \<Rightarrow>
          if xp_start point = 0 \<or> \<not> ts_before (xp_start point) (xp_time point)
          then (False, point,
            \<lparr>nz_start = setExponentialHistogramDataPoint (nz_start n) i point,
             nz_previous = setExponentialHistogramDataPoint (nz_previous n) i point\<rparr>)
          else (True, point, n)
      | Some start \<Rightarrow>
          if xp_scale point \<noteq> xp_scale start
          then (False, point,
            \<lparr>nz_start = setExponentialHistogramDataPoint (nz_start n) i point,
             nz_previous = setExponentialHistogramDataPoint (nz_previous n) i point\<rparr>)
          else
          let (found, pc) = getExponentialHistogramDataPoint (nz_previous n) i; n = n\<lparr>nz_previous := pc\<rparr>;
              previous = (case found of None \<Rightarrow> start | Some p \<Rightarrow> p) in
          if \<not> ts_before (xp_start point) (xp_time point) \<or>
             (xp_start point = 0 \<and> lessThanExponentialHistogramDataPoint point previous)
          then
            let point = point\<lparr>xp_start := xp_time point - millisecond\<rparr>;
                zeroPoint = new_exp_point\<lparr>xp_time := xp_start point, xp_scale := xp_scale point\<rparr> in
            (True, point,
              \<lparr>nz_start = setExponentialHistogramDataPoint (nz_start n) i zeroPoint,
               nz_previous = setExponentialHistogramDataPoint (nz_previous n) i point\<rparr>)
          else if \<not> ts_before (xp_time start) (xp_time point) then (False, point, n)
          else
            let point = subtractExponentialHistogramDataPoint point start in
            (True, point, n\<lparr>nz_previous := setExponentialHistogramDataPoint (nz_previous n) i point\<rparr>))"

subsection \<open>The disabled normalizer\<close>

definition DisabledNormalizeNumberDataPoint :: "number_point \<Rightarrow> bool \<times> number_point" where
  "DisabledNormalizeNumberDataPoint point =
     (True, if \<not> ts_before (np_start point) (np_time point)
            then point\<lparr>np_start := np_time point - millisecond\<rparr> else point)"

definition DisabledNormalizeSummaryDataPoint :: "summary_point \<Rightarrow> bool \<times> summary_point" where
  "DisabledNormalizeSummaryDataPoint point =
     (True, if \<not> ts_before (sp_start point) (sp_time point)
            then point\<lparr>sp_start := sp_time point - millisecond\<rparr> else point)"

definition DisabledNormalizeHistogramDataPoint :: "histogram_point \<Rightarrow> bool \<times> histogram_point" where
  "DisabledNormalizeHistogramDataPoint point =
     (True, if \<not> ts_before (hp_start point) (hp_time point)
            then point\<lparr>hp_start := hp_time point - millisecond\<rparr> else point)"

definition DisabledNormalizeExponentialHistogramDataPoint :: "exp_point \<Rightarrow> bool \<times> exp_point" where
  "DisabledNormalizeExponentialHistogramDataPoint point =
     (True, if \<not> ts_before (xp_start point) (xp_time point)
            then point\<lparr>xp_start := xp_time point - millisecond\<rparr> else point)"

subsection \<open>What the four operations share\<close>

text \<open>The start of a point is unknown when it is zero or not before the point's time.\<close>

definition unknown_interval :: "u64 \<Rightarrow> u64 \<Rightarrow> bool" where
  "unknown_interval start time \<longleftrightarrow> start = 0 \<or> \<not> ts_before start time"

text \<open>The instants from which a millisecond can be taken without leaving the signed range.\<close>

definition ms_representable :: "u64 \<Rightarrow> bool" where
  "ms_representable t \<longleftrightarrow> - (2 ^ 63) + 1000000 \<le> sint t"

text \<open>
  The shape of a normalizing operation over a kind of point, given that kind's map in the caches
  (\<open>point_map\<close>), accessors, comparison, subtraction, zero point and test for a changed layout.
\<close>

locale normalized_series = point_map fetch store slot copy blank
  for fetch :: "cache \<Rightarrow> u64 \<Rightarrow> 'p option \<times> cache"
    and store :: "cache \<Rightarrow> u64 \<Rightarrow> 'p \<Rightarrow> cache"
    and slot :: "cache \<Rightarrow> u64 \<Rightarrow> 'p used_point option"
    and copy :: "'p \<Rightarrow> 'p \<Rightarrow> 'p"
    and blank :: 'p +
  fixes step :: "normalizer \<Rightarrow> 'p \<Rightarrow> u64 \<Rightarrow> (go_panic, bool \<times> 'p \<times> normalizer) res"
    and start_of :: "'p \<Rightarrow> u64"
    and time_of :: "'p \<Rightarrow> u64"
    and set_start :: "'p \<Rightarrow> u64 \<Rightarrow> 'p"
    and less :: "'p \<Rightarrow> 'p \<Rightarrow> bool"
    and minus :: "'p \<Rightarrow> 'p \<Rightarrow> (go_panic, 'p) res"
    and zero :: "'p \<Rightarrow> 'p"
    and reshaped :: "'p \<Rightarrow> 'p \<Rightarrow> bool"
  assumes step_new: "fst (fetch (nz_start n) i) = None \<Longrightarrow> step n p i =
      (let n1 = n\<lparr>nz_start := snd (fetch (nz_start n) i)\<rparr> in
       if unknown_interval (start_of p) (time_of p)
       then Inr (False, p, \<lparr>nz_start = store (nz_start n1) i p, nz_previous = store (nz_previous n1) i p\<rparr>)
       else Inr (True, p, n1))"
    and step_known: "fst (fetch (nz_start n) i) = Some s \<Longrightarrow> step n p i =
      (let n1 = n\<lparr>nz_start := snd (fetch (nz_start n) i)\<rparr> in
       if reshaped p s
       then Inr (False, p, \<lparr>nz_start = store (nz_start n1) i p, nz_previous = store (nz_previous n1) i p\<rparr>)
       else
         let n2 = n1\<lparr>nz_previous := snd (fetch (nz_previous n) i)\<rparr>;
             v = (case fst (fetch (nz_previous n) i) of None \<Rightarrow> s | Some v \<Rightarrow> v) in
         if \<not> ts_before (start_of p) (time_of p) \<or> start_of p = 0 \<and> less p v
         then let q = set_start p (time_of p - millisecond) in
           Inr (True, q, \<lparr>nz_start = store (nz_start n2) i (zero q), nz_previous = store (nz_previous n2) i q\<rparr>)
         else if \<not> ts_before (time_of s) (time_of p) then Inr (False, p, n2)
         else res_bind (minus p s) (\<lambda>q. Inr (True, q, n2\<lparr>nz_previous := store (nz_previous n2) i q\<rparr>)))"
    and start_set: "start_of (set_start p t) = t"
    and time_set: "time_of (set_start p t) = time_of p"
    and minus_interval: "minus p s = Inr q \<Longrightarrow> start_of q = time_of s \<and> time_of q = time_of p"
begin

lemma step_outcomes:
  assumes "step n p i = Inr (keep, q, n')"
  obtains
    (pass) "fst (fetch (nz_start n) i) = None" "\<not> unknown_interval (start_of p) (time_of p)"
      "keep" "q = p" "fst (fetch (nz_start n') i) = None"
  | (recorded) "\<not> keep" "q = p"
      "fst (fetch (nz_start n') i) = Some (copy p (case fst (fetch (nz_start n) i) of Some d \<Rightarrow> d | None \<Rightarrow> blank))"
      "fst (fetch (nz_previous n') i) = Some (copy p (case fst (fetch (nz_previous n) i) of Some d \<Rightarrow> d | None \<Rightarrow> blank))"
      "case fst (fetch (nz_start n) i) of None \<Rightarrow> unknown_interval (start_of p) (time_of p) | Some s \<Rightarrow> reshaped p s"
  | (reset) s where "fst (fetch (nz_start n) i) = Some s" "\<not> reshaped p s"
      "\<not> ts_before (start_of p) (time_of p) \<or> start_of p = 0 \<and>
         less p (case fst (fetch (nz_previous n) i) of None \<Rightarrow> s | Some v \<Rightarrow> v)"
      "keep" "q = set_start p (time_of p - millisecond)"
      "fst (fetch (nz_start n') i) = Some (copy (zero q) s)"
      "fst (fetch (nz_previous n') i) = Some (copy q (case fst (fetch (nz_previous n) i) of Some d \<Rightarrow> d | None \<Rightarrow> blank))"
  | (old) s where "fst (fetch (nz_start n) i) = Some s" "\<not> keep" "q = p" "\<not> ts_before (time_of s) (time_of p)"
      "fst (fetch (nz_start n') i) = Some s" "fst (fetch (nz_previous n') i) = fst (fetch (nz_previous n) i)"
  | (difference) s where "fst (fetch (nz_start n) i) = Some s" "\<not> reshaped p s" "ts_before (start_of p) (time_of p)"
      "start_of p = 0 \<Longrightarrow> \<not> less p (case fst (fetch (nz_previous n) i) of None \<Rightarrow> s | Some v \<Rightarrow> v)"
      "ts_before (time_of s) (time_of p)" "keep" "minus p s = Inr q"
      "fst (fetch (nz_start n') i) = Some s"
      "fst (fetch (nz_previous n') i) = Some (copy q (case fst (fetch (nz_previous n) i) of Some d \<Rightarrow> d | None \<Rightarrow> blank))"
proof (cases "fst (fetch (nz_start n) i)")
  case None
  then show thesis
    using assms pass recorded
    by (auto simp: step_new Let_def fetch_store fetch_fetch split: if_splits)
next
  case (Some s)
  show thesis
  proof (cases "reshaped p s")
    case True
    with Some assms show thesis
      by (intro recorded) (auto simp: step_known Let_def fetch_store fetch_fetch)
  next
    case False
    with Some assms reset old difference show thesis
      by (auto simp: step_known Let_def fetch_store fetch_fetch res_bind_Inr_iff split: if_splits)
  qed
qed

text \<open>An emitted point covers an interval that is not empty.\<close>

lemma emitted_valid:
  assumes "step n p i = Inr (True, q, n')" "ms_representable (time_of p)"
  shows "ts_before (start_of q) (time_of q)"
  using assms(1)
proof (cases rule: step_outcomes)
  case pass
  then show ?thesis by (simp add: unknown_interval_def)
next
  case (reset s)
  then show ?thesis using assms(2) by (simp add: start_set time_set ts_before_minus_ms ms_representable_def)
next
  case (difference s)
  then show ?thesis using minus_interval by metis
qed simp_all

text \<open>The time of a point is never changed.\<close>

lemma time_kept:
  assumes "step n p i = Inr (keep, q, n')"
  shows "time_of q = time_of p"
  using assms by (cases rule: step_outcomes) (auto simp: time_set dest: minus_interval)

text \<open>A step leaves the other series alone.\<close>

lemma other_series:
  assumes "step n p i = Inr (keep, q, n')" "j \<noteq> i"
  shows "slot (nz_start n') j = slot (nz_start n) j" "slot (nz_previous n') j = slot (nz_previous n) j"
proof -
  have "slot (nz_start n') j = slot (nz_start n) j \<and> slot (nz_previous n') j = slot (nz_previous n) j"
  proof (cases "fst (fetch (nz_start n) i)")
    case None
    with assms show ?thesis
      by (auto simp: step_new Let_def store_slot fetch_slot split: if_splits)
  next
    case (Some s)
    with assms show ?thesis
      by (auto simp: step_known Let_def store_slot fetch_slot res_bind_Inr_iff split: if_splits)
  qed
  then show "slot (nz_start n') j = slot (nz_start n) j" "slot (nz_previous n') j = slot (nz_previous n) j"
    by simp_all
qed

text \<open>A series with a start point also has a previous point: the fall-back is not taken.\<close>

lemma previous_present:
  assumes "step n p i = Inr (keep, q, n')"
    and "fst (fetch (nz_start n) i) \<noteq> None \<longrightarrow> fst (fetch (nz_previous n) i) \<noteq> None"
  shows "fst (fetch (nz_start n') i) \<noteq> None \<longrightarrow> fst (fetch (nz_previous n') i) \<noteq> None"
  using assms(1) by (cases rule: step_outcomes) (use assms(2) in auto)

lemma first_point:
  assumes "fst (fetch (nz_start n) i) = None" "unknown_interval (start_of p) (time_of p)"
  shows "\<exists>n'. step n p i = Inr (False, p, n') \<and> fst (fetch (nz_start n') i) = Some (copy p blank) \<and>
    fst (fetch (nz_previous n') i) =
      Some (copy p (case fst (fetch (nz_previous n) i) of Some d \<Rightarrow> d | None \<Rightarrow> blank))"
  using assms by (auto simp: step_new Let_def fetch_store fetch_fetch)

lemma known_interval:
  assumes "fst (fetch (nz_start n) i) = None" "\<not> unknown_interval (start_of p) (time_of p)"
  shows "\<exists>n'. step n p i = Inr (True, p, n') \<and> fst (fetch (nz_start n') i) = None"
  using assms by (auto simp: step_new Let_def fetch_fetch)

lemma difference_step:
  assumes "fst (fetch (nz_start n) i) = Some s" "\<not> reshaped p s" "ts_before (start_of p) (time_of p)"
    and "start_of p = 0 \<Longrightarrow> \<not> less p (case fst (fetch (nz_previous n) i) of None \<Rightarrow> s | Some v \<Rightarrow> v)"
    and "ts_before (time_of s) (time_of p)" "minus p s = Inr q"
  shows "\<exists>n'. step n p i = Inr (True, q, n') \<and> fst (fetch (nz_start n') i) = Some s \<and>
    fst (fetch (nz_previous n') i) =
      Some (copy q (case fst (fetch (nz_previous n) i) of Some d \<Rightarrow> d | None \<Rightarrow> blank))"
  using assms by (auto simp: step_known Let_def fetch_store fetch_fetch)

lemma reset_step:
  assumes "fst (fetch (nz_start n) i) = Some s" "\<not> reshaped p s"
    and "\<not> ts_before (start_of p) (time_of p) \<or> start_of p = 0 \<and>
         less p (case fst (fetch (nz_previous n) i) of None \<Rightarrow> s | Some v \<Rightarrow> v)"
  shows "\<exists>n'. step n p i = Inr (True, set_start p (time_of p - millisecond), n') \<and>
    fst (fetch (nz_start n') i) = Some (copy (zero (set_start p (time_of p - millisecond))) s) \<and>
    fst (fetch (nz_previous n') i) = Some (copy (set_start p (time_of p - millisecond))
      (case fst (fetch (nz_previous n) i) of Some d \<Rightarrow> d | None \<Rightarrow> blank))"
  using assms by (auto simp: step_known Let_def fetch_store fetch_fetch)

end

subsection \<open>The operations have that shape\<close>

interpretation number_series: normalized_series getNumberDataPoint setNumberDataPoint number_cache
    minimalNumberCopyTo new_number_point "\<lambda>n p i. Inr (NormalizeNumberDataPoint n p i)"
    np_start np_time "\<lambda>p t. p\<lparr>np_start := t\<rparr>" lessThanNumberDataPoint
    "\<lambda>a b. Inr (subtractNumberDataPoint a b)" "\<lambda>q. new_number_point\<lparr>np_time := np_start q\<rparr>"
    "\<lambda>p s. False"
proof unfold_locales
  show "np_start q = np_time s \<and> np_time q = np_time p"
    if "Inr (subtractNumberDataPoint p s) = Inr q" for p s q
    using that by (auto simp: subtractNumberDataPoint_def Let_def split: number_value.splits)
qed (auto simp: NormalizeNumberDataPoint_def Let_def unknown_interval_def case_prod_beta)

interpretation summary_series: normalized_series getSummaryDataPoint setSummaryDataPoint summary_cache
    minimalSummaryCopyTo new_summary_point "\<lambda>n p i. Inr (NormalizeSummaryDataPoint n p i)"
    sp_start sp_time "\<lambda>p t. p\<lparr>sp_start := t\<rparr>" lessThanSummaryDataPoint
    "\<lambda>a b. Inr (subtractSummaryDataPoint a b)" "\<lambda>q. new_summary_point\<lparr>sp_time := sp_start q\<rparr>"
    "\<lambda>p s. False"
  by unfold_locales
    (auto simp: NormalizeSummaryDataPoint_def Let_def unknown_interval_def case_prod_beta
      subtractSummaryDataPoint_def)

interpretation histogram_series: normalized_series getHistogramDataPoint setHistogramDataPoint
    histogram_cache minimalHistogramCopyTo new_histogram_point NormalizeHistogramDataPoint
    hp_start hp_time "\<lambda>p t. p\<lparr>hp_start := t\<rparr>" lessThanHistogramDataPoint
    subtractHistogramDataPoint
    "\<lambda>q. new_histogram_point\<lparr>hp_time := hp_start q, hp_bounds := hp_bounds q,
           hp_buckets := replicate (length (hp_buckets q)) 0\<rparr>"
    "\<lambda>p s. \<not> bucketBoundariesEqual (hp_bounds p) (hp_bounds s)"
  by unfold_locales
    (auto simp: NormalizeHistogramDataPoint_def Let_def unknown_interval_def case_prod_beta
      subtractHistogramDataPoint_def res_bind_Inr_iff)

interpretation exp_series: normalized_series getExponentialHistogramDataPoint
    setExponentialHistogramDataPoint exp_cache minimalExpCopyTo new_exp_point
    "\<lambda>n p i. Inr (NormalizeExponentialHistogramDataPoint n p i)"
    xp_start xp_time "\<lambda>p t. p\<lparr>xp_start := t\<rparr>" lessThanExponentialHistogramDataPoint
    "\<lambda>a b. Inr (subtractExponentialHistogramDataPoint a b)"
    "\<lambda>q. new_exp_point\<lparr>xp_time := xp_start q, xp_scale := xp_scale q\<rparr>"
    "\<lambda>p s. xp_scale p \<noteq> xp_scale s"
  by unfold_locales
    (auto simp: NormalizeExponentialHistogramDataPoint_def Let_def unknown_interval_def case_prod_beta
      subtractExponentialHistogramDataPoint_def)

subsection \<open>The contract of a normalizer\<close>

text \<open>Points reach a normalizer one after the other, each with the identifier of its series.\<close>

primrec normalize_batch :: "('s \<Rightarrow> 'p \<Rightarrow> u64 \<Rightarrow> (go_panic, bool \<times> 'p \<times> 's) res) \<Rightarrow>
    's \<Rightarrow> (u64 \<times> 'p) list \<Rightarrow> (go_panic, 'p list \<times> 's) res" where
  "normalize_batch f n [] = Inr ([], n)"
| "normalize_batch f n (ip # ips) = res_bind (f n (snd ip) (fst ip)) (\<lambda>(keep, q, n').
     res_bind (normalize_batch f n' ips) (\<lambda>(qs, n''). Inr (if keep then q # qs else qs, n'')))"

lemma normalize_batch_Cons:
  "f n p i = Inr (keep, q, n1) \<Longrightarrow> normalize_batch f n1 ips = Inr (qs, n2) \<Longrightarrow>
   normalize_batch f n ((i, p) # ips) = Inr (if keep then q # qs else qs, n2)"
  by simp

lemma normalize_batch_ConsD:
  assumes "normalize_batch f n (ip # ips) = Inr (qs, n2)"
  obtains keep q n1 qs1 where "f n (snd ip) (fst ip) = Inr (keep, q, n1)"
    "normalize_batch f n1 ips = Inr (qs1, n2)" "qs = (if keep then q # qs1 else qs1)"
  using assms by (auto simp: res_bind_Inr_iff)

text \<open>
  What the metric mapper relies on, whichever normalizer is configured: a kept point covers a
  non-empty interval, and only its start and its values may change, never its time.
\<close>

locale interval_normalizer =
  fixes normalize :: "'s \<Rightarrow> 'p \<Rightarrow> u64 \<Rightarrow> (go_panic, bool \<times> 'p \<times> 's) res"
    and start_of :: "'p \<Rightarrow> u64"
    and time_of :: "'p \<Rightarrow> u64"
  assumes valid: "normalize n p i = Inr (True, q, n') \<Longrightarrow> ms_representable (time_of p) \<Longrightarrow>
      ts_before (start_of q) (time_of q)"
    and time: "normalize n p i = Inr (keep, q, n') \<Longrightarrow> time_of q = time_of p"
begin

lemma batch_valid:
  assumes "normalize_batch normalize n ips = Inr (qs, n')" "\<forall>ip \<in> set ips. ms_representable (time_of (snd ip))"
  shows "\<forall>q \<in> set qs. ts_before (start_of q) (time_of q)"
  using assms
proof (induction ips arbitrary: n qs)
  case (Cons ip ips)
  from Cons.prems(1) show ?case
  proof (rule normalize_batch_ConsD)
    fix keep q n1 qs1
    assume *: "normalize n (snd ip) (fst ip) = Inr (keep, q, n1)"
      "normalize_batch normalize n1 ips = Inr (qs1, n')" "qs = (if keep then q # qs1 else qs1)"
    have "\<forall>q \<in> set qs1. ts_before (start_of q) (time_of q)"
      using Cons.IH [OF *(2)] Cons.prems(2) by simp
    with * Cons.prems(2) show ?case by (cases keep) (auto dest: valid)
  qed
qed simp

lemma batch_times:
  "normalize_batch normalize n ips = Inr (qs, n') \<Longrightarrow>
   subseq (map time_of qs) (map (\<lambda>ip. time_of (snd ip)) ips)"
proof (induction ips arbitrary: n qs)
  case (Cons ip ips)
  from Cons.prems show ?case
  proof (rule normalize_batch_ConsD)
    fix keep q n1 qs1
    assume *: "normalize n (snd ip) (fst ip) = Inr (keep, q, n1)"
      "normalize_batch normalize n1 ips = Inr (qs1, n')" "qs = (if keep then q # qs1 else qs1)"
    show ?case using Cons.IH [OF *(2)] time [OF *(1)] *(3) by auto
  qed
qed simp

end

interpretation standard_number: interval_normalizer
    "\<lambda>n p i. Inr (NormalizeNumberDataPoint n p i)" np_start np_time
  using number_series.emitted_valid number_series.time_kept by unfold_locales blast+

interpretation standard_summary: interval_normalizer
    "\<lambda>n p i. Inr (NormalizeSummaryDataPoint n p i)" sp_start sp_time
  using summary_series.emitted_valid summary_series.time_kept by unfold_locales blast+

interpretation standard_histogram: interval_normalizer NormalizeHistogramDataPoint hp_start hp_time
  using histogram_series.emitted_valid histogram_series.time_kept by unfold_locales blast+

interpretation standard_exp: interval_normalizer
    "\<lambda>n p i. Inr (NormalizeExponentialHistogramDataPoint n p i)" xp_start xp_time
  using exp_series.emitted_valid exp_series.time_kept by unfold_locales blast+

text \<open>The disabled normalizer has no state.\<close>

definition stateless :: "('p \<Rightarrow> bool \<times> 'p) \<Rightarrow> 's \<Rightarrow> 'p \<Rightarrow> u64 \<Rightarrow> (go_panic, bool \<times> 'p \<times> 's) res" where
  "stateless f n p i = Inr (fst (f p), snd (f p), n)"

lemmas disabled_operations = stateless_def DisabledNormalizeNumberDataPoint_def
  DisabledNormalizeSummaryDataPoint_def DisabledNormalizeHistogramDataPoint_def
  DisabledNormalizeExponentialHistogramDataPoint_def ms_representable_def

interpretation disabled_number: interval_normalizer
    "stateless DisabledNormalizeNumberDataPoint" np_start np_time
  by unfold_locales (auto simp: disabled_operations ts_before_minus_ms)

interpretation disabled_summary: interval_normalizer
    "stateless DisabledNormalizeSummaryDataPoint" sp_start sp_time
  by unfold_locales (auto simp: disabled_operations ts_before_minus_ms)

interpretation disabled_histogram: interval_normalizer
    "stateless DisabledNormalizeHistogramDataPoint" hp_start hp_time
  by unfold_locales (auto simp: disabled_operations ts_before_minus_ms)

interpretation disabled_exp: interval_normalizer
    "stateless DisabledNormalizeExponentialHistogramDataPoint" xp_start xp_time
  by unfold_locales (auto simp: disabled_operations ts_before_minus_ms)

subsection \<open>Integer series\<close>

text \<open>The points of an integer counter that reports no start time.\<close>

definition counter_point :: "number_point \<Rightarrow> bool" where
  "counter_point p \<longleftrightarrow> np_start p = 0 \<and> ts_before 0 (np_time p) \<and>
     (case np_value p of NInt _ \<Rightarrow> True | _ \<Rightarrow> False)"

definition since :: "number_point \<Rightarrow> number_point \<Rightarrow> number_point" where
  "since p0 p = p\<lparr>np_start := np_time p0, np_value := NInt (np_int p - np_int p0)\<rparr>"

lemma np_int_NInt: "np_value p = NInt v \<Longrightarrow> np_int p = v"
  by (simp add: np_int_def)

lemma subtract_counter: "counter_point p \<Longrightarrow> subtractNumberDataPoint p s = since s p"
  by (cases p) (auto simp: counter_point_def subtractNumberDataPoint_def since_def Let_def np_int_def
      split: number_value.splits)

lemma less_counter: "counter_point p \<Longrightarrow> lessThanNumberDataPoint p v \<longleftrightarrow> sint (np_int p) < sint (np_int v)"
  by (auto simp: counter_point_def lessThanNumberDataPoint_def word_sless_alt split: number_value.splits)

lemma copy_counter_int:
  "np_value p = NInt v \<Longrightarrow> np_int (minimalNumberCopyTo p d) = v"
  "np_value p = NInt v \<Longrightarrow> np_value (minimalNumberCopyTo p d) = NInt v"
  "np_time (minimalNumberCopyTo p d) = np_time p"
  by (auto simp: minimalNumberCopyTo_def np_int_def Let_def split: number_value.splits)

lemma sint_diff_nonneg:
  fixes v w :: i64
  assumes "0 \<le> sint w" "sint w \<le> sint v"
  shows "sint (v - w) = sint v - sint w"
  using assms sint_less [of v] by (simp add: sint_word_ariths signed_take_bit_int_eq_self)

lemma known_counter_batch:
  assumes "fst (getNumberDataPoint (nz_start n) i) = Some s" "0 \<le> sint (np_int s)"
    and "fst (getNumberDataPoint (nz_previous n) i) = Some v"
    and "\<forall>p \<in> set ps. counter_point p \<and> ts_before (np_time s) (np_time p) \<and>
          sint (np_int s) \<le> sint (np_int p) \<and> sint (np_int v) \<le> sint (np_int p)"
    and "sorted (map (\<lambda>p. sint (np_int p)) ps)"
  shows "\<exists>n'. normalize_batch (\<lambda>n p i. Inr (NormalizeNumberDataPoint n p i)) n (map (Pair i) ps) =
    Inr (map (since s) ps, n')"
  using assms
proof (induction ps arbitrary: n v)
  case (Cons p ps)
  have p: "counter_point p" "ts_before (np_time s) (np_time p)" "sint (np_int s) \<le> sint (np_int p)"
    "sint (np_int v) \<le> sint (np_int p)" using Cons.prems by auto
  obtain n1 where n1: "Inr (NormalizeNumberDataPoint n p i) = (Inr (True, since s p, n1) :: (go_panic, _) res)"
    "fst (getNumberDataPoint (nz_start n1) i) = Some s"
    "fst (getNumberDataPoint (nz_previous n1) i) = Some (minimalNumberCopyTo (since s p) v)"
    using number_series.difference_step [OF Cons.prems(1), of p "since s p"] p Cons.prems(3)
    by (auto simp: less_counter subtract_counter counter_point_def)
  have "np_int (minimalNumberCopyTo (since s p) v) = np_int p - np_int s"
    by (rule copy_counter_int) (simp add: since_def)
  then have w: "sint (np_int (minimalNumberCopyTo (since s p) v)) \<le> sint (np_int p)"
    using p Cons.prems(2) by (simp add: sint_diff_nonneg)
  have "\<exists>n'. normalize_batch (\<lambda>n p i. Inr (NormalizeNumberDataPoint n p i)) n1 (map (Pair i) ps) =
      Inr (map (since s) ps, n')"
    using Cons.prems(2,4,5) n1(2,3) w by (intro Cons.IH) (auto intro: order_trans)
  then show ?case using n1(1) by auto
qed simp

text \<open>C4. The points of an integer counter without a start time: the first one is dropped, every
later one of a non-decreasing series is emitted with the first one's time as its start and the
increase since the first one as its value, in order.\<close>

theorem counter_series_differences:
  assumes "fst (getNumberDataPoint (nz_start n) i) = None"
    and "fst (getNumberDataPoint (nz_previous n) i) = None"
    and "\<forall>p \<in> set (p0 # ps). counter_point p"
    and "\<forall>p \<in> set ps. ts_before (np_time p0) (np_time p)"
    and "0 \<le> sint (np_int p0)" and "sorted (map (\<lambda>p. sint (np_int p)) (p0 # ps))"
  shows "\<exists>n'. normalize_batch (\<lambda>n p i. Inr (NormalizeNumberDataPoint n p i)) n (map (Pair i) (p0 # ps)) =
    Inr (map (since p0) ps, n')"
proof -
  let ?s = "minimalNumberCopyTo p0 new_number_point"
  from assms(3) obtain v where v: "np_value p0 = NInt v"
    by (auto simp: counter_point_def split: number_value.splits)
  note s = copy_counter_int(1) [OF v] copy_counter_int(3)
  have p0: "np_int p0 = v" using v by (rule np_int_NInt)
  have since: "since ?s = since p0" by (intro ext) (simp add: since_def s p0)
  from number_series.first_point [OF assms(1), of p0] assms(2,3)
  obtain n1 where n1: "Inr (NormalizeNumberDataPoint n p0 i) = (Inr (False, p0, n1) :: (go_panic, _) res)"
    "fst (getNumberDataPoint (nz_start n1) i) = Some ?s"
    "fst (getNumberDataPoint (nz_previous n1) i) = Some ?s"
    by (auto simp: unknown_interval_def counter_point_def)
  obtain n2 where "normalize_batch (\<lambda>n p i. Inr (NormalizeNumberDataPoint n p i)) n1 (map (Pair i) ps) =
      Inr (map (since ?s) ps, n2)"
    using known_counter_batch [OF n1(2) _ n1(3), of ps] assms(3-6) by (auto simp: s p0)
  with n1(1) since show ?thesis by (auto simp: normalize_batch_Cons)
qed

definition counter_example_point :: "u64 \<Rightarrow> i64 \<Rightarrow> number_point" where
  "counter_example_point t v = new_number_point\<lparr>np_time := t, np_value := NInt v\<rparr>"

lemma counter_series_differences_witness:
  "\<exists>n'. normalize_batch (\<lambda>n p i. Inr (NormalizeNumberDataPoint n p i)) NewStandardNormalizer
      (map (Pair 7) [counter_example_point 1000 10, counter_example_point 2000 15, counter_example_point 3000 15]) =
    Inr (map (since (counter_example_point 1000 10))
           [counter_example_point 2000 15, counter_example_point 3000 15], n')"
  by (rule counter_series_differences; code_simp)

text \<open>C5. Whatever a series has been through, the points the standard normalizer keeps of a batch cover
intervals that are not empty (the start before the time), and their times are among the batch's
times in the batch's order, for each of the four kinds of point.\<close>

theorem kept_points_have_valid_intervals:
  assumes "\<forall>p \<in> set nps. ms_representable (np_time (snd p))" "\<forall>p \<in> set sps. ms_representable (sp_time (snd p))"
    and "\<forall>p \<in> set hps. ms_representable (hp_time (snd p))" "\<forall>p \<in> set xps. ms_representable (xp_time (snd p))"
    and "normalize_batch (\<lambda>n p i. Inr (NormalizeNumberDataPoint n p i)) n nps = Inr (nqs, n1)"
    and "normalize_batch (\<lambda>n p i. Inr (NormalizeSummaryDataPoint n p i)) n sps = Inr (sqs, n2)"
    and "normalize_batch NormalizeHistogramDataPoint n hps = Inr (hqs, n3)"
    and "normalize_batch (\<lambda>n p i. Inr (NormalizeExponentialHistogramDataPoint n p i)) n xps = Inr (xqs, n4)"
  shows "(\<forall>q \<in> set nqs. ts_before (np_start q) (np_time q)) \<and>
    (\<forall>q \<in> set sqs. ts_before (sp_start q) (sp_time q)) \<and>
    (\<forall>q \<in> set hqs. ts_before (hp_start q) (hp_time q)) \<and>
    (\<forall>q \<in> set xqs. ts_before (xp_start q) (xp_time q)) \<and>
    subseq (map np_time nqs) (map (\<lambda>p. np_time (snd p)) nps) \<and>
    subseq (map sp_time sqs) (map (\<lambda>p. sp_time (snd p)) sps) \<and>
    subseq (map hp_time hqs) (map (\<lambda>p. hp_time (snd p)) hps) \<and>
    subseq (map xp_time xqs) (map (\<lambda>p. xp_time (snd p)) xps)"
  by (intro conjI standard_number.batch_valid [OF assms(5,1)] standard_summary.batch_valid [OF assms(6,2)]
      standard_histogram.batch_valid [OF assms(7,3)] standard_exp.batch_valid [OF assms(8,4)]
      standard_number.batch_times [OF assms(5)] standard_summary.batch_times [OF assms(6)]
      standard_histogram.batch_times [OF assms(7)] standard_exp.batch_times [OF assms(8)])


lemma result_of: "\<not> isl r \<Longrightarrow> r = Inr (fst (projr r), snd (projr r))"
  by (cases r) auto

definition example_batch :: "(u64 \<Rightarrow> 'p) \<Rightarrow> (u64 \<times> 'p) list" where
  "example_batch p = [(1, p 5000000), (1, p 7000000), (2, p 6000000), (1, p 6500000), (1, p 9000000)]"

definition example_numbers :: "(go_panic, number_point list \<times> normalizer) res" where
  "example_numbers = normalize_batch (\<lambda>n p i. Inr (NormalizeNumberDataPoint n p i)) NewStandardNormalizer
     (example_batch (\<lambda>t. counter_example_point t t))"

definition example_summaries :: "(go_panic, summary_point list \<times> normalizer) res" where
  "example_summaries = normalize_batch (\<lambda>n p i. Inr (NormalizeSummaryDataPoint n p i)) NewStandardNormalizer
     (example_batch (\<lambda>t. new_summary_point\<lparr>sp_time := t\<rparr>))"

definition example_histograms :: "(go_panic, histogram_point list \<times> normalizer) res" where
  "example_histograms = normalize_batch NormalizeHistogramDataPoint NewStandardNormalizer
     (example_batch (\<lambda>t. new_histogram_point\<lparr>hp_time := t, hp_buckets := [t]\<rparr>))"

definition example_exps :: "(go_panic, exp_point list \<times> normalizer) res" where
  "example_exps = normalize_batch (\<lambda>n p i. Inr (NormalizeExponentialHistogramDataPoint n p i))
     NewStandardNormalizer (example_batch (\<lambda>t. new_exp_point\<lparr>xp_time := t\<rparr>))"

lemma kept_points_have_valid_intervals_witness:
  "length (fst (projr example_numbers)) = 3 \<and>
   list_all (\<lambda>q. ts_before (np_start q) (np_time q)) (fst (projr example_numbers)) \<and>
   list_all (\<lambda>q. ts_before (hp_start q) (hp_time q)) (fst (projr example_histograms))"
proof -
  have "\<not> isl example_numbers" "\<not> isl example_summaries" "\<not> isl example_histograms" "\<not> isl example_exps"
    by code_simp+
  note runs = this [THEN result_of, unfolded example_numbers_def example_summaries_def
      example_histograms_def example_exps_def]
  have len: "length (fst (projr example_numbers)) = 3" by code_simp
  have t: "\<forall>p \<in> set (example_batch (\<lambda>t. counter_example_point t t)). ms_representable (np_time (snd p))"
    "\<forall>p \<in> set (example_batch (\<lambda>t. new_summary_point\<lparr>sp_time := t\<rparr>)). ms_representable (sp_time (snd p))"
    "\<forall>p \<in> set (example_batch (\<lambda>t. new_histogram_point\<lparr>hp_time := t, hp_buckets := [t]\<rparr>)). ms_representable (hp_time (snd p))"
    "\<forall>p \<in> set (example_batch (\<lambda>t. new_exp_point\<lparr>xp_time := t\<rparr>)). ms_representable (xp_time (snd p))"
    by code_simp+
  show ?thesis
    using len kept_points_have_valid_intervals [OF t runs]
    by (simp only: example_numbers_def example_histograms_def list_all_iff) blast
qed

subsection \<open>Resets\<close>

lemma minimalSummaryCopyTo_fields [simp]:
  "sp_time (minimalSummaryCopyTo p d) = sp_time p"
  "sp_count (minimalSummaryCopyTo p d) = sp_count p"
  "sp_sum (minimalSummaryCopyTo p d) = sp_sum p"
  by (simp_all add: minimalSummaryCopyTo_def)

lemma minimalNumberCopyTo_Empty:
  "minimalNumberCopyTo (new_number_point\<lparr>np_time := t\<rparr>) d = d\<lparr>np_time := t\<rparr>"
  by (simp add: minimalNumberCopyTo_def new_number_point_def)

text \<open>A summary series that resets starts again from zero: the point that shows the reset is
emitted unchanged with a start one millisecond before it, and the next point is emitted with that
same start and with its own count and sum.\<close>

theorem summary_reset_starts_from_zero:
  assumes "fst (getSummaryDataPoint (nz_start n) i) = Some s"
    and "fst (getSummaryDataPoint (nz_previous n) i) = Some v"
    and "sp_start p1 = 0" "ts_before 0 (sp_time p1)" "lessThanSummaryDataPoint p1 v"
    and "sp_start p2 = 0" "ts_before 0 (sp_time p2)" "\<not> lessThanSummaryDataPoint p2 p1"
    and "ts_before (sp_time p1 - millisecond) (sp_time p2)" "f_wf (sp_sum p2)"
  shows "\<exists>n'. normalize_batch (\<lambda>n p i. Inr (NormalizeSummaryDataPoint n p i)) n [(i, p1), (i, p2)] =
    Inr ([p1\<lparr>sp_start := sp_time p1 - millisecond\<rparr>, p2\<lparr>sp_start := sp_time p1 - millisecond\<rparr>], n')"
proof -
  let ?q = "p1\<lparr>sp_start := sp_time p1 - millisecond\<rparr>"
  let ?z = "minimalSummaryCopyTo (new_summary_point\<lparr>sp_time := sp_time p1 - millisecond\<rparr>) s"
  obtain n1 where n1: "Inr (NormalizeSummaryDataPoint n p1 i) = (Inr (True, ?q, n1) :: (go_panic, _) res)"
    "fst (getSummaryDataPoint (nz_start n1) i) = Some ?z"
    "fst (getSummaryDataPoint (nz_previous n1) i) = Some (minimalSummaryCopyTo ?q v)"
    using summary_series.reset_step [OF assms(1), of p1] assms(2-5) by auto
  have nl: "\<not> lessThanSummaryDataPoint p2 (minimalSummaryCopyTo ?q v)"
    using assms(8) by (simp add: lessThanSummaryDataPoint_def)
  have sub: "subtractSummaryDataPoint p2 ?z = p2\<lparr>sp_start := sp_time p1 - millisecond\<rparr>"
    using assms(10) by (simp add: subtractSummaryDataPoint_def new_summary_point_def f_sub_zero)
  obtain n2 where n2: "Inr (NormalizeSummaryDataPoint n1 p2 i) =
      (Inr (True, p2\<lparr>sp_start := sp_time p1 - millisecond\<rparr>, n2) :: (go_panic, _) res)"
    using summary_series.difference_step [OF n1(2), of p2 "subtractSummaryDataPoint p2 ?z"] assms(6-9) nl n1(3) sub
    by auto
  show ?thesis using n1(1) n2 by auto
qed

definition summary_example_point :: "u64 \<Rightarrow> u64 \<Rightarrow> summary_point" where
  "summary_example_point t c = new_summary_point\<lparr>sp_time := t, sp_count := c, sp_sum := f_of_int (uint c)\<rparr>"

definition summary_example_state :: normalizer where
  "summary_example_state = snd (snd (NormalizeSummaryDataPoint NewStandardNormalizer
     (summary_example_point 5000000 10) 3))"

lemma summary_reset_starts_from_zero_witness:
  "\<exists>n'. normalize_batch (\<lambda>n p i. Inr (NormalizeSummaryDataPoint n p i)) summary_example_state
      [(3, summary_example_point 8000000 4), (3, summary_example_point 9000000 6)] =
    Inr ([(summary_example_point 8000000 4)\<lparr>sp_start := sp_time (summary_example_point 8000000 4) - millisecond\<rparr>,
          (summary_example_point 9000000 6)\<lparr>sp_start := sp_time (summary_example_point 8000000 4) - millisecond\<rparr>], n')"
  by (rule summary_reset_starts_from_zero
      [where s = "minimalSummaryCopyTo (summary_example_point 5000000 10) new_summary_point"
         and v = "minimalSummaryCopyTo (summary_example_point 5000000 10) new_summary_point"]; code_simp)

text \<open>A counter series that resets does not start again from zero: the cached start point keeps
the value of the series' first point, because the zero point stored over it has no value to copy, and
the first point after the reset is emitted with that stale value subtracted.\<close>

theorem counter_reset_keeps_stale_start_value:
  assumes "fst (getNumberDataPoint (nz_start n) i) = Some s"
    and "fst (getNumberDataPoint (nz_previous n) i) = Some v"
    and "counter_point p1" "sint (np_int p1) < sint (np_int v)"
    and "counter_point p2" "sint (np_int p1) \<le> sint (np_int p2)"
    and "ts_before (np_time p1 - millisecond) (np_time p2)"
  shows "\<exists>n'. normalize_batch (\<lambda>n p i. Inr (NormalizeNumberDataPoint n p i)) n [(i, p1), (i, p2)] =
    Inr ([p1\<lparr>np_start := np_time p1 - millisecond\<rparr>,
          p2\<lparr>np_start := np_time p1 - millisecond, np_value := NInt (np_int p2 - np_int s)\<rparr>], n')"
proof -
  let ?q = "p1\<lparr>np_start := np_time p1 - millisecond\<rparr>"
  let ?z = "s\<lparr>np_time := np_time p1 - millisecond\<rparr>"
  obtain n1 where n1: "Inr (NormalizeNumberDataPoint n p1 i) = (Inr (True, ?q, n1) :: (go_panic, _) res)"
    "fst (getNumberDataPoint (nz_start n1) i) = Some ?z"
    "fst (getNumberDataPoint (nz_previous n1) i) = Some (minimalNumberCopyTo ?q v)"
    using number_series.reset_step [OF assms(1), of p1] assms(2-4)
    by (auto simp: minimalNumberCopyTo_Empty less_counter counter_point_def)
  from assms(3) obtain w where w: "np_value p1 = NInt w"
    by (auto simp: counter_point_def split: number_value.splits)
  then have "np_int (minimalNumberCopyTo ?q v) = np_int p1"
    by (simp add: copy_counter_int(1) [of ?q w] np_int_NInt)
  then have nl: "\<not> lessThanNumberDataPoint p2 (minimalNumberCopyTo ?q v)"
    using assms(5,6) by (simp add: less_counter)
  obtain n2 where n2: "Inr (NormalizeNumberDataPoint n1 p2 i) = (Inr (True, since ?z p2, n2) :: (go_panic, _) res)"
    using number_series.difference_step [OF n1(2), of p2 "since ?z p2"] assms(5,7) nl n1(3)
    by (auto simp: subtract_counter counter_point_def)
  have "since ?z p2 = p2\<lparr>np_start := np_time p1 - millisecond, np_value := NInt (np_int p2 - np_int s)\<rparr>"
    by (simp add: since_def np_int_def)
  with n1(1) n2 show ?thesis by auto
qed

definition counter_example_state :: "number_point list \<Rightarrow> normalizer" where
  "counter_example_state ps = snd (projr (normalize_batch (\<lambda>n p i. Inr (NormalizeNumberDataPoint n p i))
     NewStandardNormalizer (map (Pair 3) ps)))"

lemma counter_reset_keeps_stale_start_value_witness:
  "\<exists>n'. normalize_batch (\<lambda>n p i. Inr (NormalizeNumberDataPoint n p i))
      (counter_example_state [counter_example_point 5000000 10])
      [(3, counter_example_point 8000000 4), (3, counter_example_point 9000000 6)] =
    Inr ([(counter_example_point 8000000 4)\<lparr>np_start := np_time (counter_example_point 8000000 4) - millisecond\<rparr>,
          (counter_example_point 9000000 6)\<lparr>np_start := np_time (counter_example_point 8000000 4) - millisecond,
            np_value := NInt (np_int (counter_example_point 9000000 6) - np_int (counter_example_point 5000000 10))\<rparr>], n')"
  by (rule counter_reset_keeps_stale_start_value
      [where v = "counter_example_point 5000000 10"]; code_simp)

text \<open>A counter that falls below its start value without falling below its last emitted increase
is not seen as a reset: the point is emitted with a negative value and the old start, because the
raw value is compared with the last normalized one.\<close>

theorem counter_reset_can_go_unnoticed:
  assumes "fst (getNumberDataPoint (nz_start n) i) = Some s"
    and "fst (getNumberDataPoint (nz_previous n) i) = Some v"
    and "counter_point p" "ts_before (np_time s) (np_time p)"
    and "0 \<le> sint (np_int p)" "sint (np_int v) \<le> sint (np_int p)" "sint (np_int p) < sint (np_int s)"
  shows "\<exists>q n'. NormalizeNumberDataPoint n p i = (True, q, n') \<and> np_start q = np_time s \<and>
    np_value q = NInt (np_int p - np_int s) \<and> sint (np_int p - np_int s) < 0"
proof -
  have "sint (np_int p - np_int s) = sint (np_int p) - sint (np_int s)"
    using assms(5,7) sint_less [of "np_int s"] sint_less [of "np_int p"]
    by (simp add: sint_word_ariths signed_take_bit_int_eq_self)
  moreover have "\<exists>n'. Inr (NormalizeNumberDataPoint n p i) = (Inr (True, since s p, n') :: (go_panic, _) res)"
    using number_series.difference_step [OF assms(1), of p "since s p"] assms(2-6)
    by (auto simp: subtract_counter less_counter counter_point_def)
  ultimately show ?thesis using assms(7) by (auto simp: since_def)
qed

lemma counter_reset_can_go_unnoticed_witness:
  "\<exists>q n'. NormalizeNumberDataPoint (counter_example_state [counter_example_point 5000000 10,
        counter_example_point 6000000 15]) (counter_example_point 7000000 7) 3 = (True, q, n') \<and>
    np_start q = np_time (counter_example_point 5000000 10) \<and>
    np_value q = NInt (np_int (counter_example_point 7000000 7) - np_int (counter_example_point 5000000 10)) \<and>
    sint (np_int (counter_example_point 7000000 7) - np_int (counter_example_point 5000000 10)) < 0"
  by (rule counter_reset_can_go_unnoticed
      [where v = "counter_example_point 6000000 5 \<lparr>np_start := 0\<rparr>"]; code_simp)

subsection \<open>Bucket counts\<close>

lemma bucketBoundariesEqual_length: "bucketBoundariesEqual as bs \<Longrightarrow> length as = length bs"
  by (induction as bs rule: bucketBoundariesEqual.induct) auto

lemma subtract_buckets_eq:
  "subtract_buckets as bs = (if length as \<le> length bs then Inr (map2 (-) as bs) else Inl IndexOutOfRange)"
  by (induction as bs rule: subtract_buckets.induct) auto

definition hist_shaped :: "histogram_point \<Rightarrow> bool" where
  "hist_shaped p \<longleftrightarrow> length (hp_buckets p) = Suc (length (hp_bounds p))"

definition hist_shaped_cache :: "cache \<Rightarrow> bool" where
  "hist_shaped_cache c \<longleftrightarrow> (\<forall>i u. histogram_cache c i = Some u \<longrightarrow> hist_shaped (up_point u))"

lemma hist_shaped_copy: "hist_shaped (minimalHistogramCopyTo p d) = hist_shaped p"
  by (simp add: hist_shaped_def minimalHistogramCopyTo_def)

lemma hist_shaped_store: "hist_shaped_cache c \<Longrightarrow> hist_shaped p \<Longrightarrow> hist_shaped_cache (setHistogramDataPoint c i p)"
  unfolding hist_shaped_cache_def
  by (auto simp: histogram_map.store_slot hist_shaped_copy split: if_splits)

lemma hist_shaped_fetch: "hist_shaped_cache c \<Longrightarrow> hist_shaped_cache (snd (getHistogramDataPoint c i))"
  unfolding hist_shaped_cache_def by (auto simp: histogram_map.fetch_slot split: if_splits)

lemma hist_shaped_fetched:
  "hist_shaped_cache c \<Longrightarrow> fst (getHistogramDataPoint c i) = Some p \<Longrightarrow> hist_shaped p"
  unfolding hist_shaped_cache_def by (auto simp: histogram_map.fetch_value)

lemma histogram_step_shaped:
  assumes "hist_shaped_cache (nz_start n)" "hist_shaped p"
  shows "case NormalizeHistogramDataPoint n p i of Inl _ \<Rightarrow> False | Inr (keep, q, n') \<Rightarrow> hist_shaped_cache (nz_start n')"
proof (cases "fst (getHistogramDataPoint (nz_start n) i)")
  case None
  with assms show ?thesis
    by (auto simp: histogram_series.step_new Let_def intro: hist_shaped_store hist_shaped_fetch)
next
  case (Some s)
  have s: "hist_shaped s" using hist_shaped_fetched [OF assms(1) Some] .
  let ?q = "p\<lparr>hp_start := hp_time p - millisecond\<rparr>"
  have z: "hist_shaped (new_histogram_point\<lparr>hp_time := hp_start ?q, hp_bounds := hp_bounds ?q,
      hp_buckets := replicate (length (hp_buckets ?q)) 0\<rparr>)"
    using assms(2) by (simp add: hist_shaped_def)
  have sub: "\<exists>q. subtractHistogramDataPoint p s = Inr q" if "bucketBoundariesEqual (hp_bounds p) (hp_bounds s)"
    using assms(2) s bucketBoundariesEqual_length [OF that]
    by (simp add: subtractHistogramDataPoint_def subtract_buckets_eq hist_shaped_def)
  note c = hist_shaped_fetch [OF assms(1), of i]
  note c1 = hist_shaped_store [OF c assms(2), of i] and c2 = hist_shaped_store [OF c z, of i]
  show ?thesis
    using sub c c1 c2 by (auto simp: histogram_series.step_known [OF Some] Let_def)
qed

lemma histogram_batch_shaped:
  "hist_shaped_cache (nz_start n) \<Longrightarrow> \<forall>ip \<in> set ips. hist_shaped (snd ip) \<Longrightarrow>
   \<exists>qs n'. normalize_batch NormalizeHistogramDataPoint n ips = Inr (qs, n') \<and> hist_shaped_cache (nz_start n')"
proof (induction ips arbitrary: n)
  case (Cons ip ips)
  obtain keep q n1 where 1: "NormalizeHistogramDataPoint n (snd ip) (fst ip) = Inr (keep, q, n1)"
    "hist_shaped_cache (nz_start n1)" 
    using histogram_step_shaped [of n "snd ip" "fst ip"] Cons.prems by (auto split: sum.splits)
  then show ?case using Cons.IH [OF 1(2)] Cons.prems by auto
qed simp

text \<open>From an empty cache, no sequence of histogram points that have one bucket more than
bounds, of whatever series, layouts and times, makes the normalizer index past a bucket list.\<close>

theorem histogram_normalizer_never_panics:
  assumes "\<forall>ip \<in> set ips. hist_shaped (snd ip)"
  shows "\<exists>qs n'. normalize_batch NormalizeHistogramDataPoint NewStandardNormalizer ips = Inr (qs, n')"
proof -
  have "hist_shaped_cache (nz_start NewStandardNormalizer)"
    by (simp add: hist_shaped_cache_def NewStandardNormalizer_def newCache_def)
  then show ?thesis using histogram_batch_shaped [OF _ assms] by blast
qed

definition histogram_example_point :: "u64 \<Rightarrow> u64 list \<Rightarrow> histogram_point" where
  "histogram_example_point t bs = new_histogram_point\<lparr>hp_time := t, hp_count := sum_list bs, hp_buckets := bs,
     hp_sum := Some f_zero, hp_bounds := List.map (\<lambda>k. f_of_int (int k)) [1..<length bs]\<rparr>"

lemma histogram_normalizer_never_panics_witness:
  "\<exists>qs n'. normalize_batch NormalizeHistogramDataPoint NewStandardNormalizer
     [(1, histogram_example_point 5000000 [1, 2]), (1, histogram_example_point 6000000 [1, 2, 3]),
      (2, histogram_example_point 5000000 [4]), (1, histogram_example_point 7000000 [5, 2, 3])] = Inr (qs, n')"
  by (rule histogram_normalizer_never_panics) code_simp

text \<open>A histogram point that is neither a reset nor a change of bounds is emitted as the
difference to the start point: the count, the sum and every bucket are subtracted, the interval
starts at the start point's time; it panics exactly when the start point has fewer buckets.\<close>

theorem histogram_difference:
  assumes "fst (getHistogramDataPoint (nz_start n) i) = Some s"
    and "fst (getHistogramDataPoint (nz_previous n) i) = Some v"
    and "bucketBoundariesEqual (hp_bounds p) (hp_bounds s)"
    and "ts_before (hp_start p) (hp_time p)" "ts_before (hp_time s) (hp_time p)"
    and "hp_start p = 0 \<longrightarrow> \<not> lessThanHistogramDataPoint p v"
  shows "if length (hp_buckets s) < length (hp_buckets p)
    then NormalizeHistogramDataPoint n p i = Inl IndexOutOfRange
    else \<exists>n'. NormalizeHistogramDataPoint n p i =
      Inr (True, p\<lparr>hp_start := hp_time s, hp_count := hp_count p - hp_count s,
        hp_sum := Some (f_sub (hp_sum_value p) (hp_sum_value s)),
        hp_buckets := map2 (-) (hp_buckets p) (hp_buckets s)\<rparr>, n')"
  using assms by (auto simp: histogram_series.step_known [OF assms(1)] Let_def
      subtractHistogramDataPoint_def subtract_buckets_eq)

lemma histogram_difference_witness:
  "if length (hp_buckets (histogram_example_point 5000000 [1, 2])) < length (hp_buckets (histogram_example_point 7000000 [3, 4]))
    then NormalizeHistogramDataPoint (snd (projr (normalize_batch NormalizeHistogramDataPoint NewStandardNormalizer
        [(1, histogram_example_point 5000000 [1, 2])]))) (histogram_example_point 7000000 [3, 4]) 1 = Inl IndexOutOfRange
    else \<exists>n'. NormalizeHistogramDataPoint (snd (projr (normalize_batch NormalizeHistogramDataPoint NewStandardNormalizer
        [(1, histogram_example_point 5000000 [1, 2])]))) (histogram_example_point 7000000 [3, 4]) 1 =
      Inr (True, (histogram_example_point 7000000 [3, 4])\<lparr>hp_start := hp_time (histogram_example_point 5000000 [1, 2]),
        hp_count := hp_count (histogram_example_point 7000000 [3, 4]) - hp_count (histogram_example_point 5000000 [1, 2]),
        hp_sum := Some (f_sub (hp_sum_value (histogram_example_point 7000000 [3, 4]))
          (hp_sum_value (histogram_example_point 5000000 [1, 2]))),
        hp_buckets := map2 (-) (hp_buckets (histogram_example_point 7000000 [3, 4]))
          (hp_buckets (histogram_example_point 5000000 [1, 2]))\<rparr>, n')"
  by (rule histogram_difference [where v = "minimalHistogramCopyTo (histogram_example_point 5000000 [1, 2]) new_histogram_point"])
    code_simp+

text \<open>The count of the bucket at an absolute index; zero outside the stored range.\<close>

definition bucket_at :: "exp_buckets \<Rightarrow> int \<Rightarrow> u64" where
  "bucket_at b k = (if sint (eb_offset b) \<le> k \<and> k < sint (eb_offset b) + int (length (eb_counts b))
     then eb_counts b ! nat (k - sint (eb_offset b)) else 0)"

text \<open>The buckets of an exponential histogram are subtracted by absolute index: each stored
bucket of the point loses what the start point counts in the bucket of the same index, zero if
it stores none, and the result has the layout of the point, provided the offsets are less than 2^31 apart.\<close>

theorem exponential_buckets_subtract_by_index:
  assumes "\<bar>sint (eb_offset a) - sint (eb_offset b)\<bar> < 2 ^ 31"
  shows "length (subtractExponentialBuckets a b) = length (eb_counts a) \<and>
    (\<forall>j < length (eb_counts a). subtractExponentialBuckets a b ! j =
       bucket_at a (sint (eb_offset a) + int j) - bucket_at b (sint (eb_offset a) + int j))"
proof -
  have d: "sint (eb_offset a - eb_offset b) = sint (eb_offset a) - sint (eb_offset b)"
    using assms by (simp add: sint_word_ariths signed_take_bit_int_eq_self)
  show ?thesis
    by (auto simp: subtractExponentialBuckets_def d Let_def bucket_at_def algebra_simps)
qed

definition example_buckets :: "i32 \<Rightarrow> u64 list \<Rightarrow> exp_buckets" where
  "example_buckets off cs = \<lparr>eb_offset = off, eb_counts = cs\<rparr>"

lemma exponential_buckets_subtract_by_index_witness:
  "subtractExponentialBuckets (example_buckets 2 [5, 6, 7]) (example_buckets 3 [1, 2, 3]) ! 1 =
     bucket_at (example_buckets 2 [5, 6, 7]) (sint (eb_offset (example_buckets 2 [5, 6, 7])) + int 1) -
     bucket_at (example_buckets 3 [1, 2, 3]) (sint (eb_offset (example_buckets 2 [5, 6, 7])) + int 1)"
proof -
  have "\<bar>sint (eb_offset (example_buckets 2 [5, 6, 7])) - sint (eb_offset (example_buckets 3 [1, 2, 3]))\<bar> < 2 ^ 31"
    by code_simp
  note * = exponential_buckets_subtract_by_index [OF this]
  show ?thesis by (rule * [THEN conjunct2, rule_format]) (simp add: example_buckets_def)
qed

end
