(* ===== verification/ResourceMapping.thy ===== *)
theory ResourceMapping
  imports PointCache
begin

text \<open>
  Monitored resources: the mapping from resource attributes to a Cloud resource type and its labels
  (internal/resourcemapping/resourcemapping.go), the adapter the collector exporter gives it and the
  resource filters (exporter/collector/monitoredresource.go), and the mapping to
  \<open>prometheus_target\<close> (exporter/collector/googlemanagedprometheus/monitoredresource.go). The
  semantic convention keys are written out as the tests and fixtures of the repository spell them.
  A regular expression is the predicate of the strings it matches.
\<close>

subsection \<open>Attributes as the mapping reads them\<close>

type_synonym attrs = "string \<Rightarrow> string option"

definition GetString :: "attrs \<Rightarrow> string \<Rightarrow> string \<times> bool" where
  "GetString a k = (case a k of Some v \<Rightarrow> (v, True) | None \<Rightarrow> ([], False))"

definition has_attr :: "attrs \<Rightarrow> string \<Rightarrow> bool" where
  "has_attr a k = snd (GetString a k)"

text \<open>The adapter over a \<open>pcommon.Map\<close>: \<open>AsString\<close> of the value.\<close>

definition attributes_GetString :: "as_string \<Rightarrow> pmap \<Rightarrow> attrs" where
  "attributes_GetString str m k = map_option str (pmap_get m k)"

subsection \<open>The mapping table\<close>

record label_mapping =
  lm_fallback :: string
  lm_keys :: "string list"

definition from_keys :: "string list \<Rightarrow> label_mapping" where
  "from_keys ks = \<lparr>lm_fallback = [], lm_keys = ks\<rparr>"

definition zone_or_region :: "string list" where
  "zone_or_region = [''cloud.availability_zone'', ''cloud.region'']"

definition monitoredResourceMappings :: "(string \<times> (string \<times> label_mapping) list) list" where
  "monitoredResourceMappings = [
    (''gce_instance'', [
      (''zone'', from_keys [''cloud.availability_zone'']),
      (''instance_id'', from_keys [''host.id''])]),
    (''k8s_container'', [
      (''location'', from_keys zone_or_region),
      (''cluster_name'', from_keys [''k8s.cluster.name'']),
      (''namespace_name'', from_keys [''k8s.namespace.name'']),
      (''pod_name'', from_keys [''k8s.pod.name'']),
      (''container_name'', from_keys [''k8s.container.name''])]),
    (''k8s_pod'', [
      (''location'', from_keys zone_or_region),
      (''cluster_name'', from_keys [''k8s.cluster.name'']),
      (''namespace_name'', from_keys [''k8s.namespace.name'']),
      (''pod_name'', from_keys [''k8s.pod.name''])]),
    (''k8s_node'', [
      (''location'', from_keys zone_or_region),
      (''cluster_name'', from_keys [''k8s.cluster.name'']),
      (''node_name'', from_keys [''k8s.node.name''])]),
    (''k8s_cluster'', [
      (''location'', from_keys zone_or_region),
      (''cluster_name'', from_keys [''k8s.cluster.name''])]),
    (''gae_instance'', [
      (''location'', from_keys zone_or_region),
      (''module_id'', from_keys [''faas.name'']),
      (''version_id'', from_keys [''faas.version'']),
      (''instance_id'', from_keys [''faas.instance''])]),
    (''gae_app'', [
      (''location'', from_keys zone_or_region),
      (''module_id'', from_keys [''faas.name'']),
      (''version_id'', from_keys [''faas.version''])]),
    (''aws_ec2_instance'', [
      (''instance_id'', from_keys [''host.id'']),
      (''region'', from_keys zone_or_region),
      (''aws_account'', from_keys [''cloud.account.id''])]),
    (''baremetalsolution.googleapis.com/Instance'', [
      (''location'', from_keys [''cloud.region'']),
      (''instance_id'', from_keys [''host.id''])]),
    (''generic_task'', [
      (''location'', \<lparr>lm_fallback = ''global'', lm_keys = zone_or_region\<rparr>),
      (''namespace'', from_keys [''service.namespace'']),
      (''job'', from_keys [''service.name'', ''faas.name'']),
      (''task_id'', from_keys [''service.instance.id'', ''faas.instance''])]),
    (''generic_node'', [
      (''location'', \<lparr>lm_fallback = ''global'', lm_keys = zone_or_region\<rparr>),
      (''namespace'', from_keys [''service.namespace'']),
      (''node_id'', from_keys [''host.id'', ''host.name''])])]"

text \<open>Indexing a Go map with a missing key gives the empty map.\<close>

definition mapping_for :: "string \<Rightarrow> (string \<times> label_mapping) list" where
  "mapping_for t = (case map_of monitoredResourceMappings t of Some m \<Rightarrow> m | None \<Rightarrow> [])"

definition unknownServicePrefix :: string where
  "unknownServicePrefix = ''unknown_service''"

definition sanitizeUTF8 :: "string \<Rightarrow> string" where
  "sanitizeUTF8 s = to_valid_utf8 s replacement_char"

text \<open>The loop over the keys keeps what the last \<open>GetString\<close> returned when no key breaks it.\<close>

fun coalesce_keys :: "attrs \<Rightarrow> string list \<Rightarrow> string \<times> bool \<Rightarrow> string \<times> bool" where
  "coalesce_keys a [] r = r"
| "coalesce_keys a (k # ks) r =
     (let r = GetString a k in
      if fst r \<noteq> [] \<and> \<not> has_prefix (fst r) unknownServicePrefix then r else coalesce_keys a ks r)"

definition mapped_label :: "attrs \<Rightarrow> label_mapping \<Rightarrow> string" where
  "mapped_label a cfg =
     (let (v, found) = coalesce_keys a (lm_keys cfg) ([], False);
          (v, found) = (if v = [] \<and> ''service.name'' \<in> set (lm_keys cfg)
                        then GetString a ''service.name'' else (v, found));
          v = (if \<not> found \<or> v = [] then lm_fallback cfg else v)
      in sanitizeUTF8 v)"

definition createMonitoredResource :: "string \<Rightarrow> attrs \<Rightarrow> monitored_resource" where
  "createMonitoredResource t a = \<lparr>mr_type = t,
     mr_labels = map_of (List.map (\<lambda>(k, cfg). (k, mapped_label a cfg)) (mapping_for t))\<rparr>"

definition commonResourceAttributesToMonitoredResource :: "string \<Rightarrow> attrs \<Rightarrow> monitored_resource" where
  "commonResourceAttributesToMonitoredResource platform a =
     (if platform = ''gcp_compute_engine'' then createMonitoredResource ''gce_instance'' a
      else if platform = ''aws_ec2'' then createMonitoredResource ''aws_ec2_instance'' a
      else if platform = ''gcp_bare_metal_solution''
        then createMonitoredResource ''baremetalsolution.googleapis.com/Instance'' a
      else if has_attr a ''k8s.cluster.name'' then
        (if has_attr a ''k8s.container.name'' then createMonitoredResource ''k8s_container'' a
         else if has_attr a ''k8s.pod.name'' then createMonitoredResource ''k8s_pod'' a
         else if has_attr a ''k8s.node.name'' then createMonitoredResource ''k8s_node'' a
         else createMonitoredResource ''k8s_cluster'' a)
      else if has_attr a ''service.name'' \<and> has_attr a ''service.instance.id'' \<or>
              has_attr a ''faas.instance'' \<and> has_attr a ''faas.name''
        then createMonitoredResource ''generic_task'' a
      else createMonitoredResource ''generic_node'' a)"

definition ResourceAttributesToLoggingMonitoredResource :: "attrs \<Rightarrow> monitored_resource" where
  "ResourceAttributesToLoggingMonitoredResource a =
     (let platform = fst (GetString a ''cloud.platform'') in
      if platform = ''gcp_app_engine'' then createMonitoredResource ''gae_app'' a
      else commonResourceAttributesToMonitoredResource platform a)"

definition ResourceAttributesToMonitoringMonitoredResource :: "attrs \<Rightarrow> monitored_resource" where
  "ResourceAttributesToMonitoringMonitoredResource a =
     (let platform = fst (GetString a ''cloud.platform'') in
      if platform = ''gcp_app_engine'' then createMonitoredResource ''gae_instance'' a
      else commonResourceAttributesToMonitoredResource platform a)"

definition defaultResourceToMonitoringMonitoredResource :: "as_string \<Rightarrow> pmap \<Rightarrow> monitored_resource" where
  "defaultResourceToMonitoringMonitoredResource str resource =
     ResourceAttributesToMonitoringMonitoredResource (attributes_GetString str resource)"

definition defaultResourceToLoggingMonitoredResource :: "as_string \<Rightarrow> pmap \<Rightarrow> monitored_resource" where
  "defaultResourceToLoggingMonitoredResource str resource =
     ResourceAttributesToLoggingMonitoredResource (attributes_GetString str resource)"

subsection \<open>Resource filters\<close>

record resource_filter =
  rf_prefix :: string
  rf_regex :: string

record compiled_filter =
  cf_prefix :: string
  cf_matches :: "string \<Rightarrow> bool"

text \<open>\<open>regexp.MustCompile\<close> panics where \<open>compile\<close> gives an error.\<close>

fun compileResourceFilters :: "(string \<Rightarrow> (string, string \<Rightarrow> bool) res) \<Rightarrow> resource_filter list \<Rightarrow>
    (go_panic, compiled_filter list) res" where
  "compileResourceFilters compile [] = Inr []"
| "compileResourceFilters compile (f # fs) = (case compile (rf_regex f) of
     Inl e \<Rightarrow> Inl (RegexpPanic e)
   | Inr m \<Rightarrow> res_bind (compileResourceFilters compile fs) (\<lambda>cs. Inr (\<lparr>cf_prefix = rf_prefix f, cf_matches = m\<rparr> # cs)))"

lemma compileResourceFilters_ok:
  "(\<exists>cs. compileResourceFilters compile fs = Inr cs) \<longleftrightarrow> (\<forall>f \<in> set fs. \<not> isl (compile (rf_regex f)))"
  by (induction fs) (auto simp: res_bind_Inr_iff split: sum.splits)

definition is_service_key :: "string \<Rightarrow> bool" where
  "is_service_key k \<longleftrightarrow> k = ''service.name'' \<or> k = ''service.namespace'' \<or> k = ''service.instance.id''"

fun filterAttributes_loop ::
  "as_string \<Rightarrow> bool \<Rightarrow> compiled_filter list \<Rightarrow> pmap \<Rightarrow> pmap \<Rightarrow> pmap" where
  "filterAttributes_loop str svc fs [] acc = acc"
| "filterAttributes_loop str svc fs ((k, v) # kvs) acc =
     filterAttributes_loop str svc fs kvs
       (if svc \<and> is_service_key k then (if str v \<noteq> [] then pmap_put acc k v else acc)
        else if (\<exists>f \<in> set fs. cf_matches f k \<and> has_prefix k (cf_prefix f)) then pmap_put acc k v
        else acc)"

definition filterAttributes :: "as_string \<Rightarrow> pmap \<Rightarrow> bool \<Rightarrow> compiled_filter list \<Rightarrow> pmap" where
  "filterAttributes str m svc fs = filterAttributes_loop str svc fs m []"

subsection \<open>The Prometheus target resource\<close>

definition promTargetKeys :: "string \<Rightarrow> string list" where
  "promTargetKeys l =
     (if l = ''location'' then [''location'', ''cloud.availability_zone'', ''cloud.region'']
      else if l = ''cluster'' then [''cluster'', ''k8s.cluster.name'', ''k8s.cluster.uid'']
      else if l = ''namespace'' then [''namespace'', ''k8s.namespace.name'']
      else if l = ''job'' then [''job'', ''service.name'', ''faas.name'', ''k8s.deployment.name'',
        ''k8s.statefulset.name'', ''k8s.daemonset.name'', ''k8s.job.name'', ''k8s.cronjob.name'']
      else if l = ''service_namespace'' then [''service.namespace'']
      else if l = ''instance'' then [''instance'', ''service.instance.id'', ''faas.instance'',
        ''k8s.pod.name'', ''host.id'']
      else [])"

fun first_known_key :: "pmap \<Rightarrow> string list \<Rightarrow> (string \<times> string) option" where
  "first_known_key m [] = None"
| "first_known_key m (k # ks) = (case pmap_get m k of
     Some v \<Rightarrow> if \<not> has_prefix (val_str v) unknownServicePrefix then Some (k, val_str v)
              else first_known_key m ks
   | None \<Rightarrow> first_known_key m ks)"

definition getKeyAndStringOrDefault :: "pmap \<Rightarrow> string \<Rightarrow> string list \<Rightarrow> string \<times> string" where
  "getKeyAndStringOrDefault m orElse keys = (case first_known_key m keys of
     Some kv \<Rightarrow> kv
   | None \<Rightarrow>
       if ''service.name'' \<in> set keys then
         (case pmap_get m ''service.name'' of
            Some v \<Rightarrow> (''service.name'', val_str v) | None \<Rightarrow> ([], orElse))
       else ([], orElse))"

definition getStringOrDefault :: "pmap \<Rightarrow> string \<Rightarrow> string list \<Rightarrow> string" where
  "getStringOrDefault m orElse keys = snd (getKeyAndStringOrDefault m orElse keys)"

definition getStringOrEmpty :: "pmap \<Rightarrow> string list \<Rightarrow> string" where
  "getStringOrEmpty m keys = getStringOrDefault m [] keys"

text \<open>The keys argument of the source is not looked at.\<close>

definition getStringOrDefaultClusterName :: "pmap \<Rightarrow> string list \<Rightarrow> string" where
  "getStringOrDefaultClusterName m keys =
     (let platform = getStringOrEmpty m [''cloud.platform''];
          dflt = (if platform = ''gcp_compute_engine'' then ''__gce__''
                  else if platform = ''gcp_cloud_run'' then ''__run__'' else [])
      in getStringOrDefault m dflt (promTargetKeys ''cluster''))"

definition MapToPrometheusTarget :: "pmap \<Rightarrow> monitored_resource" where
  "MapToPrometheusTarget m =
     (let job = getStringOrEmpty m (promTargetKeys ''job'');
          svc_ns = getStringOrEmpty m (promTargetKeys ''service_namespace'');
          job = (if svc_ns \<noteq> [] then svc_ns @ ''/'' @ job else job);
          (instanceKey, inst) = getKeyAndStringOrDefault m [] (promTargetKeys ''instance'');
          inst = (if instanceKey = ''k8s.pod.name'' then
                    (case pmap_get m ''k8s.container.name'' of
                       Some v \<Rightarrow> inst @ ''/'' @ val_str v | None \<Rightarrow> inst)
                  else inst)
      in \<lparr>mr_type = ''prometheus_target'', mr_labels = map_of
            [(''location'', getStringOrEmpty m (promTargetKeys ''location'')),
             (''cluster'', getStringOrDefaultClusterName m (promTargetKeys ''cluster'')),
             (''namespace'', getStringOrEmpty m (promTargetKeys ''namespace'')),
             (''job'', job),
             (''instance'', inst)]\<rparr>)"

subsection \<open>Properties of the mapping\<close>

lemma sanitizeUTF8_valid: "valid_utf8 (sanitizeUTF8 s)"
  unfolding sanitizeUTF8_def by (rule to_valid_utf8_valid) code_simp

lemma mr_type_create [simp]: "mr_type (createMonitoredResource t a) = t"
  by (simp add: createMonitoredResource_def)

lemma dom_create: "dom (mr_labels (createMonitoredResource t a)) = fst ` set (mapping_for t)"
  by (simp add: createMonitoredResource_def dom_map_of_conv_image_fst image_image case_prod_beta)

lemma ran_create: "ran (mr_labels (createMonitoredResource t a)) \<subseteq> {v. valid_utf8 v}"
proof -
  have "ran (mr_labels (createMonitoredResource t a)) \<subseteq> mapped_label a ` UNIV"
    by (auto simp: createMonitoredResource_def ran_def dest!: map_of_SomeD)
  then show ?thesis by (auto simp: mapped_label_def Let_def sanitizeUTF8_valid split: prod.splits)
qed

lemma if_mem: "x \<in> S \<Longrightarrow> y \<in> S \<Longrightarrow> (if c then x else y) \<in> S"
  by simp

definition common_types :: "string list" where
  "common_types = [''gce_instance'', ''aws_ec2_instance'', ''baremetalsolution.googleapis.com/Instance'',
     ''k8s_container'', ''k8s_pod'', ''k8s_node'', ''k8s_cluster'', ''generic_task'', ''generic_node'']"

lemma common_types_in_table:
  assumes "t \<in> set (''gae_instance'' # ''gae_app'' # common_types)"
  shows "t \<in> set (List.map fst monitoredResourceMappings)"
proof -
  have "list_all (\<lambda>t. t \<in> set (List.map fst monitoredResourceMappings)) (''gae_instance'' # ''gae_app'' # common_types)"
    by code_simp
  from list_all_iff [THEN iffD1, OF this] assms show ?thesis by (rule bspec)
qed

lemma common_cases:
  "commonResourceAttributesToMonitoredResource p a \<in> (\<lambda>t. createMonitoredResource t a) ` set common_types"
  unfolding commonResourceAttributesToMonitoredResource_def common_types_def list.set
  by (intro if_mem imageI insertI1 insertI2)

lemma default_cases:
  obtains t t' where "ResourceAttributesToMonitoringMonitoredResource a = createMonitoredResource t a"
    "ResourceAttributesToLoggingMonitoredResource a = createMonitoredResource t' a"
    "t \<in> set (List.map fst monitoredResourceMappings)" "t' \<in> set (List.map fst monitoredResourceMappings)"
    "t = t' \<or> t = ''gae_instance'' \<and> t' = ''gae_app''"
proof (cases "fst (GetString a ''cloud.platform'') = ''gcp_app_engine''")
  case True
  then have "ResourceAttributesToMonitoringMonitoredResource a = createMonitoredResource ''gae_instance'' a"
    "ResourceAttributesToLoggingMonitoredResource a = createMonitoredResource ''gae_app'' a"
    by (simp_all only: ResourceAttributesToMonitoringMonitoredResource_def
        ResourceAttributesToLoggingMonitoredResource_def Let_def if_True simp_thms)
  then show thesis
    by (rule that) (intro common_types_in_table list.set_intros disjI2 conjI refl)+
next
  case False
  obtain t where t: "commonResourceAttributesToMonitoredResource (fst (GetString a ''cloud.platform'')) a =
      createMonitoredResource t a" "t \<in> set common_types"
    using common_cases by blast
  then have "t \<in> set (List.map fst monitoredResourceMappings)"
    by (intro common_types_in_table list.set_intros)
  with t(1) False show thesis
    by (intro that [of t t])
      (simp_all only: ResourceAttributesToMonitoringMonitoredResource_def
        ResourceAttributesToLoggingMonitoredResource_def Let_def if_False simp_thms)
qed

text \<open>C13. Whatever the attributes, the monitored resource of a metric and of a log entry is of one
of the types of the mapping table, has exactly the labels the table lists for its type, every
label is valid UTF-8, and the two agree except that App Engine is \<open>gae_instance\<close> for metrics and
\<open>gae_app\<close> for logs.\<close>

theorem monitored_resource_is_well_formed:
  "mr_type (ResourceAttributesToMonitoringMonitoredResource a) \<in> set (List.map fst monitoredResourceMappings) \<and>
   dom (mr_labels (ResourceAttributesToMonitoringMonitoredResource a)) =
     fst ` set (mapping_for (mr_type (ResourceAttributesToMonitoringMonitoredResource a))) \<and>
   ran (mr_labels (ResourceAttributesToMonitoringMonitoredResource a)) \<subseteq> {v. valid_utf8 v} \<and>
   mr_type (ResourceAttributesToLoggingMonitoredResource a) \<in> set (List.map fst monitoredResourceMappings) \<and>
   dom (mr_labels (ResourceAttributesToLoggingMonitoredResource a)) =
     fst ` set (mapping_for (mr_type (ResourceAttributesToLoggingMonitoredResource a))) \<and>
   ran (mr_labels (ResourceAttributesToLoggingMonitoredResource a)) \<subseteq> {v. valid_utf8 v} \<and>
   (ResourceAttributesToMonitoringMonitoredResource a = ResourceAttributesToLoggingMonitoredResource a \<or>
    mr_type (ResourceAttributesToMonitoringMonitoredResource a) = ''gae_instance'' \<and>
    mr_type (ResourceAttributesToLoggingMonitoredResource a) = ''gae_app'')"
proof -
  obtain t t' where t: "ResourceAttributesToMonitoringMonitoredResource a = createMonitoredResource t a"
    "ResourceAttributesToLoggingMonitoredResource a = createMonitoredResource t' a"
    "t \<in> set (List.map fst monitoredResourceMappings)" "t' \<in> set (List.map fst monitoredResourceMappings)"
    "t = t' \<or> t = ''gae_instance'' \<and> t' = ''gae_app''"
    by (rule default_cases)
  then show ?thesis using ran_create dom_create by (metis mr_type_create)
qed

text \<open>A value the coalescing loop accepts.\<close>

definition good_value :: "attrs \<Rightarrow> string \<Rightarrow> bool" where
  "good_value a k \<longleftrightarrow> (case a k of Some v \<Rightarrow> v \<noteq> [] \<and> \<not> has_prefix v unknownServicePrefix | None \<Rightarrow> False)"

lemma coalesce_find:
  "coalesce_keys a ks r = (case find (good_value a) ks of
     Some k \<Rightarrow> GetString a k
   | None \<Rightarrow> if ks = [] then r else GetString a (last ks))"
  by (induction a ks r rule: coalesce_keys.induct)
    (auto simp: Let_def good_value_def GetString_def split: option.splits if_splits)

text \<open>A label takes the value of the first of its keys that has a non-empty value not starting
with unknown_service; without one, a label fed by the service name takes that name, and any other
label its last key's value, or the fallback literal when that is empty or absent.\<close>

theorem resource_label_value:
  assumes "distinct (List.map fst (mapping_for t))" "(l, cfg) \<in> set (mapping_for t)" "lm_keys cfg \<noteq> []"
  shows "mr_labels (createMonitoredResource t a) l = Some (sanitizeUTF8 (
    case find (good_value a) (lm_keys cfg) of
      Some k \<Rightarrow> the (a k)
    | None \<Rightarrow>
        let v = fst (GetString a (last (lm_keys cfg)));
            v = (if v = [] \<and> ''service.name'' \<in> set (lm_keys cfg) then fst (GetString a ''service.name'') else v)
        in if v = [] then lm_fallback cfg else v))"
proof -
  have "mr_labels (createMonitoredResource t a) l = Some (mapped_label a cfg)"
    unfolding createMonitoredResource_def using assms(1,2)
    by (simp add: map_of_map map_of_eq_Some_iff)
  moreover have "good_value a k" if "find (good_value a) (lm_keys cfg) = Some k" for k
    using that by (auto simp: find_Some_iff)
  ultimately show ?thesis using assms(3)
    by (auto simp: mapped_label_def coalesce_find GetString_def good_value_def Let_def split: option.splits)
qed

lemma resource_label_value_witness:
  "mr_labels (createMonitoredResource ''generic_task''
      [''service.name'' \<mapsto> ''unknown_service:go'', ''faas.name'' \<mapsto> ''fn'']) ''job'' =
    Some (sanitizeUTF8 (
    case find (good_value [''service.name'' \<mapsto> ''unknown_service:go'', ''faas.name'' \<mapsto> ''fn''])
        (lm_keys (from_keys [''service.name'', ''faas.name''])) of
      Some k \<Rightarrow> the ([''service.name'' \<mapsto> ''unknown_service:go'', ''faas.name'' \<mapsto> ''fn''] k)
    | None \<Rightarrow>
        let v = fst (GetString [''service.name'' \<mapsto> ''unknown_service:go'', ''faas.name'' \<mapsto> ''fn'']
              (last (lm_keys (from_keys [''service.name'', ''faas.name'']))));
            v = (if v = [] \<and> ''service.name'' \<in> set (lm_keys (from_keys [''service.name'', ''faas.name'']))
              then fst (GetString [''service.name'' \<mapsto> ''unknown_service:go'', ''faas.name'' \<mapsto> ''fn''] ''service.name'') else v)
        in if v = [] then lm_fallback (from_keys [''service.name'', ''faas.name'']) else v))"
  by (rule resource_label_value)
    (simp_all add: mapping_for_def monitoredResourceMappings_def from_keys_def)

lemma good_presence: "has_attr a k \<longleftrightarrow> a k \<noteq> None"
  by (auto simp: has_attr_def GetString_def split: option.splits)

text \<open>Apart from the value of cloud.platform, the type of the monitored resource depends only on
which attributes are present: an empty cluster, pod or service name selects a type like any other.\<close>

theorem resource_type_depends_on_presence:
  assumes "dom a = dom b" "a ''cloud.platform'' = b ''cloud.platform''"
  shows "mr_type (ResourceAttributesToMonitoringMonitoredResource a) =
    mr_type (ResourceAttributesToMonitoringMonitoredResource b)"
proof -
  have "has_attr a k = has_attr b k" for k using assms(1) by (metis good_presence domIff)
  moreover have "GetString a ''cloud.platform'' = GetString b ''cloud.platform''"
    using assms(2) by (simp add: GetString_def)
  ultimately show ?thesis
    by (simp add: ResourceAttributesToMonitoringMonitoredResource_def Let_def
        commonResourceAttributesToMonitoredResource_def)
qed

lemma resource_type_depends_on_presence_witness:
  "mr_type (ResourceAttributesToMonitoringMonitoredResource [''k8s.cluster.name'' \<mapsto> []]) =
   mr_type (ResourceAttributesToMonitoringMonitoredResource [''k8s.cluster.name'' \<mapsto> ''prod''])"
  by (rule resource_type_depends_on_presence) simp_all

subsection \<open>Properties of the filters\<close>

definition attribute_selected :: "as_string \<Rightarrow> bool \<Rightarrow> compiled_filter list \<Rightarrow> string \<Rightarrow> pvalue \<Rightarrow> bool" where
  "attribute_selected str svc fs k v \<longleftrightarrow>
     (if svc \<and> is_service_key k then str v \<noteq> []
      else \<exists>f \<in> set fs. cf_matches f k \<and> has_prefix k (cf_prefix f))"

lemma filter_loop_get:
  "distinct (List.map fst m) \<Longrightarrow>
   pmap_get (filterAttributes_loop str svc fs m acc) k =
     (case pmap_get m k of
        Some v \<Rightarrow> if attribute_selected str svc fs k v then Some v else pmap_get acc k
      | None \<Rightarrow> pmap_get acc k)"
proof (induction m arbitrary: acc)
  case Nil
  then show ?case by (simp add: pmap_get_def)
next
  case (Cons kv kvs)
  obtain k' v where kv: "kv = (k', v)" by (cases kv)
  let ?acc = "if attribute_selected str svc fs k' v then pmap_put acc k' v else acc"
  have step: "filterAttributes_loop str svc fs (kv # kvs) acc = filterAttributes_loop str svc fs kvs ?acc"
    by (cases "svc \<and> is_service_key k'"; cases "str v = []") (auto simp: kv attribute_selected_def)
  have none: "pmap_get kvs k' = None"
    using Cons.prems by (simp add: kv pmap_get_def map_of_eq_None_iff)
  have get: "pmap_get (kv # kvs) k = (if k' = k then Some v else pmap_get kvs k)"
    by (simp add: kv pmap_get_def)
  have IH: "pmap_get (filterAttributes_loop str svc fs kvs ?acc) k =
     (case pmap_get kvs k of
        Some v \<Rightarrow> if attribute_selected str svc fs k v then Some v else pmap_get ?acc k
      | None \<Rightarrow> pmap_get ?acc k)"
    using Cons by simp
  show ?case
    unfolding step get IH using none by (cases "k' = k") (auto simp: pmap_get_put split: option.split)
qed

text \<open>The filtered attributes are those of the resource that are selected, with their values
unchanged: a service attribute by a non-empty value when service labels are on, any other attribute
by a filter whose expression and prefix both match; a service attribute is never selected by a filter.\<close>

theorem filtered_attributes_are_the_selected_ones:
  assumes "distinct (List.map fst m)"
  shows "pmap_get (filterAttributes str m svc fs) k =
    (case pmap_get m k of
       Some v \<Rightarrow> if attribute_selected str svc fs k v then Some v else None
     | None \<Rightarrow> None)"
  using filter_loop_get [OF assms, of str svc fs "[]" k]
  by (simp add: filterAttributes_def pmap_get_def split: option.splits)

definition example_filters :: "compiled_filter list" where
  "example_filters = [\<lparr>cf_prefix = ''k8s.'', cf_matches = (\<lambda>k. True)\<rparr>]"

lemma filtered_attributes_are_the_selected_ones_witness:
  "pmap_get (filterAttributes val_str [(''service.name'', VStr ''s''), (''k8s.pod'', VStr ''p''), (''os'', VStr ''x'')]
      True example_filters) ''k8s.pod'' =
    (case pmap_get [(''service.name'', VStr ''s''), (''k8s.pod'', VStr ''p''), (''os'', VStr ''x'')] ''k8s.pod'' of
       Some v \<Rightarrow> if attribute_selected val_str True example_filters ''k8s.pod'' v then Some v else None
     | None \<Rightarrow> None)"
  by (rule filtered_attributes_are_the_selected_ones) simp

end
