(* ===== verification/MetricMapper.thy ===== *)
theory MetricMapper
  imports Normalization ResourceMapping
begin

text \<open>
  The metric mapper (the \<open>metricMapper\<close> part of exporter/collector/metrics.go): from OTLP metrics to
  Cloud Monitoring time series and metric descriptors. The mapper's only state is its normalizer,
  which is passed along. Functions of the standard library that are not written out (\<open>FormatFloat\<close>,
  \<open>Exp2\<close>, \<open>Pow\<close>, \<open>url.Parse\<close>, the unstable \<open>sort.Slice\<close>, \<open>anypb.New\<close>) and the naming extension point
  of the configuration are fields of the environment and of the configuration.
\<close>

subsection \<open>Cloud Monitoring values\<close>

datatype metric_kind = KIND_UNSPECIFIED | GAUGE | CUMULATIVE

datatype value_type = TYPE_UNSPECIFIED | BOOL | INT64 | DOUBLE | DISTRIBUTION

datatype bucket_options = ExplicitBuckets "f64 list" | ExponentialBuckets i32 f64 f64

datatype attachment = SpanContext string | DroppedLabels labels

record dist_exemplar =
  de_value :: f64
  de_time :: pb_timestamp
  de_attachments :: "attachment list"

record distribution =
  di_count :: i64
  di_mean :: f64
  di_deviation :: f64
  di_buckets :: "i64 list"
  di_options :: bucket_options
  di_exemplars :: "dist_exemplar list"

datatype typed_value = BoolValue bool | Int64Value i64 | DoubleValue f64 | DistributionValue distribution

record ts_point =
  tp_start :: "pb_timestamp option"
  tp_end :: pb_timestamp
  tp_value :: typed_value

record time_series =
  ts_resource :: monitored_resource
  ts_unit :: string
  ts_description :: string
  ts_kind :: metric_kind
  ts_value_type :: value_type
  ts_points :: "ts_point list"
  ts_metric_type :: string
  ts_labels :: labels

record label_descriptor =
  ld_key :: string
  ld_description :: string

record metric_descriptor =
  md_name :: string
  md_type :: string
  md_labels :: "label_descriptor list"
  md_kind :: metric_kind
  md_value_type :: value_type
  md_unit :: string
  md_description :: string
  md_display_name :: string

subsection \<open>Environment and configuration\<close>

text \<open>\<open>me_sort_slice\<close> is \<open>sort.Slice\<close>, which is not stable: where the comparator leaves the order open, it is this argument's.\<close>

record mapper_env =
  me_unicode :: unicode_tables
  me_order :: map_order
  me_as_string :: as_string
  me_format_float :: "f64 \<Rightarrow> string"
  me_exp2 :: "f64 \<Rightarrow> f64"
  me_pow :: "f64 \<Rightarrow> f64 \<Rightarrow> f64"
  me_sort_slice :: "(dist_exemplar \<Rightarrow> dist_exemplar \<Rightarrow> bool) \<Rightarrow> dist_exemplar list \<Rightarrow> dist_exemplar list"
  me_any_ok :: "attachment \<Rightarrow> bool"
  me_url_path :: "string \<Rightarrow> string option"

text \<open>\<open>mc_get_metric_name\<close> is a function of the user, who may configure any; it is taken to return. That of Google Managed
Prometheus, which panics on some names, is modelled in \<open>Gmp\<close>.\<close>

record mapper_config =
  mc_prefix :: string
  mc_known_domains :: "string list"
  mc_get_metric_name :: "string \<Rightarrow> metric \<Rightarrow> (string, string) res"
  mc_library_labels :: bool
  mc_deviation :: bool

datatype any_normalizer = StandardNormalizer normalizer | DisabledNormalizer

fun normalize_number :: "any_normalizer \<Rightarrow> number_point \<Rightarrow> u64 \<Rightarrow> bool \<times> number_point \<times> any_normalizer" where
  "normalize_number (StandardNormalizer n) p i =
     (let (keep, q, n') = NormalizeNumberDataPoint n p i in (keep, q, StandardNormalizer n'))"
| "normalize_number DisabledNormalizer p i =
     (let (keep, q) = DisabledNormalizeNumberDataPoint p in (keep, q, DisabledNormalizer))"

fun normalize_summary :: "any_normalizer \<Rightarrow> summary_point \<Rightarrow> u64 \<Rightarrow> bool \<times> summary_point \<times> any_normalizer" where
  "normalize_summary (StandardNormalizer n) p i =
     (let (keep, q, n') = NormalizeSummaryDataPoint n p i in (keep, q, StandardNormalizer n'))"
| "normalize_summary DisabledNormalizer p i =
     (let (keep, q) = DisabledNormalizeSummaryDataPoint p in (keep, q, DisabledNormalizer))"

fun normalize_exp :: "any_normalizer \<Rightarrow> exp_point \<Rightarrow> u64 \<Rightarrow> bool \<times> exp_point \<times> any_normalizer" where
  "normalize_exp (StandardNormalizer n) p i =
     (let (keep, q, n') = NormalizeExponentialHistogramDataPoint n p i in (keep, q, StandardNormalizer n'))"
| "normalize_exp DisabledNormalizer p i =
     (let (keep, q) = DisabledNormalizeExponentialHistogramDataPoint p in (keep, q, DisabledNormalizer))"

fun normalize_histogram ::
  "any_normalizer \<Rightarrow> histogram_point \<Rightarrow> u64 \<Rightarrow> (go_panic, bool \<times> histogram_point \<times> any_normalizer) res" where
  "normalize_histogram (StandardNormalizer n) p i =
     res_bind (NormalizeHistogramDataPoint n p i) (\<lambda>(keep, q, n'). Inr (keep, q, StandardNormalizer n'))"
| "normalize_histogram DisabledNormalizer p i =
     (let (keep, q) = DisabledNormalizeHistogramDataPoint p in Inr (keep, q, DisabledNormalizer))"

subsection \<open>Labels\<close>

definition sanitizeRune :: "unicode_tables \<Rightarrow> nat \<Rightarrow> nat" where
  "sanitizeRune u r = (if is_letter u r \<or> is_digit u r then r else 95)"

text \<open>\<open>rune(s[0])\<close> is the first byte of the mapped string.\<close>

definition sanitizeKey :: "unicode_tables \<Rightarrow> string \<Rightarrow> string" where
  "sanitizeKey u s =
     (if s = [] then s
      else let t = str_map (sanitizeRune u) s in
        if is_digit u (byte (hd t)) then ''key_'' @ t else t)"

definition attributesToLabels :: "mapper_env \<Rightarrow> pmap \<Rightarrow> labels" where
  "attributesToLabels env attrs = put_all Map.empty
     (List.map (\<lambda>(k, v). (sanitizeKey (me_unicode env) k, sanitizeUTF8 (me_as_string env v))) attrs)"

definition mergeLabels :: "labels \<Rightarrow> labels list \<Rightarrow> labels" where
  "mergeLabels into others = foldl (++) into others"

definition instrumentationScopeToLabels :: "mapper_config \<Rightarrow> scope \<Rightarrow> labels" where
  "instrumentationScopeToLabels cfg sc =
     (if \<not> mc_library_labels cfg then Map.empty
      else
        let source = sanitizeUTF8 (scope_name sc); version = sanitizeUTF8 (scope_version sc);
            ls = (if source \<noteq> [] then [''instrumentation_source'' \<mapsto> source] else Map.empty)
        in if version \<noteq> [] then ls(''instrumentation_version'' \<mapsto> version) else ls)"

subsection \<open>Metric names\<close>

definition getMetricNamePrefix :: "mapper_config \<Rightarrow> string \<Rightarrow> string" where
  "getMetricNamePrefix cfg name =
     (if \<exists>d \<in> set (mc_known_domains cfg). str_contains name d then [] else mc_prefix cfg)"

definition metricNameToType :: "mapper_config \<Rightarrow> string \<Rightarrow> metric \<Rightarrow> (string, string) res" where
  "metricNameToType cfg name m =
     res_bind (mc_get_metric_name cfg name m) (\<lambda>metricName.
       Inr (path_join (getMetricNamePrefix cfg metricName) metricName))"

definition defaultGetMetricName :: "string \<Rightarrow> metric \<Rightarrow> (string, string) res" where
  "defaultGetMetricName baseName m = Inr baseName"

definition SummaryCountPrefix :: string where
  "SummaryCountPrefix = ''_count''"

definition SummarySumSuffix :: string where
  "SummarySumSuffix = ''_sum''"

definition summaryMetricTypes :: "mapper_config \<Rightarrow> metric \<Rightarrow> (string, string \<times> string \<times> string) res" where
  "summaryMetricTypes cfg m =
     res_bind (metricNameToType cfg (m_name m @ SummarySumSuffix) m) (\<lambda>sumType.
     res_bind (metricNameToType cfg (m_name m @ SummaryCountPrefix) m) (\<lambda>countType.
     res_bind (metricNameToType cfg (m_name m) m) (\<lambda>quantileType.
       Inr (sumType, countType, quantileType))))"

subsection \<open>Number values\<close>

definition specialIntToBoolUnit :: string where
  "specialIntToBoolUnit = ''{gcp.BOOL}''"

text \<open>\<open>None\<close> is the nil value with the unspecified type.\<close>

definition convertToBoolIfMetricKindSupported ::
  "number_point \<Rightarrow> metric_kind \<Rightarrow> string \<Rightarrow> (typed_value \<times> value_type) option" where
  "convertToBoolIfMetricKindSupported p kind unit =
     (if unit = specialIntToBoolUnit then
        (case np_value p of
           NInt i \<Rightarrow> if kind = GAUGE then Some (BoolValue (i \<noteq> 0), BOOL) else None
         | _ \<Rightarrow> None)
      else None)"

definition numberDataPointToValue :: "number_point \<Rightarrow> metric_kind \<Rightarrow> string \<Rightarrow> typed_value \<times> value_type" where
  "numberDataPointToValue p kind unit =
     (case convertToBoolIfMetricKindSupported p kind unit of
        Some r \<Rightarrow> r
      | None \<Rightarrow> (case np_value p of
          NInt i \<Rightarrow> (Int64Value i, INT64)
        | _ \<Rightarrow> (DoubleValue (np_double p), DOUBLE)))"

subsection \<open>Distributions\<close>

definition hex_digit :: "nat \<Rightarrow> char" where
  "hex_digit n = ''0123456789abcdef'' ! n"

text \<open>\<open>hex.EncodeToString\<close>.\<close>

definition hex_string :: "string \<Rightarrow> string" where
  "hex_string bs = concat (List.map (\<lambda>b. [hex_digit (byte b div 16), hex_digit (byte b mod 16)]) bs)"

text \<open>A trace or span id is empty when all its bytes are zero.\<close>

definition id_empty :: "string \<Rightarrow> bool" where
  "id_empty bs \<longleftrightarrow> (\<forall>b \<in> set bs. b = chr 0)"

definition exemplar_value :: "number_value \<Rightarrow> f64" where
  "exemplar_value v = (case v of NDouble d \<Rightarrow> d | NInt i \<Rightarrow> f_of_int (sint i) | NEmpty \<Rightarrow> f_zero)"

definition exemplar_to_distribution :: "mapper_env \<Rightarrow> string \<Rightarrow> exemplar \<Rightarrow> dist_exemplar" where
  "exemplar_to_distribution env projectID ex =
     (let sc = SpanContext (''projects/'' @ projectID @ ''/traces/'' @ hex_string (ex_trace_id ex) @
                 ''/spans/'' @ hex_string (ex_span_id ex));
          dl = DroppedLabels (attributesToLabels env (ex_filtered ex)) in
      \<lparr>de_value = exemplar_value (ex_value ex),
       de_time = timestamp_new (as_time (ex_time ex)),
       de_attachments =
         (if \<not> id_empty (ex_trace_id ex) \<and> \<not> id_empty (ex_span_id ex) \<and> me_any_ok env sc then [sc] else []) @
         (if ex_filtered ex \<noteq> [] \<and> me_any_ok env dl then [dl] else [])\<rparr>)"

text \<open>The comparator of \<open>exemplars\<close> and of the SDK exporter's \<open>toDistributionExemplar\<close>.\<close>

definition exemplar_less :: "dist_exemplar \<Rightarrow> dist_exemplar \<Rightarrow> bool" where
  "exemplar_less a b \<longleftrightarrow> f_lt (de_value a) (de_value b)"

definition exemplars_to_distribution :: "mapper_env \<Rightarrow> string \<Rightarrow> exemplar list \<Rightarrow> dist_exemplar list" where
  "exemplars_to_distribution env projectID exs =
     me_sort_slice env exemplar_less (List.map (exemplar_to_distribution env projectID) exs)"

text \<open>The mean guards the division; both histogram mappings compute it alike.\<close>

definition point_mean :: "f64 \<Rightarrow> u64 \<Rightarrow> f64" where
  "point_mean sm count =
     (if \<not> is_nan sm \<and> 0 < count then f_div sm (f_of_int (uint count)) else f_zero)"

text \<open>\<open>float64(counts[i]) * (middle - mean) * (middle - mean)\<close>.\<close>

definition deviation_term :: "f64 \<Rightarrow> f64 \<Rightarrow> i64 \<Rightarrow> f64" where
  "deviation_term mean middle c =
     f_mul (f_mul (f_of_int (sint c)) (f_sub middle mean)) (f_sub middle mean)"

fun deviation_loop :: "f64 \<Rightarrow> f64 list \<Rightarrow> i64 list \<Rightarrow> f64 \<Rightarrow> f64 \<Rightarrow> (go_panic, f64 \<times> f64) res" where
  "deviation_loop mean [] cs prev dev = Inr (prev, dev)"
| "deviation_loop mean (b # bs) [] prev dev = Inl IndexOutOfRange"
| "deviation_loop mean (b # bs) (c # cs) prev dev =
     deviation_loop mean bs cs b
       (f_add dev (deviation_term mean (f_div (f_add prev b) (f_of_int 2)) c))"

definition sum_of_squared_deviation :: "f64 \<Rightarrow> f64 list \<Rightarrow> i64 list \<Rightarrow> (go_panic, f64) res" where
  "sum_of_squared_deviation mean bounds counts =
     res_bind (deviation_loop mean bounds counts f_zero f_zero) (\<lambda>(prev, dev).
       if counts = [] then Inl IndexOutOfRange
       else Inr (f_add dev (deviation_term mean prev (last counts))))"

definition histogramPoint ::
  "mapper_env \<Rightarrow> mapper_config \<Rightarrow> histogram_point \<Rightarrow> string \<Rightarrow> (go_panic, typed_value) res" where
  "histogramPoint env cfg p projectID =
     (let mean = point_mean (hp_sum_value p) (hp_count p);
          dist = \<lparr>di_count = hp_count p, di_mean = mean, di_deviation = f_zero,
            di_buckets = hp_buckets p, di_options = ExplicitBuckets (hp_bounds p),
            di_exemplars = exemplars_to_distribution env projectID (hp_exemplars p)\<rparr> in
      if mc_deviation cfg then
        res_bind (sum_of_squared_deviation mean (hp_bounds p) (hp_buckets p)) (\<lambda>dev.
          Inr (DistributionValue (dist\<lparr>di_deviation := dev\<rparr>)))
      else Inr (DistributionValue dist))"

definition exponentialHistogramPoint :: "mapper_env \<Rightarrow> exp_point \<Rightarrow> string \<Rightarrow> typed_value" where
  "exponentialHistogramPoint env p projectID =
     (let underflow = foldl (+) (xp_zero_count p) (eb_counts (xp_negative p));
          positive = eb_counts (xp_positive p);
          growth = me_exp2 env (me_exp2 env (f_neg (f_of_int (sint (xp_scale p)))));
          scale = me_pow env growth (f_of_int (sint (eb_offset (xp_positive p))))
      in DistributionValue
        \<lparr>di_count = xp_count p, di_mean = point_mean (xp_sum_value p) (xp_count p),
         di_deviation = f_zero,
         di_buckets = underflow # positive @ [0],
         di_options = (if positive = [] then ExplicitBuckets [f_zero]
           else ExponentialBuckets (word_of_int (int (length positive))) growth scale),
         di_exemplars = exemplars_to_distribution env projectID (xp_exemplars p)\<rparr>)"

subsection \<open>Points to time series\<close>

definition series_id :: "mapper_env \<Rightarrow> monitored_resource \<Rightarrow> labels \<Rightarrow> metric \<Rightarrow> pmap \<Rightarrow> u64" where
  "series_id env res extra m attrs = seriesIdentifier (me_order env) (me_as_string env) res extra m attrs"

definition ts_time :: "u64 \<Rightarrow> pb_timestamp" where
  "ts_time t = timestamp_new (as_time t)"

definition single_series :: "monitored_resource \<Rightarrow> metric \<Rightarrow> metric_kind \<Rightarrow> value_type \<Rightarrow>
    pb_timestamp option \<Rightarrow> pb_timestamp \<Rightarrow> typed_value \<Rightarrow> string \<Rightarrow> labels \<Rightarrow> time_series" where
  "single_series res m kind vt start fin v t ls =
     \<lparr>ts_resource = res, ts_unit = m_unit m, ts_description = m_description m, ts_kind = kind,
      ts_value_type = vt, ts_points = [\<lparr>tp_start = start, tp_end = fin, tp_value = v\<rparr>],
      ts_metric_type = t, ts_labels = ls\<rparr>"

definition summaryPointToTimeSeries :: "mapper_env \<Rightarrow> mapper_config \<Rightarrow> any_normalizer \<Rightarrow>
    monitored_resource \<Rightarrow> labels \<Rightarrow> metric \<Rightarrow> summary_point \<Rightarrow> time_series list \<times> any_normalizer" where
  "summaryPointToTimeSeries env cfg n res extra m p =
     (if no_recorded_value (sp_flags p) then ([], n)
      else
        let (keep, p, n) = normalize_summary n p (series_id env res extra m (sp_attrs p)) in
        if \<not> keep then ([], n)
        else (case summaryMetricTypes cfg m of
          Inl e \<Rightarrow> ([], n)
        | Inr (sumType, countType, quantileType) \<Rightarrow>
            let ls = attributesToLabels env (sp_attrs p); start = Some (ts_time (sp_start p)); fin = ts_time (sp_time p) in
            ([single_series res m CUMULATIVE DOUBLE start fin (DoubleValue (sp_sum p)) sumType (mergeLabels ls [extra]),
              single_series res m CUMULATIVE DOUBLE start fin (DoubleValue (f_of_int (uint (sp_count p))))
                countType (mergeLabels ls [extra])] @
             List.map (\<lambda>(q, v). single_series res m GAUGE DOUBLE None fin (DoubleValue v) quantileType
                 (mergeLabels ls [extra, [''quantile'' \<mapsto> me_format_float env q]])) (sp_quantiles p), n)))"

definition histogramToTimeSeries :: "mapper_env \<Rightarrow> mapper_config \<Rightarrow> any_normalizer \<Rightarrow>
    monitored_resource \<Rightarrow> labels \<Rightarrow> metric \<Rightarrow> temporality \<Rightarrow> string \<Rightarrow> histogram_point \<Rightarrow>
    (go_panic, time_series list \<times> any_normalizer) res" where
  "histogramToTimeSeries env cfg n res extra m temp projectID p =
     (if no_recorded_value (hp_flags p) \<or> hp_sum p = None \<or> hp_bounds p = [] then Inr ([], n)
      else (case metricNameToType cfg (m_name m) m of
        Inl e \<Rightarrow> Inr ([], n)
      | Inr t \<Rightarrow>
          res_bind (if temp = TCumulative then normalize_histogram n p (series_id env res extra m (hp_attrs p))
                    else Inr (True, p, n)) (\<lambda>(keep, p, n).
          if \<not> keep then Inr ([], n)
          else res_bind (histogramPoint env cfg p projectID) (\<lambda>v.
            Inr ([single_series res m CUMULATIVE DISTRIBUTION (Some (ts_time (hp_start p))) (ts_time (hp_time p)) v t
                   (mergeLabels (attributesToLabels env (hp_attrs p)) [extra])], n)))))"

definition exponentialHistogramToTimeSeries :: "mapper_env \<Rightarrow> mapper_config \<Rightarrow> any_normalizer \<Rightarrow>
    monitored_resource \<Rightarrow> labels \<Rightarrow> metric \<Rightarrow> temporality \<Rightarrow> string \<Rightarrow> exp_point \<Rightarrow>
    time_series list \<times> any_normalizer" where
  "exponentialHistogramToTimeSeries env cfg n res extra m temp projectID p =
     (if no_recorded_value (xp_flags p) then ([], n)
      else (case metricNameToType cfg (m_name m) m of
        Inl e \<Rightarrow> ([], n)
      | Inr t \<Rightarrow>
          let (keep, p, n) = (if temp = TCumulative then normalize_exp n p (series_id env res extra m (xp_attrs p))
                              else (True, p, n)) in
          if \<not> keep then ([], n)
          else ([single_series res m CUMULATIVE DISTRIBUTION (Some (ts_time (xp_start p))) (ts_time (xp_time p))
                   (exponentialHistogramPoint env p projectID) t
                   (mergeLabels (attributesToLabels env (xp_attrs p)) [extra])], n)))"

definition sumPointToTimeSeries :: "mapper_env \<Rightarrow> mapper_config \<Rightarrow> any_normalizer \<Rightarrow>
    monitored_resource \<Rightarrow> labels \<Rightarrow> metric \<Rightarrow> bool \<Rightarrow> temporality \<Rightarrow> number_point \<Rightarrow>
    time_series list \<times> any_normalizer" where
  "sumPointToTimeSeries env cfg n res extra m monotonic temp p =
     (if no_recorded_value (np_flags p) then ([], n)
      else (case metricNameToType cfg (m_name m) m of
        Inl e \<Rightarrow> ([], n)
      | Inr t \<Rightarrow>
          let (keep, p, n) = (if monotonic \<and> temp = TCumulative
                then normalize_number n p (series_id env res extra m (np_attrs p)) else (True, p, n)) in
          if \<not> keep then ([], n)
          else
            let kind = (if monotonic then CUMULATIVE else GAUGE);
                start = (if monotonic then Some (ts_time (np_start p)) else None);
                (v, vt) = numberDataPointToValue p kind (m_unit m) in
            ([single_series res m kind vt start (ts_time (np_time p)) v t
                (mergeLabels (attributesToLabels env (np_attrs p)) [extra])], n)))"

definition gaugePointToTimeSeries :: "mapper_env \<Rightarrow> mapper_config \<Rightarrow>
    monitored_resource \<Rightarrow> labels \<Rightarrow> metric \<Rightarrow> number_point \<Rightarrow> time_series list" where
  "gaugePointToTimeSeries env cfg res extra m p =
     (if no_recorded_value (np_flags p) then []
      else (case metricNameToType cfg (m_name m) m of
        Inl e \<Rightarrow> []
      | Inr t \<Rightarrow>
          let (v, vt) = numberDataPointToValue p GAUGE (m_unit m) in
          [single_series res m GAUGE vt None (ts_time (np_time p)) v t
             (mergeLabels (attributesToLabels env (np_attrs p)) [extra])]))"

text \<open>The loop over the points of a metric.\<close>

fun series_of_points ::
  "('n \<Rightarrow> 'p \<Rightarrow> ('e, time_series list \<times> 'n) res) \<Rightarrow> 'n \<Rightarrow> 'p list \<Rightarrow> ('e, time_series list \<times> 'n) res" where
  "series_of_points f n [] = Inr ([], n)"
| "series_of_points f n (p # ps) = res_bind (f n p) (\<lambda>(ts, n).
     res_bind (series_of_points f n ps) (\<lambda>(ts', n). Inr (ts @ ts', n)))"

definition metricToTimeSeries :: "mapper_env \<Rightarrow> mapper_config \<Rightarrow> any_normalizer \<Rightarrow>
    monitored_resource \<Rightarrow> labels \<Rightarrow> metric \<Rightarrow> string \<Rightarrow> (go_panic, time_series list \<times> any_normalizer) res" where
  "metricToTimeSeries env cfg n res extra m projectID = (case m_data m of
     MSum monotonic temp ps \<Rightarrow> series_of_points (\<lambda>n p. Inr (sumPointToTimeSeries env cfg n res extra m monotonic temp p)) n ps
   | MGauge ps \<Rightarrow> series_of_points (\<lambda>n p. Inr (gaugePointToTimeSeries env cfg res extra m p, n)) n ps
   | MSummary ps \<Rightarrow> series_of_points (\<lambda>n p. Inr (summaryPointToTimeSeries env cfg n res extra m p)) n ps
   | MHistogram temp ps \<Rightarrow> series_of_points (\<lambda>n p. histogramToTimeSeries env cfg n res extra m temp projectID p) n ps
   | MExpHistogram temp ps \<Rightarrow>
       series_of_points (\<lambda>n p. Inr (exponentialHistogramToTimeSeries env cfg n res extra m temp projectID p)) n ps
   | MEmpty \<Rightarrow> Inr ([], n))"

subsection \<open>Metric descriptors\<close>

definition metricTypeToDisplayName :: "mapper_env \<Rightarrow> string \<Rightarrow> string" where
  "metricTypeToDisplayName env t = (case me_url_path env (''metrics://'' @ t) of
     Some path \<Rightarrow> if path = [] then t else trim_left_char path slash
   | None \<Rightarrow> t)"

definition data_attributes :: "metric_data \<Rightarrow> pmap list" where
  "data_attributes d = (case d of
     MGauge ps \<Rightarrow> List.map np_attrs ps
   | MSum monotonic temp ps \<Rightarrow> List.map np_attrs ps
   | MSummary ps \<Rightarrow> List.map sp_attrs ps
   | MHistogram temp ps \<Rightarrow> List.map hp_attrs ps
   | MExpHistogram temp ps \<Rightarrow> List.map xp_attrs ps
   | MEmpty \<Rightarrow> [])"

definition plain_label :: "string \<Rightarrow> label_descriptor" where
  "plain_label k = \<lparr>ld_key = k, ld_description = []\<rparr>"

text \<open>\<open>addAttributes\<close> on the keys of one point, with the keys seen so far.\<close>

fun addAttributes :: "unicode_tables \<Rightarrow> string list \<Rightarrow> label_descriptor list \<Rightarrow> string set \<Rightarrow>
    label_descriptor list \<times> string set" where
  "addAttributes u [] result seen = (result, seen)"
| "addAttributes u (k # ks) result seen =
     (if sanitizeKey u k \<in> seen then addAttributes u ks result seen
      else addAttributes u ks (result @ [plain_label (sanitizeKey u k)]) (insert (sanitizeKey u k) seen))"

definition labelDescriptors :: "mapper_env \<Rightarrow> metric \<Rightarrow> labels \<Rightarrow> label_descriptor list" where
  "labelDescriptors env m extra =
     (let result = List.map (\<lambda>k. plain_label (sanitizeKey (me_unicode env) k)) (me_order env extra)
      in fst (foldl (\<lambda>(result, seen) attrs. addAttributes (me_unicode env) (List.map fst attrs) result seen)
                (result, {}) (data_attributes (m_data m))))"

definition metricPointValueType :: "number_value \<Rightarrow> value_type" where
  "metricPointValueType v = (case v of NInt _ \<Rightarrow> INT64 | NDouble _ \<Rightarrow> DOUBLE | NEmpty \<Rightarrow> TYPE_UNSPECIFIED)"

definition mapMetricPointKind :: "metric \<Rightarrow> metric_kind \<times> value_type" where
  "mapMetricPointKind m = (case m_data m of
     MGauge ps \<Rightarrow> (GAUGE, case ps of
         [] \<Rightarrow> TYPE_UNSPECIFIED
       | p # _ \<Rightarrow> (case convertToBoolIfMetricKindSupported p GAUGE (m_unit m) of
           Some (_, vt) \<Rightarrow> vt | None \<Rightarrow> metricPointValueType (np_value p)))
   | MSum monotonic temp ps \<Rightarrow> (if monotonic then CUMULATIVE else GAUGE, case ps of
         [] \<Rightarrow> TYPE_UNSPECIFIED | p # _ \<Rightarrow> metricPointValueType (np_value p))
   | MSummary ps \<Rightarrow> (GAUGE, TYPE_UNSPECIFIED)
   | MHistogram temp ps \<Rightarrow> (CUMULATIVE, DISTRIBUTION)
   | MExpHistogram temp ps \<Rightarrow> (CUMULATIVE, DISTRIBUTION)
   | MEmpty \<Rightarrow> (KIND_UNSPECIFIED, TYPE_UNSPECIFIED))"

definition summaryMetricDescriptors :: "mapper_env \<Rightarrow> mapper_config \<Rightarrow> metric \<Rightarrow> labels \<Rightarrow> metric_descriptor list" where
  "summaryMetricDescriptors env cfg m extra = (case summaryMetricTypes cfg m of
     Inl e \<Rightarrow> []
   | Inr (sumType, countType, quantileType) \<Rightarrow>
       let ls = labelDescriptors env m extra in
       [\<lparr>md_name = [], md_type = sumType, md_labels = ls, md_kind = CUMULATIVE, md_value_type = DOUBLE,
         md_unit = m_unit m, md_description = m_description m, md_display_name = m_name m @ SummarySumSuffix\<rparr>,
        \<lparr>md_name = [], md_type = countType, md_labels = ls, md_kind = CUMULATIVE, md_value_type = DOUBLE,
         md_unit = m_unit m, md_description = m_description m, md_display_name = m_name m @ SummaryCountPrefix\<rparr>,
        \<lparr>md_name = [], md_type = quantileType,
         md_labels = ls @ [\<lparr>ld_key = ''quantile'', ld_description = ''the value at a given quantile of a distribution''\<rparr>],
         md_kind = GAUGE, md_value_type = DOUBLE,
         md_unit = m_unit m, md_description = m_description m, md_display_name = m_name m\<rparr>])"

definition metricDescriptor :: "mapper_env \<Rightarrow> mapper_config \<Rightarrow> metric \<Rightarrow> labels \<Rightarrow> metric_descriptor list" where
  "metricDescriptor env cfg m extra =
     (case m_data m of
        MSummary _ \<Rightarrow> summaryMetricDescriptors env cfg m extra
      | _ \<Rightarrow>
        let (kind, vt) = mapMetricPointKind m in
        if kind = KIND_UNSPECIFIED \<or> vt = TYPE_UNSPECIFIED then []
        else (case metricNameToType cfg (m_name m) m of
          Inl e \<Rightarrow> []
        | Inr t \<Rightarrow> [\<lparr>md_name = m_name m, md_type = t, md_labels = labelDescriptors env m extra,
            md_kind = kind, md_value_type = vt, md_unit = m_unit m, md_description = m_description m,
            md_display_name = metricTypeToDisplayName env t\<rparr>]))"

subsection \<open>Either normalizer keeps the contract\<close>

interpretation mapper_number: interval_normalizer
    "\<lambda>n p i. Inr (normalize_number n p i)" np_start np_time
proof unfold_locales
  fix n p i q n'
  assume a: "Inr (normalize_number n p i) = (Inr (True, q, n') :: (go_panic, _) res)" "ms_representable (np_time p)"
  show "ts_before (np_start q) (np_time q)"
    using a standard_number.valid [of _ p i q] disabled_number.valid [of "()" p i q]
    by (cases n) (auto simp: stateless_def split: prod.splits)
next
  fix n p i keep q n'
  assume a: "Inr (normalize_number n p i) = (Inr (keep, q, n') :: (go_panic, _) res)"
  show "np_time q = np_time p"
    using a standard_number.time [of _ p i keep q] disabled_number.time [of "()" p i keep q]
    by (cases n) (auto simp: stateless_def split: prod.splits)
qed

interpretation mapper_summary: interval_normalizer
    "\<lambda>n p i. Inr (normalize_summary n p i)" sp_start sp_time
proof unfold_locales
  fix n p i q n'
  assume a: "Inr (normalize_summary n p i) = (Inr (True, q, n') :: (go_panic, _) res)" "ms_representable (sp_time p)"
  show "ts_before (sp_start q) (sp_time q)"
    using a standard_summary.valid [of _ p i q] disabled_summary.valid [of "()" p i q]
    by (cases n) (auto simp: stateless_def split: prod.splits)
next
  fix n p i keep q n'
  assume a: "Inr (normalize_summary n p i) = (Inr (keep, q, n') :: (go_panic, _) res)"
  show "sp_time q = sp_time p"
    using a standard_summary.time [of _ p i keep q] disabled_summary.time [of "()" p i keep q]
    by (cases n) (auto simp: stateless_def split: prod.splits)
qed

interpretation mapper_exp: interval_normalizer
    "\<lambda>n p i. Inr (normalize_exp n p i)" xp_start xp_time
proof unfold_locales
  fix n p i q n'
  assume a: "Inr (normalize_exp n p i) = (Inr (True, q, n') :: (go_panic, _) res)" "ms_representable (xp_time p)"
  show "ts_before (xp_start q) (xp_time q)"
    using a standard_exp.valid [of _ p i q] disabled_exp.valid [of "()" p i q]
    by (cases n) (auto simp: stateless_def split: prod.splits)
next
  fix n p i keep q n'
  assume a: "Inr (normalize_exp n p i) = (Inr (keep, q, n') :: (go_panic, _) res)"
  show "xp_time q = xp_time p"
    using a standard_exp.time [of _ p i keep q] disabled_exp.time [of "()" p i keep q]
    by (cases n) (auto simp: stateless_def split: prod.splits)
qed

interpretation mapper_histogram: interval_normalizer normalize_histogram hp_start hp_time
proof unfold_locales
  fix n p i q n'
  assume a: "normalize_histogram n p i = Inr (True, q, n')" "ms_representable (hp_time p)"
  show "ts_before (hp_start q) (hp_time q)"
    using a standard_histogram.valid [of _ p i q] disabled_histogram.valid [of "()" p i q]
    by (cases n) (auto simp: stateless_def res_bind_Inr_iff split: prod.splits)
next
  fix n p i keep q n'
  assume a: "normalize_histogram n p i = Inr (keep, q, n')"
  show "hp_time q = hp_time p"
    using a standard_histogram.time [of _ p i keep q] disabled_histogram.time [of "()" p i keep q]
    by (cases n) (auto simp: stateless_def res_bind_Inr_iff split: prod.splits)
qed

subsection \<open>Shape of the series\<close>

definition value_has_type :: "typed_value \<Rightarrow> value_type \<Rightarrow> bool" where
  "value_has_type v vt = (case v of BoolValue _ \<Rightarrow> vt = BOOL | Int64Value _ \<Rightarrow> vt = INT64
     | DoubleValue _ \<Rightarrow> vt = DOUBLE | DistributionValue _ \<Rightarrow> vt = DISTRIBUTION)"

text \<open>One point; a start exactly for cumulative series; the value of the declared type.\<close>

definition series_wf :: "time_series \<Rightarrow> bool" where
  "series_wf ts = (case ts_points ts of
     [p] \<Rightarrow> (ts_kind ts = CUMULATIVE \<and> tp_start p \<noteq> None \<or> ts_kind ts = GAUGE \<and> tp_start p = None) \<and>
            value_has_type (tp_value p) (ts_value_type ts)
   | _ \<Rightarrow> False)"

text \<open>The interval of a cumulative series is not empty.\<close>

definition interval_valid :: "time_series \<Rightarrow> bool" where
  "interval_valid ts \<longleftrightarrow> ts_kind ts = GAUGE \<or>
     (\<exists>s t v. ts_points ts = [\<lparr>tp_start = Some (ts_time s), tp_end = ts_time t, tp_value = v\<rparr>] \<and> ts_before s t)"

text \<open>Everything a series takes over from its metric, its resource and the extra labels.\<close>

definition carries :: "monitored_resource \<Rightarrow> labels \<Rightarrow> metric \<Rightarrow> time_series \<Rightarrow> bool" where
  "carries res extra m ts \<longleftrightarrow> ts_resource ts = res \<and> ts_unit ts = m_unit m \<and> ts_description ts = m_description m \<and>
     extra |` (- {''quantile''}) \<subseteq>\<^sub>m ts_labels ts"

lemma single_series_sel [simp]:
  "ts_resource (single_series res m k vt s e v t ls) = res"
  "ts_unit (single_series res m k vt s e v t ls) = m_unit m"
  "ts_description (single_series res m k vt s e v t ls) = m_description m"
  "ts_kind (single_series res m k vt s e v t ls) = k"
  "ts_value_type (single_series res m k vt s e v t ls) = vt"
  "ts_points (single_series res m k vt s e v t ls) = [\<lparr>tp_start = s, tp_end = e, tp_value = v\<rparr>]"
  "ts_metric_type (single_series res m k vt s e v t ls) = t"
  "ts_labels (single_series res m k vt s e v t ls) = ls"
  by (simp_all add: single_series_def)

lemma merge_extra: "extra |` (- {''quantile''}) \<subseteq>\<^sub>m mergeLabels ls [extra]"
  by (auto simp: mergeLabels_def map_le_def restrict_map_def)

lemma merge_quantile: "extra |` (- {''quantile''}) \<subseteq>\<^sub>m mergeLabels ls [extra, [''quantile'' \<mapsto> v]]"
  by (auto simp: mergeLabels_def map_le_def restrict_map_def map_add_def)

lemma number_value_typed:
  "value_has_type (fst (numberDataPointToValue p k u)) (snd (numberDataPointToValue p k u))"
  by (auto simp: numberDataPointToValue_def convertToBoolIfMetricKindSupported_def value_has_type_def
      split: number_value.splits option.splits if_splits)

lemma histogramPoint_distribution:
  "histogramPoint env cfg p pid = Inr v \<Longrightarrow> \<exists>d. v = DistributionValue d"
  by (auto simp: histogramPoint_def Let_def res_bind_Inr_iff split: if_splits)

lemma exp_distribution: "\<exists>d. exponentialHistogramPoint env p pid = DistributionValue d"
  by (auto simp: exponentialHistogramPoint_def Let_def)

definition good_series :: "monitored_resource \<Rightarrow> labels \<Rightarrow> metric \<Rightarrow> time_series \<Rightarrow> bool" where
  "good_series res extra m ts \<longleftrightarrow> series_wf ts \<and> carries res extra m ts"

lemma sum_good:
  assumes "sumPointToTimeSeries env cfg n res extra m mt temp p = (tss, n')"
  shows "list_all (good_series res extra m) tss"
  using assms number_value_typed
  by (auto simp: sumPointToTimeSeries_def good_series_def series_wf_def carries_def merge_extra Let_def
      split: if_splits sum.splits prod.splits) (metis fst_conv snd_conv)+

lemma gauge_good: "list_all (good_series res extra m) (gaugePointToTimeSeries env cfg res extra m p)"
  using number_value_typed [of p GAUGE "m_unit m"]
  by (auto simp: gaugePointToTimeSeries_def good_series_def series_wf_def carries_def merge_extra
      split: sum.splits prod.splits)

lemma summary_good:
  assumes "summaryPointToTimeSeries env cfg n res extra m p = (tss, n')"
  shows "list_all (good_series res extra m) tss"
  using assms
  by (auto simp: summaryPointToTimeSeries_def good_series_def series_wf_def carries_def merge_extra merge_quantile
      value_has_type_def Let_def list_all_iff split: if_splits sum.splits prod.splits)

lemma histogram_good:
  assumes "histogramToTimeSeries env cfg n res extra m temp pid p = Inr (tss, n')"
  shows "list_all (good_series res extra m) tss"
  using assms
  by (auto simp: histogramToTimeSeries_def good_series_def series_wf_def carries_def merge_extra
      value_has_type_def res_bind_Inr_iff dest!: histogramPoint_distribution split: if_splits sum.splits prod.splits)

lemma exp_good:
  assumes "exponentialHistogramToTimeSeries env cfg n res extra m temp pid p = (tss, n')"
  shows "list_all (good_series res extra m) tss"
proof -
  have "value_has_type (exponentialHistogramPoint env p pid) DISTRIBUTION" for p
    using exp_distribution [of env p pid] by (auto simp: value_has_type_def)
  then show ?thesis using assms
    by (auto simp: exponentialHistogramToTimeSeries_def good_series_def series_wf_def carries_def merge_extra Let_def
      split: if_splits sum.splits prod.splits)
qed

lemma series_of_points_all:
  assumes "series_of_points f n ps = Inr (tss, n')"
    and "\<And>p n ts n'. p \<in> set ps \<Longrightarrow> f n p = Inr (ts, n') \<Longrightarrow> list_all P ts"
  shows "list_all P tss"
  using assms
proof (induction ps arbitrary: n tss)
  case (Cons p ps)
  then obtain ts n1 ts' where 1: "f n p = Inr (ts, n1)" "series_of_points f n1 ps = Inr (ts', n')" "tss = ts @ ts'"
    by (auto simp: res_bind_Inr_iff)
  then show ?case using Cons.IH [OF 1(2)] Cons.prems(2) by auto
qed simp

lemma metric_good:
  assumes "metricToTimeSeries env cfg n res extra m pid = Inr (tss, n')"
  shows "list_all (good_series res extra m) tss"
proof (cases "m_data m")
  case MEmpty
  then show ?thesis using assms by (simp add: metricToTimeSeries_def)
next
  case (MGauge ps)
  then show ?thesis using assms gauge_good
    by (auto simp: metricToTimeSeries_def elim!: series_of_points_all)
next
  case (MSum mt temp ps)
  then show ?thesis using assms sum_good
    by (auto simp: metricToTimeSeries_def elim!: series_of_points_all)
next
  case (MHistogram temp ps)
  then show ?thesis using assms histogram_good
    by (auto simp: metricToTimeSeries_def elim!: series_of_points_all)
next
  case (MExpHistogram temp ps)
  then show ?thesis using assms exp_good
    by (auto simp: metricToTimeSeries_def elim!: series_of_points_all)
next
  case (MSummary ps)
  then show ?thesis using assms summary_good
    by (auto simp: metricToTimeSeries_def elim!: series_of_points_all)
qed

text \<open>C9. Every time series made from a metric has one point, a start exactly when it is cumulative, a
value of the type it declares, the metric's unit and description, the given monitored resource and
all the extra labels (a quantile label apart, which a summary sets itself).\<close>

theorem time_series_are_well_formed:
  assumes "metricToTimeSeries env cfg n res extra m pid = Inr (tss, n')"
  shows "list_all (\<lambda>ts. series_wf ts \<and> carries res extra m ts) tss"
  using metric_good [OF assms] by (simp add: good_series_def [abs_def])

text \<open>Insertion of an element before the first one that it is less than.\<close>

fun insert_less :: "('a \<Rightarrow> 'a \<Rightarrow> bool) \<Rightarrow> 'a \<Rightarrow> 'a list \<Rightarrow> 'a list" where
  "insert_less before x [] = [x]"
| "insert_less before x (y # ys) = (if before x y then x # y # ys else y # insert_less before x ys)"

definition insertion_sort :: "('a \<Rightarrow> 'a \<Rightarrow> bool) \<Rightarrow> 'a list \<Rightarrow> 'a list" where
  "insertion_sort before xs = foldl (\<lambda>ys x. insert_less before x ys) [] xs"

definition example_env :: mapper_env where
  "example_env = \<lparr>me_unicode = \<lparr>uni_letter = (\<lambda>r. False), uni_digit = (\<lambda>r. False)\<rparr>,
     me_order = sorted_order, me_as_string = val_str, me_format_float = (\<lambda>x. ''0.5''),
     me_exp2 = id, me_pow = (\<lambda>x y. x), me_sort_slice = insertion_sort,
     me_any_ok = (\<lambda>a. True), me_url_path = (\<lambda>s. None)\<rparr>"

definition example_config :: mapper_config where
  "example_config = \<lparr>mc_prefix = ''workload.googleapis.com'', mc_known_domains = [''googleapis.com''],
     mc_get_metric_name = defaultGetMetricName, mc_library_labels = True, mc_deviation = True\<rparr>"

definition example_resource :: monitored_resource where
  "example_resource = \<lparr>mr_type = ''generic_node'', mr_labels = [''node_id'' \<mapsto> ''n1'']\<rparr>"

definition example_metric :: "metric_data \<Rightarrow> metric" where
  "example_metric d = \<lparr>m_name = ''requests'', m_description = ''served'', m_unit = ''1'', m_metadata = [], m_data = d\<rparr>"

definition example_summary :: metric where
  "example_summary = example_metric (MSummary
     [(summary_example_point 5000000 10)\<lparr>sp_quantiles := [(f_zero, f_zero)]\<rparr>])"

lemma time_series_are_well_formed_witness:
  "list_all (\<lambda>ts. series_wf ts \<and> carries example_resource [''zone'' \<mapsto> ''a''] example_summary ts)
     (fst (projr (metricToTimeSeries example_env example_config DisabledNormalizer example_resource [''zone'' \<mapsto> ''a'']
        example_summary ''p'')))"
proof -
  have "\<not> isl (metricToTimeSeries example_env example_config DisabledNormalizer example_resource [''zone'' \<mapsto> ''a'']
      example_summary ''p'')"
    by (simp add: metricToTimeSeries_def example_summary_def example_metric_def case_prod_beta)
  then show ?thesis by (rule time_series_are_well_formed [OF result_of])
qed

subsection \<open>Intervals\<close>

definition metric_times :: "metric \<Rightarrow> u64 list" where
  "metric_times m = (case m_data m of
     MGauge ps \<Rightarrow> List.map np_time ps | MSum mt temp ps \<Rightarrow> List.map np_time ps
   | MSummary ps \<Rightarrow> List.map sp_time ps | MHistogram temp ps \<Rightarrow> List.map hp_time ps
   | MExpHistogram temp ps \<Rightarrow> List.map xp_time ps | MEmpty \<Rightarrow> [])"

definition normalized_metric :: "metric \<Rightarrow> bool" where
  "normalized_metric m = (case m_data m of
     MSum mt temp ps \<Rightarrow> mt \<longrightarrow> temp = TCumulative
   | MHistogram temp ps \<Rightarrow> temp = TCumulative
   | MExpHistogram temp ps \<Rightarrow> temp = TCumulative | _ \<Rightarrow> True)"

lemma interval_valid_single:
  "interval_valid (single_series res m GAUGE vt st fin v t ls)"
  "ts_before s e \<Longrightarrow> interval_valid (single_series res m k vt (Some (ts_time s)) (ts_time e) v t ls)"
  by (auto simp: interval_valid_def)

lemma sum_interval:
  assumes "mt \<longrightarrow> temp = TCumulative" "ms_representable (np_time p)"
    and "sumPointToTimeSeries env cfg n res extra m mt temp p = (tss, n')"
  shows "list_all interval_valid tss"
  using assms mapper_number.valid [of n p] mapper_number.time [of n p]
  by (fastforce simp: sumPointToTimeSeries_def Let_def interval_valid_single split: if_splits sum.splits prod.splits)

lemma summary_interval:
  assumes "ms_representable (sp_time p)"
    and "summaryPointToTimeSeries env cfg n res extra m p = (tss, n')"
  shows "list_all interval_valid tss"
  using assms mapper_summary.valid [of n p]
  by (fastforce simp: summaryPointToTimeSeries_def Let_def interval_valid_single list_all_iff
      split: if_splits sum.splits prod.splits)

lemma histogram_interval:
  assumes "temp = TCumulative" "ms_representable (hp_time p)"
    and "histogramToTimeSeries env cfg n res extra m temp pid p = Inr (tss, n')"
  shows "list_all interval_valid tss"
  using assms mapper_histogram.valid [of n p]
  by (fastforce simp: histogramToTimeSeries_def res_bind_Inr_iff interval_valid_single
      split: if_splits sum.splits prod.splits)

lemma exp_interval:
  assumes "temp = TCumulative" "ms_representable (xp_time p)"
    and "exponentialHistogramToTimeSeries env cfg n res extra m temp pid p = (tss, n')"
  shows "list_all interval_valid tss"
  using assms mapper_exp.valid [of n p]
  by (fastforce simp: exponentialHistogramToTimeSeries_def Let_def interval_valid_single
      split: if_splits sum.splits prod.splits)

lemma gauge_interval: "list_all interval_valid (gaugePointToTimeSeries env cfg res extra m p)"
  by (auto simp: gaugePointToTimeSeries_def interval_valid_single split: sum.splits prod.splits)

text \<open>C8. With either normalizer, every cumulative time series made from a cumulative metric or a
summary covers an interval whose start is before its end.\<close>

theorem cumulative_intervals_are_valid:
  assumes "metricToTimeSeries env cfg n res extra m pid = Inr (tss, n')"
    and "list_all ms_representable (metric_times m)" "normalized_metric m"
  shows "list_all interval_valid tss"
proof (cases "m_data m")
  case MEmpty
  then show ?thesis using assms by (simp add: metricToTimeSeries_def)
next
  case (MGauge ps)
  then have h: "series_of_points (\<lambda>n p. Inr (gaugePointToTimeSeries env cfg res extra m p, n)) n ps = (Inr (tss, n') :: (go_panic, _) res)"
    using assms(1) by (simp add: metricToTimeSeries_def)
  show ?thesis by (rule series_of_points_all [OF h]) (auto simp: gauge_interval)
next
  case (MSum mt temp ps)
  then have h: "series_of_points (\<lambda>n p. Inr (sumPointToTimeSeries env cfg n res extra m mt temp p)) n ps = (Inr (tss, n') :: (go_panic, _) res)"
    and t: "mt \<longrightarrow> temp = TCumulative" "\<forall>p \<in> set ps. ms_representable (np_time p)"
    using assms by (simp_all add: metricToTimeSeries_def normalized_metric_def metric_times_def list_all_iff)
  show ?thesis
    by (rule series_of_points_all [OF h]) (rule sum_interval [OF t(1)], use t in auto)
next
  case (MHistogram temp ps)
  then have h: "series_of_points (\<lambda>n p. histogramToTimeSeries env cfg n res extra m temp pid p) n ps = (Inr (tss, n') :: (go_panic, _) res)"
    and t: "temp = TCumulative" "\<forall>p \<in> set ps. ms_representable (hp_time p)"
    using assms by (simp_all add: metricToTimeSeries_def normalized_metric_def metric_times_def list_all_iff)
  show ?thesis
    by (rule series_of_points_all [OF h]) (rule histogram_interval [OF t(1)], use t in auto)
next
  case (MExpHistogram temp ps)
  then have h: "series_of_points (\<lambda>n p. Inr (exponentialHistogramToTimeSeries env cfg n res extra m temp pid p)) n ps = (Inr (tss, n') :: (go_panic, _) res)"
    and t: "temp = TCumulative" "\<forall>p \<in> set ps. ms_representable (xp_time p)"
    using assms by (simp_all add: metricToTimeSeries_def normalized_metric_def metric_times_def list_all_iff)
  show ?thesis
    by (rule series_of_points_all [OF h]) (rule exp_interval [OF t(1)], use t in auto)
next
  case (MSummary ps)
  then have h: "series_of_points (\<lambda>n p. Inr (summaryPointToTimeSeries env cfg n res extra m p)) n ps = (Inr (tss, n') :: (go_panic, _) res)"
    and t: "\<forall>p \<in> set ps. ms_representable (sp_time p)"
    using assms by (simp_all add: metricToTimeSeries_def normalized_metric_def metric_times_def list_all_iff)
  show ?thesis
    by (rule series_of_points_all [OF h]) (rule summary_interval, use t in auto)
qed

definition example_counter :: metric where
  "example_counter = example_metric (MSum True TCumulative [counter_example_point 5000000 10, counter_example_point 7000000 12])"

lemma cumulative_intervals_are_valid_witness:
  "list_all interval_valid
     (fst (projr (metricToTimeSeries example_env example_config (StandardNormalizer NewStandardNormalizer)
        example_resource [''zone'' \<mapsto> ''a''] example_counter ''p'')))"
proof -
  have "\<not> isl (metricToTimeSeries example_env example_config (StandardNormalizer NewStandardNormalizer)
        example_resource [''zone'' \<mapsto> ''a''] example_counter ''p'')"
    by (simp add: metricToTimeSeries_def example_counter_def example_metric_def case_prod_beta)
  moreover have "list_all ms_representable (metric_times example_counter)" "normalized_metric example_counter"
    by code_simp+
  ultimately show ?thesis by (rule cumulative_intervals_are_valid [OF result_of])
qed

subsection \<open>Distributions\<close>

definition options_fit :: "bucket_options \<Rightarrow> nat \<Rightarrow> bool" where
  "options_fit opts n = (case opts of
     ExplicitBuckets bs \<Rightarrow> n = Suc (length bs)
   | ExponentialBuckets k g s \<Rightarrow> int n = sint k + 2)"

lemma sum_list_foldl_add: "foldl (+) (a :: u64) xs = a + sum_list xs"
  by (induction xs arbitrary: a) (auto simp: add.assoc)

text \<open>C12. The distribution of an exponential histogram loses no count: its buckets add up to the
zero count and all negative and positive buckets (modulo 2^64), the first holds everything at or
below zero, the last is empty, and there are as many buckets as the bucket options ask for.\<close>

theorem exponential_distribution_keeps_counts:
  assumes "exponentialHistogramPoint env p pid = DistributionValue d"
    and "length (eb_counts (xp_positive p)) < 2 ^ 31"
  shows "sum_list (di_buckets d) =
      xp_zero_count p + sum_list (eb_counts (xp_negative p)) + sum_list (eb_counts (xp_positive p)) \<and>
    hd (di_buckets d) = xp_zero_count p + sum_list (eb_counts (xp_negative p)) \<and>
    last (di_buckets d) = 0 \<and> di_count d = xp_count p \<and>
    options_fit (di_options d) (length (di_buckets d))"
proof -
  have "sint (word_of_int (int (length (eb_counts (xp_positive p)))) :: i32) = int (length (eb_counts (xp_positive p)))"
    using assms(2) unfolding sint_sbintrunc' by (simp add: signed_take_bit_int_eq_self)
  then have "sint (word_of_nat (length (eb_counts (xp_positive p))) :: i32) = int (length (eb_counts (xp_positive p)))"
    by simp
  with assms(1) show ?thesis
    by (auto simp: exponentialHistogramPoint_def Let_def sum_list_foldl_add options_fit_def add.assoc)
qed

definition example_exp_point :: exp_point where
  "example_exp_point = new_exp_point\<lparr>xp_count := 21, xp_zero_count := 3, xp_negative := example_buckets 0 [1, 2],
     xp_positive := example_buckets (-1) [4, 5, 6]\<rparr>"

definition example_distribution :: distribution where
  "example_distribution = (case exponentialHistogramPoint example_env example_exp_point ''p'' of DistributionValue d \<Rightarrow> d)"

lemma exponential_distribution_keeps_counts_witness:
  "sum_list (di_buckets example_distribution) = xp_zero_count example_exp_point +
     sum_list (eb_counts (xp_negative example_exp_point)) + sum_list (eb_counts (xp_positive example_exp_point)) \<and>
   hd (di_buckets example_distribution) = xp_zero_count example_exp_point + sum_list (eb_counts (xp_negative example_exp_point)) \<and>
   last (di_buckets example_distribution) = 0 \<and> di_count example_distribution = xp_count example_exp_point \<and>
   options_fit (di_options example_distribution) (length (di_buckets example_distribution))"
proof (rule exponential_distribution_keeps_counts)
  show "exponentialHistogramPoint example_env example_exp_point ''p'' = DistributionValue example_distribution"
    using exp_distribution [of example_env example_exp_point "''p''"]
    by (auto simp: example_distribution_def)
  show "length (eb_counts (xp_positive example_exp_point)) < 2 ^ 31" by code_simp
qed

subsection \<open>Panics\<close>

lemma deviation_loop_ok:
  "length bs \<le> length cs \<Longrightarrow> \<exists>r. deviation_loop mean bs cs prev dev = Inr r"
  by (induction mean bs cs prev dev rule: deviation_loop.induct) auto

lemma histogramPoint_ok:
  assumes "hist_shaped p"
  shows "\<exists>v. histogramPoint env cfg p pid = Inr v"
proof -
  obtain r where "deviation_loop (point_mean (hp_sum_value p) (hp_count p)) (hp_bounds p) (hp_buckets p) f_zero f_zero = Inr r"
    using deviation_loop_ok assms unfolding hist_shaped_def by (metis le_SucI order_refl)
  with assms show ?thesis
    by (auto simp: histogramPoint_def Let_def sum_of_squared_deviation_def hist_shaped_def split: prod.splits)
qed

fun shaped_normalizer :: "any_normalizer \<Rightarrow> bool" where
  "shaped_normalizer (StandardNormalizer n) = hist_shaped_cache (nz_start n)"
| "shaped_normalizer DisabledNormalizer = True"

lemma histogram_step_shape:
  assumes "hist_shaped_cache (nz_start n)" "hist_shaped p" "NormalizeHistogramDataPoint n p i = Inr (keep, q, n')"
  shows "hist_shaped q"
  using assms(3)
proof (cases rule: histogram_series.step_outcomes)
  case (difference s)
  then show ?thesis using assms(2)
    by (auto simp: hist_shaped_def subtractHistogramDataPoint_def subtract_buckets_eq split: if_splits)
qed (use assms(2) in \<open>simp_all add: hist_shaped_def\<close>)

lemma normalize_histogram_ok:
  assumes "shaped_normalizer n" "hist_shaped p"
  shows "case normalize_histogram n p i of Inl _ \<Rightarrow> False
    | Inr (keep, q, n') \<Rightarrow> hist_shaped q \<and> shaped_normalizer n'"
proof (cases n)
  case (StandardNormalizer s)
  with assms have "case NormalizeHistogramDataPoint s p i of Inl _ \<Rightarrow> False
      | Inr (keep, q, n') \<Rightarrow> hist_shaped q \<and> hist_shaped_cache (nz_start n')"
    using histogram_step_shaped [of s p i] histogram_step_shape [of s p i]
    by (auto split: sum.splits)
  with StandardNormalizer show ?thesis by (auto split: sum.splits)
next
  case DisabledNormalizer
  with assms(2) show ?thesis by (simp add: DisabledNormalizeHistogramDataPoint_def hist_shaped_def)
qed

definition shaped_metric :: "metric \<Rightarrow> bool" where
  "shaped_metric m = (case m_data m of
     MHistogram temp ps \<Rightarrow> list_all (\<lambda>p. hp_bounds p = [] \<or> hist_shaped p) ps | _ \<Rightarrow> True)"

lemma histogram_series_ok:
  assumes "shaped_normalizer n" "hp_bounds p = [] \<or> hist_shaped p"
  shows "case histogramToTimeSeries env cfg n res extra m temp pid p of Inl _ \<Rightarrow> False | Inr (tss, n') \<Rightarrow> shaped_normalizer n'"
proof (cases "no_recorded_value (hp_flags p) \<or> hp_sum p = None \<or> hp_bounds p = [] \<or> isl (metricNameToType cfg (m_name m) m)")
  case True
  with assms(1) show ?thesis by (auto simp: histogramToTimeSeries_def split: sum.splits)
next
  case False
  then obtain t where t: "metricNameToType cfg (m_name m) m = Inr t" by (auto simp: isl_def split: sum.splits) (metis sumE)
  from False assms(2) have p: "hist_shaped p" by simp
  let ?r = "if temp = TCumulative then normalize_histogram n p (series_id env res extra m (hp_attrs p)) else Inr (True, p, n)"
  obtain keep q n1 where r: "?r = Inr (keep, q, n1)" "hist_shaped q" "shaped_normalizer n1"
    using normalize_histogram_ok [OF assms(1) p, of "series_id env res extra m (hp_attrs p)"] assms(1) p
    by (cases "temp = TCumulative") (auto split: sum.splits)
  obtain v where v: "histogramPoint env cfg q pid = Inr v" using histogramPoint_ok [OF r(2)] by blast
  show ?thesis using False r(3) v unfolding histogramToTimeSeries_def t sum.case r(1) by auto
qed

lemma series_of_points_invariant:
  assumes "I n" "\<And>n p. I n \<Longrightarrow> p \<in> set ps \<Longrightarrow> case f n p of Inl _ \<Rightarrow> False | Inr (tss, n') \<Rightarrow> I n'"
  shows "case series_of_points f n ps of Inl _ \<Rightarrow> False | Inr (tss, n') \<Rightarrow> I n'"
  using assms
proof (induction ps arbitrary: n)
  case (Cons p ps)
  from Cons.prems(2) [OF Cons.prems(1), of p] obtain ts n1 where 1: "f n p = Inr (ts, n1)" "I n1"
    by (auto split: sum.splits)
  from Cons.IH [OF 1(2)] Cons.prems(2) obtain ts' n2 where "series_of_points f n1 ps = Inr (ts', n2)" "I n2"
    by (auto split: sum.splits)
  with 1 show ?case by simp
qed simp


lemma histogram_cache_frame [frame]:
  "histogram_cache (snd (getNumberDataPoint c i)) = histogram_cache c"
  "histogram_cache (setNumberDataPoint c i np) = histogram_cache c"
  "histogram_cache (snd (getSummaryDataPoint c i)) = histogram_cache c"
  "histogram_cache (setSummaryDataPoint c i sp) = histogram_cache c"
  "histogram_cache (snd (getExponentialHistogramDataPoint c i)) = histogram_cache c"
  "histogram_cache (setExponentialHistogramDataPoint c i xp) = histogram_cache c"
  by (simp_all add: cache_operations split: option.splits)

lemma other_kinds_frame [frame]:
  "histogram_cache (nz_start (snd (snd (NormalizeNumberDataPoint n np i)))) = histogram_cache (nz_start n)"
  "histogram_cache (nz_start (snd (snd (NormalizeSummaryDataPoint n sp i)))) = histogram_cache (nz_start n)"
  "histogram_cache (nz_start (snd (snd (NormalizeExponentialHistogramDataPoint n xp i)))) = histogram_cache (nz_start n)"
  by (simp_all add: NormalizeNumberDataPoint_def NormalizeSummaryDataPoint_def
      NormalizeExponentialHistogramDataPoint_def Let_def case_prod_beta frame split: option.split)

lemma shaped_other_kinds:
  "shaped_normalizer (snd (snd (normalize_number n np i))) = shaped_normalizer n"
  "shaped_normalizer (snd (snd (normalize_summary n sp i))) = shaped_normalizer n"
  "shaped_normalizer (snd (snd (normalize_exp n xp i))) = shaped_normalizer n"
  by (cases n; simp add: case_prod_beta hist_shaped_cache_def frame)+

lemma shaped_series:
  "shaped_normalizer (snd (sumPointToTimeSeries env cfg n res extra m mt temp np)) = shaped_normalizer n"
  "shaped_normalizer (snd (summaryPointToTimeSeries env cfg n res extra m sp)) = shaped_normalizer n"
  "shaped_normalizer (snd (exponentialHistogramToTimeSeries env cfg n res extra m temp pid xp)) = shaped_normalizer n"
  by (auto simp: sumPointToTimeSeries_def summaryPointToTimeSeries_def exponentialHistogramToTimeSeries_def
      Let_def case_prod_beta shaped_other_kinds split: sum.split)

lemma shaped_metric_ok:
  assumes "shaped_normalizer n" "shaped_metric m"
  shows "case metricToTimeSeries env cfg n res extra m pid of
    Inl _ \<Rightarrow> False | Inr (tss, n') \<Rightarrow> shaped_normalizer n'"
proof -
  note inv = series_of_points_invariant [where I = shaped_normalizer, OF assms(1)]
  show ?thesis
  proof (cases "m_data m")
    case (MHistogram temp ps)
    then have "p \<in> set ps \<Longrightarrow> hp_bounds p = [] \<or> hist_shaped p" for p
      using assms(2) by (auto simp: shaped_metric_def list_all_iff)
    with MHistogram show ?thesis
      by (simp only: metricToTimeSeries_def metric_data.case) (intro inv histogram_series_ok)
  next
    case (MSum mt temp ps)
    then show ?thesis
      by (simp only: metricToTimeSeries_def metric_data.case, intro inv)
        (simp add: shaped_series case_prod_beta)
  next
    case (MSummary ps)
    then show ?thesis
      by (simp only: metricToTimeSeries_def metric_data.case, intro inv)
        (simp add: shaped_series case_prod_beta)
  next
    case (MExpHistogram temp ps)
    then show ?thesis
      by (simp only: metricToTimeSeries_def metric_data.case, intro inv)
        (simp add: shaped_series case_prod_beta)
  next
    case (MGauge ps)
    then show ?thesis
      by (simp only: metricToTimeSeries_def metric_data.case, intro inv) simp
  qed (simp add: metricToTimeSeries_def assms(1))
qed

text \<open>The mapper never panics on a metric whose histograms have one bucket more than bounds (or no
bounds, which it drops), whatever the configuration, and it leaves a normalizer for which this
holds again.\<close>

theorem mapper_never_panics:
  assumes "shaped_normalizer n" "shaped_metric m"
  shows "case metricToTimeSeries env cfg n res extra m pid of
    Inl _ \<Rightarrow> False | Inr (tss, n') \<Rightarrow> shaped_normalizer n'"
  using assms by (rule shaped_metric_ok)

definition example_histogram :: metric where
  "example_histogram = example_metric (MHistogram TCumulative
     [histogram_example_point 5000000 [1, 2], histogram_example_point 6000000 [4]])"

lemma mapper_never_panics_witness:
  "case metricToTimeSeries example_env example_config (StandardNormalizer NewStandardNormalizer)
      example_resource Map.empty example_histogram ''p'' of
    Inl _ \<Rightarrow> False | Inr (tss, n') \<Rightarrow> shaped_normalizer n'"
proof (rule mapper_never_panics)
  show "shaped_normalizer (StandardNormalizer NewStandardNormalizer)"
    by (simp add: hist_shaped_cache_def NewStandardNormalizer_def newCache_def)
  show "shaped_metric example_histogram" by code_simp
qed

subsection \<open>Descriptors\<close>

definition same_value_type :: "number_point list \<Rightarrow> bool" where
  "same_value_type ps = (case ps of [] \<Rightarrow> True
     | p # ps \<Rightarrow> list_all (\<lambda>q. metricPointValueType (np_value q) = metricPointValueType (np_value p)) ps \<and>
         np_value p \<noteq> NEmpty)"

text \<open>A time series and a descriptor of the same metric type, kind and value type.\<close>

definition described_by :: "metric_descriptor list \<Rightarrow> time_series \<Rightarrow> bool" where
  "described_by ds ts \<longleftrightarrow> list_ex (\<lambda>d. md_type d = ts_metric_type ts \<and> md_kind d = ts_kind ts \<and>
     md_value_type d = ts_value_type ts \<and> md_unit d = ts_unit ts) ds"

definition describable :: "metric \<Rightarrow> bool" where
  "describable m = (case m_data m of
     MGauge ps \<Rightarrow> same_value_type ps
   | MSum mt temp ps \<Rightarrow> same_value_type ps \<and> (mt \<or> m_unit m \<noteq> specialIntToBoolUnit) | _ \<Rightarrow> True)"

lemma value_type_normalized:
  "metricPointValueType (np_value (fst (snd (normalize_number n p i)))) = metricPointValueType (np_value p)"
  by (cases n) (auto simp: NormalizeNumberDataPoint_def DisabledNormalizeNumberDataPoint_def Let_def case_prod_beta
      subtractNumberDataPoint_def metricPointValueType_def split: option.split number_value.split)

lemma number_type_plain:
  assumes "kind \<noteq> GAUGE \<or> unit \<noteq> specialIntToBoolUnit" "np_value p \<noteq> NEmpty"
  shows "snd (numberDataPointToValue p kind unit) = metricPointValueType (np_value p)"
  using assms by (auto simp: numberDataPointToValue_def convertToBoolIfMetricKindSupported_def
      metricPointValueType_def split: number_value.splits option.splits)

lemma number_type_same:
  assumes "metricPointValueType (np_value p) = metricPointValueType (np_value q)" "np_value q \<noteq> NEmpty"
  shows "snd (numberDataPointToValue p kind unit) = snd (numberDataPointToValue q kind unit)"
  using assms by (auto simp: numberDataPointToValue_def convertToBoolIfMetricKindSupported_def
      metricPointValueType_def split: number_value.splits option.splits)

lemma not_empty_type: "np_value p \<noteq> NEmpty \<longleftrightarrow> metricPointValueType (np_value p) \<noteq> TYPE_UNSPECIFIED"
  by (cases "np_value p") (auto simp: metricPointValueType_def)

lemma sum_described:
  assumes "same_value_type ps" "mt \<or> m_unit m \<noteq> specialIntToBoolUnit" "m_data m = MSum mt temp ps" "p \<in> set ps"
  shows "list_all (described_by (metricDescriptor env cfg m extra)) (fst (sumPointToTimeSeries env cfg n res extra m mt temp p))"
proof -
  obtain p0 ps' where ps: "ps = p0 # ps'" using assms(4) by (cases ps) auto
  have t: "metricPointValueType (np_value p) = metricPointValueType (np_value p0)" "np_value p0 \<noteq> NEmpty"
    using assms(1,4) by (auto simp: same_value_type_def ps list_all_iff)
  have vt: "snd (numberDataPointToValue q (if mt then CUMULATIVE else GAUGE) (m_unit m)) = metricPointValueType (np_value p0)"
    if "metricPointValueType (np_value q) = metricPointValueType (np_value p)" for q
    using that t assms(2) by (subst number_type_plain) (auto simp: not_empty_type)
  note q = vt [OF value_type_normalized] vt [OF refl]
  show ?thesis
    using q t(2) assms(3)
    by (auto simp: sumPointToTimeSeries_def metricDescriptor_def mapMetricPointKind_def ps Let_def case_prod_beta
        described_by_def not_empty_type split: sum.splits)
qed

lemma gauge_described:
  assumes "same_value_type ps" "m_data m = MGauge ps" "p \<in> set ps"
  shows "list_all (described_by (metricDescriptor env cfg m extra)) (gaugePointToTimeSeries env cfg res extra m p)"
proof -
  obtain p0 ps' where ps: "ps = p0 # ps'" using assms(3) by (cases ps) auto
  have t: "metricPointValueType (np_value p) = metricPointValueType (np_value p0)" "np_value p0 \<noteq> NEmpty"
    using assms(1,3) by (auto simp: same_value_type_def ps list_all_iff)
  have vt: "snd (numberDataPointToValue p GAUGE (m_unit m)) =
      (case convertToBoolIfMetricKindSupported p0 GAUGE (m_unit m) of Some (_, vt) \<Rightarrow> vt | None \<Rightarrow> metricPointValueType (np_value p0))"
    unfolding number_type_same [OF t] using t(2)
    by (auto simp: numberDataPointToValue_def convertToBoolIfMetricKindSupported_def metricPointValueType_def
        split: number_value.splits option.splits)
  have ne: "snd (numberDataPointToValue p GAUGE (m_unit m)) \<noteq> TYPE_UNSPECIFIED"
    by (auto simp: numberDataPointToValue_def convertToBoolIfMetricKindSupported_def split: number_value.splits option.splits if_splits)
  show ?thesis
    using vt ne assms(2)
    by (auto simp: gaugePointToTimeSeries_def metricDescriptor_def mapMetricPointKind_def ps Let_def case_prod_beta
        described_by_def split: sum.splits)
qed

lemma summary_described:
  assumes "m_data m = MSummary ps"
  shows "list_all (described_by (metricDescriptor env cfg m extra)) (fst (summaryPointToTimeSeries env cfg n res extra m p))"
  using assms by (auto simp: summaryPointToTimeSeries_def metricDescriptor_def summaryMetricDescriptors_def Let_def
      case_prod_beta described_by_def list_all_iff split: sum.splits)

lemma histogram_described:
  assumes "m_data m = MHistogram temp ps" "histogramToTimeSeries env cfg n res extra m temp pid p = Inr (tss, n')"
  shows "list_all (described_by (metricDescriptor env cfg m extra)) tss"
  using assms by (auto simp: histogramToTimeSeries_def metricDescriptor_def mapMetricPointKind_def
      described_by_def res_bind_Inr_iff split: sum.splits if_splits prod.splits)

lemma exp_described:
  assumes "m_data m = MExpHistogram temp ps"
  shows "list_all (described_by (metricDescriptor env cfg m extra)) (fst (exponentialHistogramToTimeSeries env cfg n res extra m temp pid p))"
  using assms by (auto simp: exponentialHistogramToTimeSeries_def metricDescriptor_def mapMetricPointKind_def
      described_by_def Let_def case_prod_beta split: sum.splits if_splits)

text \<open>C11. When a metric's points have one value type, every time series made from it has the metric type,
kind, value type and unit of one of the metric's descriptors; the exception are non-monotonic sums
with the boolean unit.\<close>

theorem series_match_descriptors:
  assumes "metricToTimeSeries env cfg n res extra m pid = Inr (tss, n')" "describable m"
  shows "list_all (described_by (metricDescriptor env cfg m extra)) tss"
proof (cases "m_data m")
  case MEmpty
  then show ?thesis using assms by (simp add: metricToTimeSeries_def)
next
  case (MGauge ps)
  then have h: "series_of_points (\<lambda>n p. Inr (gaugePointToTimeSeries env cfg res extra m p, n)) n ps = (Inr (tss, n') :: (go_panic, _) res)"
    using assms(1) by (simp add: metricToTimeSeries_def)
  show ?thesis
    by (rule series_of_points_all [OF h]) (use MGauge assms(2) in \<open>auto simp: describable_def gauge_described\<close>)
next
  case (MSum mt temp ps)
  then have h: "series_of_points (\<lambda>n p. Inr (sumPointToTimeSeries env cfg n res extra m mt temp p)) n ps = (Inr (tss, n') :: (go_panic, _) res)"
    using assms(1) by (simp add: metricToTimeSeries_def)
  show ?thesis
  proof (rule series_of_points_all [OF h])
    fix p n ts n'
    assume "p \<in> set ps" "Inr (sumPointToTimeSeries env cfg n res extra m mt temp p) = (Inr (ts, n') :: (go_panic, _) res)"
    then show "list_all (described_by (metricDescriptor env cfg m extra)) ts"
      using sum_described [of ps mt m temp p env cfg extra n res] MSum assms(2) by (simp add: describable_def)
  qed
next
  case (MHistogram temp ps)
  then have h: "series_of_points (\<lambda>n p. histogramToTimeSeries env cfg n res extra m temp pid p) n ps = Inr (tss, n')"
    using assms(1) by (simp add: metricToTimeSeries_def)
  show ?thesis by (rule series_of_points_all [OF h]) (rule histogram_described [OF MHistogram])
next
  case (MExpHistogram temp ps)
  then have h: "series_of_points (\<lambda>n p. Inr (exponentialHistogramToTimeSeries env cfg n res extra m temp pid p)) n ps = (Inr (tss, n') :: (go_panic, _) res)"
    using assms(1) by (simp add: metricToTimeSeries_def)
  show ?thesis
    by (rule series_of_points_all [OF h]) (metis exp_described [OF MExpHistogram] fst_conv sum.inject(2))
next
  case (MSummary ps)
  then have h: "series_of_points (\<lambda>n p. Inr (summaryPointToTimeSeries env cfg n res extra m p)) n ps = (Inr (tss, n') :: (go_panic, _) res)"
    using assms(1) by (simp add: metricToTimeSeries_def)
  show ?thesis
    by (rule series_of_points_all [OF h]) (metis summary_described [OF MSummary] fst_conv sum.inject(2))
qed

lemma series_match_descriptors_witness:
  "list_all (described_by (metricDescriptor example_env example_config example_counter [''zone'' \<mapsto> ''a'']))
     (fst (projr (metricToTimeSeries example_env example_config (StandardNormalizer NewStandardNormalizer)
        example_resource [''zone'' \<mapsto> ''a''] example_counter ''p'')))"
proof -
  have "\<not> isl (metricToTimeSeries example_env example_config (StandardNormalizer NewStandardNormalizer)
        example_resource [''zone'' \<mapsto> ''a''] example_counter ''p'')"
    by (simp add: metricToTimeSeries_def example_counter_def example_metric_def case_prod_beta)
  moreover have "describable example_counter" by code_simp
  ultimately show ?thesis by (rule series_match_descriptors [OF result_of])
qed

text \<open>A non-monotonic integer sum whose unit asks for booleans is sent as boolean time series, while
its metric descriptor says that the values are 64-bit integers.\<close>

theorem boolean_sum_contradicts_descriptor:
  assumes "m_data m = MSum False temp [p]" "m_unit m = specialIntToBoolUnit" "np_value p = NInt i"
    and "\<not> no_recorded_value (np_flags p)" "metricNameToType cfg (m_name m) m = Inr t"
  shows "\<exists>ts d. metricToTimeSeries env cfg n res extra m pid = Inr ([ts], n) \<and> ts_value_type ts = BOOL \<and>
    metricDescriptor env cfg m extra = [d] \<and> md_type d = ts_metric_type ts \<and> md_value_type d = INT64"
  using assms by (simp add: metricToTimeSeries_def sumPointToTimeSeries_def metricDescriptor_def mapMetricPointKind_def
      numberDataPointToValue_def convertToBoolIfMetricKindSupported_def metricPointValueType_def)

definition example_bool_sum :: metric where
  "example_bool_sum = (example_metric (MSum False TCumulative [counter_example_point 5000000 1]))\<lparr>m_unit := specialIntToBoolUnit\<rparr>"

lemma boolean_sum_contradicts_descriptor_witness:
  "\<exists>ts d. metricToTimeSeries example_env example_config DisabledNormalizer example_resource Map.empty example_bool_sum ''p'' =
      Inr ([ts], DisabledNormalizer) \<and> ts_value_type ts = BOOL \<and>
    metricDescriptor example_env example_config example_bool_sum Map.empty = [d] \<and> md_type d = ts_metric_type ts \<and> md_value_type d = INT64"
proof (rule boolean_sum_contradicts_descriptor)
  show "m_data example_bool_sum = MSum False TCumulative [counter_example_point 5000000 1]"
    "m_unit example_bool_sum = specialIntToBoolUnit"
    by (simp_all add: example_bool_sum_def example_metric_def)
  show "np_value (counter_example_point 5000000 1) = NInt 1" "\<not> no_recorded_value (np_flags (counter_example_point 5000000 1))"
    by code_simp+
  show "metricNameToType example_config (m_name example_bool_sum) example_bool_sum =
      Inr (path_join (getMetricNamePrefix example_config (m_name example_bool_sum)) (m_name example_bool_sum))"
    by (simp add: metricNameToType_def example_config_def defaultGetMetricName_def)
qed

subsection \<open>Label keys and values\<close>

definition label_rune :: "unicode_tables \<Rightarrow> nat \<Rightarrow> bool" where
  "label_rune u r \<longleftrightarrow> is_letter u r \<or> is_digit u r \<or> r = 95"

text \<open>A key of letters, digits and underscores whose first byte is not a digit.\<close>

definition label_key_ok :: "unicode_tables \<Rightarrow> string \<Rightarrow> bool" where
  "label_key_ok u k \<longleftrightarrow> list_all (label_rune u) (runes k) \<and> (case k of [] \<Rightarrow> True | c # _ \<Rightarrow> \<not> is_digit u (byte c))"

lemma sanitizeRune_ok: "label_rune u (sanitizeRune u r)"
  by (auto simp: sanitizeRune_def label_rune_def)

lemma sanitizeRune_id: "label_rune u r \<Longrightarrow> sanitizeRune u r = r"
  by (auto simp: sanitizeRune_def label_rune_def)

lemma sanitizeRune_valid: "valid_rune r \<Longrightarrow> valid_rune (sanitizeRune u r)"
  by (auto simp: sanitizeRune_def valid_rune_def)

lemma sanitizeKey_runes:
  obtains rs where "sanitizeKey u s = concat (List.map encode_rune rs)" "list_all valid_rune rs" "list_all (label_rune u) rs"
    "rs = [] \<longleftrightarrow> s = []" "s \<noteq> [] \<longrightarrow> \<not> is_digit u (byte (hd (sanitizeKey u s)))"
proof (cases "s = []")
  case True
  then show thesis by (intro that [of "[]"]) (simp_all add: sanitizeKey_def)
next
  case False
  let ?rs = "List.map (sanitizeRune u) (runes s)"
  have t: "str_map (sanitizeRune u) s = concat (List.map encode_rune ?rs)" by (simp add: str_map_def comp_def)
  have ok: "list_all valid_rune ?rs" "list_all (label_rune u) ?rs"
    by (auto simp: list_all_iff sanitizeRune_ok intro: sanitizeRune_valid runes_valid)
  have ne: "?rs \<noteq> []" using False by (simp add: runes_def segments_step)
  show thesis
  proof (cases "is_digit u (byte (hd (str_map (sanitizeRune u) s)))")
    case True
    have k: "''key_'' = concat (List.map encode_rune [107, 101, 121, 95])"
      by code_simp
    have "sanitizeKey u s = concat (List.map encode_rune ([107, 101, 121, 95] @ ?rs))"
      using True False unfolding sanitizeKey_def Let_def t k by simp
    moreover have "hd (sanitizeKey u s) = CHR ''k''"
      using True False by (simp add: sanitizeKey_def Let_def)
    then have "\<not> is_digit u (byte (hd (sanitizeKey u s)))" by (simp add: is_digit_def)
    moreover have "list_all valid_rune ([107, 101, 121, 95] @ ?rs)" "list_all (label_rune u) ([107, 101, 121, 95] @ ?rs)"
      using ok by (simp_all add: valid_rune_def label_rune_def is_letter_def is_digit_def)
    ultimately show thesis using False by (intro that [of "[107, 101, 121, 95] @ ?rs"]) blast+
  next
    case digit: False
    with False t ne ok show thesis
      by (intro that [of ?rs]) (simp_all add: sanitizeKey_def Let_def)
  qed
qed

text \<open>The label keys made from attributes consist of letters, digits and underscores and do not
begin with a digit byte, sanitizing such a key again changes nothing, and every label value is
valid UTF-8.\<close>

theorem attribute_labels_are_sanitized:
  "dom (attributesToLabels env attrs) \<subseteq> Collect (label_key_ok (me_unicode env)) \<and>
   dom (attributesToLabels env attrs) \<subseteq> {k. sanitizeKey (me_unicode env) k = k} \<and>
   ran (attributesToLabels env attrs) \<subseteq> Collect valid_utf8"
proof -
  have keys: "label_key_ok u (sanitizeKey u s) \<and> sanitizeKey u (sanitizeKey u s) = sanitizeKey u s" for u s
  proof -
    obtain rs where rs: "sanitizeKey u s = concat (List.map encode_rune rs)" "list_all valid_rune rs"
      "list_all (label_rune u) rs" "rs = [] \<longleftrightarrow> s = []" "s \<noteq> [] \<longrightarrow> \<not> is_digit u (byte (hd (sanitizeKey u s)))"
      by (rule sanitizeKey_runes [of u s])
    have runes: "runes (sanitizeKey u s) = rs"
      unfolding rs(1) using rs(2) by (simp add: runes_concat_encode list_all_iff)
    have "str_map (sanitizeRune u) (sanitizeKey u s) = sanitizeKey u s"
      unfolding str_map_def runes unfolding rs(1) using rs(3)
      by (simp add: list_all_iff sanitizeRune_id cong: map_cong)
    moreover have "sanitizeKey u s = [] \<longleftrightarrow> s = []"
      using runes rs(4) by (auto simp: runes_def sanitizeKey_def segments_step)
    ultimately show ?thesis using rs(3,5) runes
      by (cases "s = []") (auto simp: label_key_ok_def sanitizeKey_def Let_def split: list.split)
  qed
  have "k \<in> sanitizeKey (me_unicode env) ` UNIV" if "k \<in> dom (attributesToLabels env attrs)" for k
    using that by (auto simp: attributesToLabels_def dom_put_all)
  moreover have "valid_utf8 v" if "v \<in> ran (attributesToLabels env attrs)" for v
    using that by (auto simp: attributesToLabels_def ran_def sanitizeUTF8_valid dest!: put_all_ran)
  ultimately show ?thesis using keys by fastforce
qed

subsection \<open>Metric types\<close>

text \<open>With the default naming and plain names, a metric whose name contains a known domain keeps its
name as its type, and any other metric's type is its name below the configured prefix.\<close>

theorem metric_type_of_plain_name:
  assumes "plain_path name" "plain_path (mc_prefix cfg)" "mc_get_metric_name cfg = defaultGetMetricName"
  shows "metricNameToType cfg name m =
    Inr (if list_ex (str_contains name) (mc_known_domains cfg) then name else mc_prefix cfg @ slash # name)"
proof -
  have "path_join [] name = name" using assms(1) by (auto simp: path_join_def path_clean_plain)
  with assms show ?thesis
    by (auto simp: metricNameToType_def defaultGetMetricName_def getMetricNamePrefix_def path_join_plain list_ex_iff)
qed

lemma metric_type_of_plain_name_witness:
  "metricNameToType example_config ''requests'' example_counter =
    Inr (if list_ex (str_contains ''requests'') (mc_known_domains example_config) then ''requests''
         else mc_prefix example_config @ slash # ''requests'')"
proof (rule metric_type_of_plain_name)
  show "plain_path ''requests''" "plain_path (mc_prefix example_config)" by code_simp+
qed (simp add: example_config_def)

subsection \<open>Label descriptors\<close>

lemma addAttributes_spec:
  assumes "addAttributes u ks result seen = (result', seen')"
  shows "\<exists>new. result' = result @ List.map plain_label new \<and> distinct new \<and> set new \<inter> seen = {} \<and>
    seen' = seen \<union> set new \<and> set new = sanitizeKey u ` set ks - seen"
  using assms
proof (induction u ks result seen arbitrary: result' seen' rule: addAttributes.induct)
  case (2 u k ks result seen)
  show ?case
  proof (cases "sanitizeKey u k \<in> seen")
    case True
    with 2 show ?thesis by auto
  next
    case False
    with "2.IH"(2) "2.prems" obtain new where "result' = result @ [plain_label (sanitizeKey u k)] @ List.map plain_label new"
      "distinct new" "set new \<inter> insert (sanitizeKey u k) seen = {}"
      "seen' = insert (sanitizeKey u k) seen \<union> set new" "set new = sanitizeKey u ` set ks - insert (sanitizeKey u k) seen"
      by fastforce
    with False show ?thesis by (intro exI [of _ "sanitizeKey u k # new"]) auto
  qed
qed simp

lemma fold_addAttributes:
  "\<exists>new. foldl (\<lambda>(result, seen) attrs. addAttributes u (List.map fst attrs) result seen) (result, seen) (as :: pmap list) =
      (result @ List.map plain_label new, seen \<union> set new) \<and> distinct new \<and> set new \<inter> seen = {} \<and>
    set new = sanitizeKey u ` (\<Union>attrs \<in> set as. fst ` set attrs) - seen"
proof (induction as arbitrary: result seen)
  case (Cons attrs as)
  obtain r1 s1 where 1: "addAttributes u (List.map fst attrs) result seen = (r1, s1)" by fastforce
  from addAttributes_spec [OF this] obtain new where new: "r1 = result @ List.map plain_label new" "distinct new"
    "set new \<inter> seen = {}" "s1 = seen \<union> set new" "set new = sanitizeKey u ` fst ` set attrs - seen"
    by auto
  from Cons.IH [of r1 s1] obtain new' where
    "foldl (\<lambda>(result, seen) attrs. addAttributes u (List.map fst attrs) result seen) (r1, s1) as =
      (r1 @ List.map plain_label new', s1 \<union> set new')" "distinct new'" "set new' \<inter> s1 = {}"
    "set new' = sanitizeKey u ` (\<Union>attrs \<in> set as. fst ` set attrs) - s1" by blast
  moreover have "sanitizeKey u ` (\<Union>x \<in> set (attrs # as). fst ` set x) =
      sanitizeKey u ` fst ` set attrs \<union> sanitizeKey u ` (\<Union>x \<in> set as. fst ` set x)"
    by (simp add: image_Un)
  ultimately have "foldl (\<lambda>(result, seen) attrs. addAttributes u (List.map fst attrs) result seen) (result, seen) (attrs # as) =
      (result @ List.map plain_label (new @ new'), seen \<union> set (new @ new')) \<and> distinct (new @ new') \<and>
      set (new @ new') \<inter> seen = {} \<and> set (new @ new') = sanitizeKey u ` (\<Union>x \<in> set (attrs # as). fst ` set x) - seen"
    using 1 new(1-4) new(5) by (simp add: Un_assoc) blast
  then show ?case by blast
qed simp

text \<open>The label descriptors of a metric are those of the extra labels, in the order the runtime ranges
over them, followed by one for every sanitized attribute key of the points, each exactly once among
the latter; so a key that is both an extra label and an attribute has two descriptors.\<close>

theorem label_descriptors_of_metric:
  "\<exists>new. labelDescriptors env m extra =
      List.map plain_label (List.map (sanitizeKey (me_unicode env)) (me_order env extra) @ new) \<and>
    distinct new \<and>
    set new = sanitizeKey (me_unicode env) ` (\<Union>attrs \<in> set (data_attributes (m_data m)). fst ` set attrs)"
  using fold_addAttributes [of "me_unicode env"
      "List.map (\<lambda>k. plain_label (sanitizeKey (me_unicode env) k)) (me_order env extra)" "{}" "data_attributes (m_data m)"]
  by (auto simp: labelDescriptors_def comp_def)

end
