(* ===== verification/MetricsExporter.thy ===== *)
theory MetricsExporter
  imports MetricMapper
begin

text \<open>
  The metrics exporter (the \<open>MetricsExporter\<close> part of exporter/collector/metrics.go): grouping time
  series by project, batching, direct export or the write-ahead log, the retry loop that empties
  the log, the counters of exported points, and the cache of metric descriptors already sent. The
  monitoring client, the log library and protobuf marshalling are arguments: functions that
  thread their own state. What the exporter relies on of the log library is \<open>wal_lawful\<close>.
\<close>

subsection \<open>Requests and outcomes of calls\<close>

record ts_request =
  rq_name :: string
  rq_series :: "time_series list"

record md_request =
  mq_name :: string
  mq_descriptor :: metric_descriptor

datatype grpc_code = OK | Canceled | Unknown | InvalidArgument | DeadlineExceeded | NotFound
  | AlreadyExists | PermissionDenied | ResourceExhausted | FailedPrecondition | Aborted | OutOfRange
  | Unimplemented | Internal | Unavailable | DataLoss | Unauthenticated | OtherCode nat

text \<open>What \<open>status.Convert\<close> makes of a call's error (\<open>OK\<close> of a nil one), with the
\<open>CreateTimeSeriesSummary\<close> details: total and successful points.\<close>

record grpc_status =
  gs_code :: grpc_code
  gs_summaries :: "(i32 \<times> i32) list"

definition status_ok :: grpc_status where
  "status_ok = \<lparr>gs_code = OK, gs_summaries = []\<rparr>"

fun statusCodeToString :: "grpc_code \<Rightarrow> string" where
  "statusCodeToString OK = ''OK''"
| "statusCodeToString Canceled = ''CANCELLED''"
| "statusCodeToString Unknown = ''UNKNOWN''"
| "statusCodeToString InvalidArgument = ''INVALID_ARGUMENT''"
| "statusCodeToString DeadlineExceeded = ''DEADLINE_EXCEEDED''"
| "statusCodeToString NotFound = ''NOT_FOUND''"
| "statusCodeToString AlreadyExists = ''ALREADY_EXISTS''"
| "statusCodeToString PermissionDenied = ''PERMISSION_DENIED''"
| "statusCodeToString ResourceExhausted = ''RESOURCE_EXHAUSTED''"
| "statusCodeToString FailedPrecondition = ''FAILED_PRECONDITION''"
| "statusCodeToString Aborted = ''ABORTED''"
| "statusCodeToString OutOfRange = ''OUT_OF_RANGE''"
| "statusCodeToString Unimplemented = ''UNIMPLEMENTED''"
| "statusCodeToString Internal = ''INTERNAL''"
| "statusCodeToString Unavailable = ''UNAVAILABLE''"
| "statusCodeToString DataLoss = ''DATA_LOSS''"
| "statusCodeToString Unauthenticated = ''UNAUTHENTICATED''"
| "statusCodeToString (OtherCode n) = ''CODE_'' @ show_nat n"

definition isNotRecoverable :: "grpc_status \<Rightarrow> bool" where
  "isNotRecoverable s \<longleftrightarrow> gs_code s \<noteq> DeadlineExceeded \<and> gs_code s \<noteq> Unavailable"

definition isEmptyReq :: "ts_request \<Rightarrow> bool" where
  "isEmptyReq r \<longleftrightarrow> rq_name r = [] \<and> rq_series r = []"

definition projectName :: "string \<Rightarrow> string" where
  "projectName p = ''projects/'' @ p"

subsection \<open>Configuration, client and state\<close>

record wal_config =
  wc_directory :: string
  wc_max_backoff :: int

text \<open>\<open>ec_map_resource\<close> and \<open>ec_extra_metrics\<close> are functions of the user too, taken to return.\<close>

record exporter_config =
  ec_project :: string
  ec_mapper :: mapper_config
  ec_map_resource :: "pmap \<Rightarrow> monitored_resource"
  ec_extra_metrics :: "(resource_metrics list \<Rightarrow> resource_metrics list) option"
  ec_service_labels :: bool
  ec_filters :: "compiled_filter list"
  ec_skip_descriptor :: bool
  ec_service_series :: bool
  ec_destination_quota :: bool
  ec_buffer_size :: nat
  ec_wal :: "wal_config option"

datatype series_call = CreateTimeSeries | CreateServiceTimeSeries

text \<open>A call gets the project to charge, if the options of the exporter set one.\<close>

record 'c monitoring_client =
  cl_series :: "series_call \<Rightarrow> string option \<Rightarrow> ts_request \<Rightarrow> 'c \<Rightarrow> grpc_status \<times> 'c"
  cl_descriptor :: "string option \<Rightarrow> md_request \<Rightarrow> 'c \<Rightarrow> grpc_status \<times> 'c"

record 'c exporter =
  ex_client :: 'c
  ex_normalizer :: any_normalizer
  ex_descriptors :: "md_request list"
  ex_cache :: "string \<rightharpoonup> md_request"
  ex_counter :: "(string \<times> int) list"

text \<open>The option of \<open>NewGoogleCloudMetricsExporter\<close> that charges the destination project.\<close>

definition quota_project :: "exporter_config \<Rightarrow> string \<Rightarrow> string option" where
  "quota_project cfg name = (if ec_destination_quota cfg then Some (trim_prefix name ''projects/'') else None)"

definition createTimeSeries :: "exporter_config \<Rightarrow> 'c monitoring_client \<Rightarrow> ts_request \<Rightarrow> 'c \<Rightarrow> grpc_status \<times> 'c" where
  "createTimeSeries cfg cl req c = cl_series cl CreateTimeSeries (quota_project cfg (rq_name req)) req c"

definition createServiceTimeSeries :: "exporter_config \<Rightarrow> 'c monitoring_client \<Rightarrow> ts_request \<Rightarrow> 'c \<Rightarrow> grpc_status \<times> 'c" where
  "createServiceTimeSeries cfg cl req c = cl_series cl CreateServiceTimeSeries (quota_project cfg (rq_name req)) req c"

definition exportToTimeSeries :: "exporter_config \<Rightarrow> 'c monitoring_client \<Rightarrow> ts_request \<Rightarrow> 'c \<Rightarrow> grpc_status \<times> 'c" where
  "exportToTimeSeries cfg cl req c =
     (if ec_service_series cfg then createServiceTimeSeries cfg cl req c else createTimeSeries cfg cl req c)"

lemma exportToTimeSeries_call:
  "exportToTimeSeries cfg cl req c =
     cl_series cl (if ec_service_series cfg then CreateServiceTimeSeries else CreateTimeSeries)
       (quota_project cfg (rq_name req)) req c"
  by (simp add: exportToTimeSeries_def createTimeSeries_def createServiceTimeSeries_def)

text \<open>The loop over the status details keeps the last summary; the difference is an \<open>int32\<close>.\<close>

definition point_counts :: "ts_request \<Rightarrow> grpc_status \<Rightarrow> int \<times> int" where
  "point_counts req s =
     foldl (\<lambda>acc (total, success). (sint success, sint (total - success)))
       (int (length (rq_series req)), 0) (gs_summaries s)"

definition counter_add :: "(string \<times> int) list \<Rightarrow> grpc_status \<Rightarrow> int \<times> int \<Rightarrow> (string \<times> int) list" where
  "counter_add past s counts = (case counts of (succeeded, failed) \<Rightarrow>
     past @ [(''OK'', succeeded)] @ (if 0 < failed then [(statusCodeToString (gs_code s), failed)] else []))"

text \<open>\<open>export\<close>: \<open>None\<close> is a nil error.\<close>

definition export_request :: "exporter_config \<Rightarrow> 'c monitoring_client \<Rightarrow> ts_request \<Rightarrow> 'c exporter \<Rightarrow>
    grpc_status option \<times> 'c exporter" where
  "export_request cfg cl req me =
     (if isEmptyReq req then (None, me)
      else
        let (s, c) = exportToTimeSeries cfg cl req (ex_client me) in
        (if gs_code s = OK then None else Some s,
         me\<lparr>ex_client := c, ex_counter := counter_add (ex_counter me) s (point_counts req s)\<rparr>))"

subsection \<open>Grouping by project\<close>

text \<open>A send on the buffered channel that drops when the buffer is full.\<close>

definition offer_descriptor :: "exporter_config \<Rightarrow> md_request \<Rightarrow> 'c exporter \<Rightarrow> 'c exporter" where
  "offer_descriptor cfg req me =
     (if length (ex_descriptors me) < ec_buffer_size cfg
      then me\<lparr>ex_descriptors := ex_descriptors me @ [req]\<rparr> else me)"

type_synonym pending = "string \<rightharpoonup> time_series list"

definition add_pending :: "pending \<Rightarrow> string \<Rightarrow> time_series list \<Rightarrow> pending" where
  "add_pending pd p tss = pd(p \<mapsto> (case pd p of Some old \<Rightarrow> old | None \<Rightarrow> []) @ tss)"

text \<open>What \<open>PushMetrics\<close> does with the series of a metric and the normalizer that mapping it left.\<close>

definition queue_metric :: "mapper_env \<Rightarrow> exporter_config \<Rightarrow> labels \<Rightarrow> string \<Rightarrow> metric \<Rightarrow>
    pending \<times> 'c exporter \<Rightarrow> time_series list \<times> any_normalizer \<Rightarrow> pending \<times> 'c exporter" where
  "queue_metric env cfg ls pid m st r =
     (let me = (snd st)\<lparr>ex_normalizer := snd r\<rparr> in
     (add_pending (fst st) pid (fst r), if ec_skip_descriptor cfg \<or> ec_service_series cfg then me
       else foldl (\<lambda>me d. offer_descriptor cfg \<lparr>mq_name = projectName pid, mq_descriptor = d\<rparr> me) me
              (metricDescriptor env (ec_mapper cfg) m ls)))"

definition push_metric :: "mapper_env \<Rightarrow> exporter_config \<Rightarrow> monitored_resource \<Rightarrow> labels \<Rightarrow> string \<Rightarrow> metric \<Rightarrow>
    pending \<times> 'c exporter \<Rightarrow> (go_panic, pending \<times> 'c exporter) res" where
  "push_metric env cfg res ls pid m st =
     res_bind (metricToTimeSeries env (ec_mapper cfg) (ex_normalizer (snd st)) res ls m pid) (\<lambda>r.
       Inr (queue_metric env cfg ls pid m st r))"

fun fold_res :: "('a \<Rightarrow> 's \<Rightarrow> ('e, 's) res) \<Rightarrow> 'a list \<Rightarrow> 's \<Rightarrow> ('e, 's) res" where
  "fold_res f [] s = Inr s"
| "fold_res f (x # xs) s = res_bind (f x s) (fold_res f xs)"

lemma fold_res_single: "fold_res f [x] s = f x s"
  by (cases "f x s") simp_all

definition resource_project :: "mapper_env \<Rightarrow> exporter_config \<Rightarrow> pmap \<Rightarrow> string" where
  "resource_project env cfg attrs = (case pmap_get attrs ''gcp.project.id'' of
     Some v \<Rightarrow> me_as_string env v | None \<Rightarrow> ec_project cfg)"

definition push_scope :: "mapper_env \<Rightarrow> exporter_config \<Rightarrow> pmap \<Rightarrow> scope_metrics \<Rightarrow>
    pending \<times> 'c exporter \<Rightarrow> (go_panic, pending \<times> 'c exporter) res" where
  "push_scope env cfg resource sm =
     (let extra = attributesToLabels env
            (filterAttributes (me_as_string env) resource (ec_service_labels cfg) (ec_filters cfg));
          ls = mergeLabels Map.empty [instrumentationScopeToLabels (ec_mapper cfg) (sm_scope sm), extra]
      in fold_res (push_metric env cfg (ec_map_resource cfg resource) ls (resource_project env cfg resource))
           (sm_metrics sm))"

definition push_resource :: "mapper_env \<Rightarrow> exporter_config \<Rightarrow> resource_metrics \<Rightarrow>
    pending \<times> 'c exporter \<Rightarrow> (go_panic, pending \<times> 'c exporter) res" where
  "push_resource env cfg rm = fold_res (push_scope env cfg (rm_resource rm)) (rm_scopes rm)"

definition gather :: "mapper_env \<Rightarrow> exporter_config \<Rightarrow> resource_metrics list \<Rightarrow> 'c exporter \<Rightarrow>
    (go_panic, pending \<times> 'c exporter) res" where
  "gather env cfg rms me =
     fold_res (push_resource env cfg)
       (case ec_extra_metrics cfg of Some f \<Rightarrow> f rms | None \<Rightarrow> rms) (Map.empty, me)"

subsection \<open>Batching\<close>

definition sendBatchSize :: nat where
  "sendBatchSize = 200"

definition project_requests :: "string \<Rightarrow> time_series list \<Rightarrow> ts_request list" where
  "project_requests pid tss =
     List.map (\<lambda>ts. \<lparr>rq_name = projectName pid, rq_series = ts\<rparr>) (chunks sendBatchSize tss)"

text \<open>\<open>pids\<close> is the order in which the runtime ranges over the pending map.\<close>

definition requests_of :: "string list \<Rightarrow> pending \<Rightarrow> ts_request list" where
  "requests_of pids pd =
     concat (List.map (\<lambda>p. project_requests p (case pd p of Some tss \<Rightarrow> tss | None \<Rightarrow> [])) pids)"

fun export_all :: "exporter_config \<Rightarrow> 'c monitoring_client \<Rightarrow> ts_request list \<Rightarrow> 'c exporter \<Rightarrow>
    grpc_status list \<times> 'c exporter" where
  "export_all cfg cl [] me = ([], me)"
| "export_all cfg cl (r # rs) me =
     (let (e, me) = export_request cfg cl r me; (es, me) = export_all cfg cl rs me
      in ((case e of Some s \<Rightarrow> [s] | None \<Rightarrow> []) @ es, me))"

text \<open>
  The part of \<open>PushMetrics\<close> of an exporter that has a client and no log (\<open>ExportLog\<close> has the whole
  method); \<open>order\<close> ranges over the pending map, the result is the list of errors that \<open>errors.Join\<close>
  joins (none: nil).
\<close>

definition PushMetricsDirectly :: "mapper_env \<Rightarrow> exporter_config \<Rightarrow> 'c monitoring_client \<Rightarrow> (pending \<Rightarrow> string list) \<Rightarrow>
    resource_metrics list \<Rightarrow> 'c exporter \<Rightarrow> (go_panic, grpc_status list \<times> 'c exporter) res" where
  "PushMetricsDirectly env cfg cl order rms me =
     res_bind (gather env cfg rms me) (\<lambda>(pd, me). Inr (export_all cfg cl (requests_of (order pd) pd) me))"

subsection \<open>Metric descriptors, once\<close>

definition descriptor_key :: "md_request \<Rightarrow> string" where
  "descriptor_key req = mq_name req @ ''/'' @ md_type (mq_descriptor req)"

definition exportMetricDescriptor :: "exporter_config \<Rightarrow> 'c monitoring_client \<Rightarrow> md_request \<Rightarrow> 'c exporter \<Rightarrow> 'c exporter" where
  "exportMetricDescriptor cfg cl req me =
     (if ex_cache me (descriptor_key req) \<noteq> None then me
      else
        let (s, c) = cl_descriptor cl (quota_project cfg (mq_name req)) req (ex_client me);
            me = me\<lparr>ex_client := c\<rparr> in
        if gs_code s \<noteq> OK \<and> \<not> isNotRecoverable s then me
        else me\<lparr>ex_cache := (ex_cache me)(descriptor_key req \<mapsto> req)\<rparr>)"

text \<open>
  One turn of \<open>exportMetricDescriptorRunner\<close>: it takes the next request off the channel; at
  shutdown it takes turns until the channel is empty.
\<close>

definition descriptor_turn :: "exporter_config \<Rightarrow> 'c monitoring_client \<Rightarrow> 'c exporter \<Rightarrow> 'c exporter" where
  "descriptor_turn cfg cl me = (case ex_descriptors me of
     [] \<Rightarrow> me
   | req # reqs \<Rightarrow> exportMetricDescriptor cfg cl req (me\<lparr>ex_descriptors := reqs\<rparr>))"

definition descriptor_shutdown :: "exporter_config \<Rightarrow> 'c monitoring_client \<Rightarrow> 'c exporter \<Rightarrow> 'c exporter" where
  "descriptor_shutdown cfg cl me = (descriptor_turn cfg cl ^^ length (ex_descriptors me)) me"

subsection \<open>What gathering leaves alone\<close>

lemma fold_res_invariant:
  assumes "fold_res f xs s = Inr s'" "I s" "\<And>x s s'. I s \<Longrightarrow> f x s = Inr s' \<Longrightarrow> I s'"
  shows "I s'"
  using assms by (induction xs arbitrary: s) (auto simp: res_bind_Inr_iff)

lemma offers_frame [frame]:
  "ex_client (foldl (\<lambda>me d. offer_descriptor cfg (mk d) me) me ds) = ex_client me"
  "ex_counter (foldl (\<lambda>me d. offer_descriptor cfg (mk d) me) me ds) = ex_counter me"
  "ex_cache (foldl (\<lambda>me d. offer_descriptor cfg (mk d) me) me ds) = ex_cache me"
  "ex_normalizer (foldl (\<lambda>me d. offer_descriptor cfg (mk d) me) me ds) = ex_normalizer me"
  by (induction ds arbitrary: me) (simp_all add: offer_descriptor_def)

lemma push_metric_client:
  assumes "push_metric env cfg res ls pid m st = Inr st'"
  shows "ex_client (snd st') = ex_client (snd st)"
  using assms by (auto simp: push_metric_def queue_metric_def res_bind_Inr_iff Let_def frame split: prod.splits if_splits)

lemma gather_client:
  assumes "gather env cfg rms me = Inr (pd, me')"
  shows "ex_client me' = ex_client me"
proof -
  let ?I = "\<lambda>st. ex_client (snd st) = ex_client me"
  have metric: "?I st'" if "?I st" "push_metric env cfg res ls pid m st = Inr st'" for res ls pid m st st'
    using that push_metric_client by metis
  have scope: "?I st'" if "?I st" "push_scope env cfg r sm st = Inr st'" for r sm st st'
    using that unfolding push_scope_def Let_def by (elim fold_res_invariant) (auto dest: push_metric_client)
  have resource: "?I st'" if "?I st" "push_resource env cfg rm st = Inr st'" for rm st st'
    using that unfolding push_resource_def by (elim fold_res_invariant) (auto dest: scope)
  have "?I (pd, me')"
    using assms unfolding gather_def by (rule fold_res_invariant [where I = ?I]) (auto dest: resource)
  then show ?thesis by simp
qed

subsection \<open>A client that keeps a record\<close>

text \<open>The calls a client received, in order, kept beside its own state.\<close>

datatype client_call = SeriesCall series_call "string option" ts_request | DescriptorCall "string option" md_request

definition recording :: "'c monitoring_client \<Rightarrow> ('c \<times> client_call list) monitoring_client" where
  "recording cl = \<lparr>
     cl_series = (\<lambda>k q r (c, past). let (s, c) = cl_series cl k q r c in (s, c, past @ [SeriesCall k q r])),
     cl_descriptor = (\<lambda>q r (c, past). let (s, c) = cl_descriptor cl q r c in (s, c, past @ [DescriptorCall q r]))\<rparr>"

definition calls_of :: "('c \<times> client_call list) exporter \<Rightarrow> client_call list" where
  "calls_of me = snd (ex_client me)"

definition sent_as :: "exporter_config \<Rightarrow> ts_request \<Rightarrow> client_call" where
  "sent_as cfg r = SeriesCall (if ec_service_series cfg then CreateServiceTimeSeries else CreateTimeSeries)
     (quota_project cfg (rq_name r)) r"

lemma export_recorded:
  "calls_of (snd (export_request cfg (recording cl) r me)) =
     calls_of me @ (if isEmptyReq r then [] else [sent_as cfg r])"
  by (simp add: export_request_def exportToTimeSeries_call recording_def calls_of_def sent_as_def
      case_prod_beta Let_def)

lemma export_all_recorded:
  "calls_of (snd (export_all cfg (recording cl) rs me)) =
     calls_of me @ List.map (sent_as cfg) (filter (\<lambda>r. \<not> isEmptyReq r) rs)"
  by (induction rs arbitrary: me) (simp_all add: case_prod_beta Let_def export_recorded)

subsection \<open>Requests and their series\<close>

lemma project_requests_series:
  "concat (List.map rq_series (project_requests p tss)) = tss"
  by (simp add: project_requests_def comp_def concat_chunks sendBatchSize_def)

lemma project_requests_bounds:
  "r \<in> set (project_requests p tss) \<Longrightarrow>
     rq_name r = projectName p \<and> 0 < length (rq_series r) \<and> length (rq_series r) \<le> sendBatchSize"
  by (auto simp: project_requests_def dest: chunks_size)

lemma projectName_inj [simp]: "projectName p = projectName q \<longleftrightarrow> p = q"
  by (simp add: projectName_def)

lemma projectName_ne [simp]: "projectName p \<noteq> []"
  by (simp add: projectName_def)

lemma requests_of_project:
  assumes "distinct pids" "p \<in> set pids"
  shows "filter (\<lambda>r. rq_name r = projectName p) (requests_of pids pd) =
    project_requests p (case pd p of Some tss \<Rightarrow> tss | None \<Rightarrow> [])"
proof -
  have same: "filter (\<lambda>r. rq_name r = projectName p) (project_requests p tss) = project_requests p tss" for tss
    using project_requests_bounds by (intro filter_True) blast
  have other: "filter (\<lambda>r. rq_name r = projectName p) (project_requests q tss) = []" if "q \<noteq> p" for q tss
    using that project_requests_bounds by (fastforce simp: filter_empty_conv)
  have none: "filter (\<lambda>r. rq_name r = projectName p) (requests_of qs pd) = []" if "p \<notin> set qs" for qs
    using that by (induction qs) (auto simp: requests_of_def other)
  show ?thesis using assms
  proof (induction pids)
    case (Cons q qs)
    have split: "requests_of (q # qs) pd =
        project_requests q (case pd q of Some tss \<Rightarrow> tss | None \<Rightarrow> []) @ requests_of qs pd"
      by (simp add: requests_of_def)
    from Cons show ?case
      unfolding split by (cases "q = p") (simp_all add: same other none)
  qed simp
qed

text \<open>C14. Every time series that was gathered is sent exactly once: when \<open>PushMetrics\<close> returns, the calls
made are one per request, no request has more than 200 or fewer than one series, each goes to the
project of its series, and the series of a project, request after request, are the gathered ones in
their order.\<close>

theorem push_sends_every_series_once:
  assumes "PushMetricsDirectly env cfg (recording cl) order rms me = Inr (errs, me')"
    and "gather env cfg rms me = Inr (pd, me1)" "ranges_over (order pd) pd" "pd p = Some tss"
  shows "\<exists>reqs. calls_of me' = calls_of me @ List.map (sent_as cfg) reqs \<and>
    list_all (\<lambda>r. 0 < length (rq_series r) \<and> length (rq_series r) \<le> 200 \<and> rq_name r \<in> projectName ` dom pd) reqs \<and>
    concat (List.map rq_series (filter (\<lambda>r. rq_name r = projectName p) reqs)) = tss"
proof (intro exI conjI)
  let ?reqs = "requests_of (order pd) pd"
  have ok: "list_all (\<lambda>r. 0 < length (rq_series r) \<and> length (rq_series r) \<le> 200 \<and> rq_name r \<in> projectName ` dom pd) ?reqs"
    using assms(3) project_requests_bounds
    by (fastforce simp: list_all_iff requests_of_def sendBatchSize_def ranges_over_def)
  then show "list_all (\<lambda>r. 0 < length (rq_series r) \<and> length (rq_series r) \<le> 200 \<and> rq_name r \<in> projectName ` dom pd) ?reqs" .
  have "filter (\<lambda>r. \<not> isEmptyReq r) ?reqs = ?reqs"
    using ok by (intro filter_True) (auto simp: list_all_iff isEmptyReq_def)
  moreover have "me' = snd (export_all cfg (recording cl) ?reqs me1)"
    using assms(1,2) by (simp add: PushMetricsDirectly_def prod_eq_iff)
  ultimately show "calls_of me' = calls_of me @ List.map (sent_as cfg) ?reqs"
    using gather_client [OF assms(2)] by (simp add: export_all_recorded) (simp add: calls_of_def)
  show "concat (List.map rq_series (filter (\<lambda>r. rq_name r = projectName p) ?reqs)) = tss"
    using assms(3,4) by (subst requests_of_project) (auto simp: ranges_over_def project_requests_series)
qed

definition accepting_client :: "unit monitoring_client" where
  "accepting_client = \<lparr>cl_series = (\<lambda>k q r c. (status_ok, c)), cl_descriptor = (\<lambda>q r c. (status_ok, c))\<rparr>"

definition example_exporter_config :: exporter_config where
  "example_exporter_config = \<lparr>ec_project = ''p'', ec_mapper = example_config,
     ec_map_resource = (\<lambda>attrs. example_resource), ec_extra_metrics = None, ec_service_labels = True,
     ec_filters = [], ec_skip_descriptor = False, ec_service_series = False, ec_destination_quota = True,
     ec_buffer_size = 10, ec_wal = None\<rparr>"

definition fresh_exporter :: "'c \<Rightarrow> any_normalizer \<Rightarrow> 'c exporter" where
  "fresh_exporter c n = \<lparr>ex_client = c, ex_normalizer = n, ex_descriptors = [], ex_cache = Map.empty, ex_counter = []\<rparr>"

definition example_gauge :: metric where
  "example_gauge = example_metric (MGauge [counter_example_point 5000000 10])"

definition example_resources :: "resource_metrics list" where
  "example_resources = [\<lparr>rm_resource = [], rm_scopes = [\<lparr>sm_scope = \<lparr>scope_name = ''s'', scope_version = [], scope_attrs = []\<rparr>,
     sm_metrics = [example_gauge]\<rparr>]\<rparr>]"

lemma gather_example:
  "\<exists>ts me'. gather example_env example_exporter_config example_resources me = Inr ([''p'' \<mapsto> [ts]], me')"
proof -
  have name: "\<exists>t. metricNameToType example_config (m_name m) m = Inr t" for m
    by (simp add: metricNameToType_def example_config_def defaultGetMetricName_def)
  have series: "\<exists>ts. metricToTimeSeries example_env example_config n res ls example_gauge pid = Inr ([ts], n)" for n res ls pid
    using name [of example_gauge]
    by (auto simp: metricToTimeSeries_def gaugePointToTimeSeries_def example_gauge_def example_metric_def case_prod_beta
        counter_example_point_def new_number_point_def no_recorded_value_def)
  have push: "\<exists>ts me'. push_metric example_env example_exporter_config example_resource ls ''p'' example_gauge (Map.empty, me) =
      Inr ([''p'' \<mapsto> [ts]], me')" for ls
    using series [of "ex_normalizer me" example_resource ls "''p''"]
    by (auto simp: push_metric_def queue_metric_def example_exporter_config_def add_pending_def Let_def)
  have "\<exists>ls. gather example_env example_exporter_config example_resources me =
      push_metric example_env example_exporter_config example_resource ls ''p'' example_gauge (Map.empty, me)"
    by (auto simp: gather_def push_resource_def push_scope_def example_resources_def fold_res_single
        example_exporter_config_def resource_project_def pmap_get_def Let_def simp del: fold_res.simps)
  with push show ?thesis by metis
qed

lemma push_returns:
  "gather env cfg rms me = Inr (pd, me1) \<Longrightarrow> \<exists>errs me'. PushMetricsDirectly env cfg cl order rms me = Inr (errs, me')"
  by (cases "export_all cfg cl (requests_of (order pd) pd) me1") (simp add: PushMetricsDirectly_def)

lemma push_sends_every_series_once_witness:
  "\<exists>errs me' ts reqs. PushMetricsDirectly example_env example_exporter_config (recording accepting_client)
      (\<lambda>pd. sorted_list_of_set (dom pd)) example_resources (fresh_exporter ((), []) DisabledNormalizer) = Inr (errs, me') \<and>
    calls_of me' = calls_of (fresh_exporter ((), []) DisabledNormalizer) @ List.map (sent_as example_exporter_config) reqs \<and>
    concat (List.map rq_series (filter (\<lambda>r. rq_name r = projectName ''p'') reqs)) = [ts]"
proof -
  let ?me = "fresh_exporter ((), [] :: client_call list) DisabledNormalizer"
  let ?order = "\<lambda>pd :: pending. sorted_list_of_set (dom pd)"
  obtain ts me1 where g: "gather example_env example_exporter_config example_resources ?me = Inr ([''p'' \<mapsto> [ts]], me1)"
    using gather_example by blast
  obtain errs me' where p: "PushMetricsDirectly example_env example_exporter_config (recording accepting_client) ?order
      example_resources ?me = Inr (errs, me')"
    using push_returns [OF g] by meson
  have "ranges_over (?order [''p'' \<mapsto> [ts]]) [''p'' \<mapsto> [ts]]" by (simp add: ranges_over_def)
  from push_sends_every_series_once [OF p g this, of "''p''" "[ts]"] p show ?thesis by auto
qed

text \<open>The outcomes of the calls for a list of requests, the client's state threaded through.\<close>

fun statuses :: "exporter_config \<Rightarrow> 'c monitoring_client \<Rightarrow> ts_request list \<Rightarrow> 'c \<Rightarrow> grpc_status list" where
  "statuses cfg cl [] c = []"
| "statuses cfg cl (r # rs) c =
     (let (s, c) = exportToTimeSeries cfg cl r c in s # statuses cfg cl rs c)"

lemma export_all_errors:
  "list_all (\<lambda>r. \<not> isEmptyReq r) rs \<Longrightarrow>
   fst (export_all cfg cl rs me) = filter (\<lambda>s. gs_code s \<noteq> OK) (statuses cfg cl rs (ex_client me))"
  by (induction rs arbitrary: me)
    (auto simp: export_request_def case_prod_beta Let_def)

text \<open>\<open>PushMetrics\<close> reports an error for exactly the requests whose call did not succeed, in the order of
the calls, and goes on with the remaining requests after a failure.\<close>

theorem push_reports_failed_requests:
  assumes "PushMetricsDirectly env cfg cl order rms me = Inr (errs, me')" "gather env cfg rms me = Inr (pd, me1)"
  shows "errs = filter (\<lambda>s. gs_code s \<noteq> OK) (statuses cfg cl (requests_of (order pd) pd) (ex_client me))"
proof -
  have "list_all (\<lambda>r. \<not> isEmptyReq r) (requests_of (order pd) pd)"
    by (auto simp: list_all_iff requests_of_def isEmptyReq_def dest!: project_requests_bounds)
  from export_all_errors [OF this, of cfg cl me1] gather_client [OF assms(2)] assms(1)
  show ?thesis by (simp add: PushMetricsDirectly_def assms(2) prod_eq_iff)
qed

definition refusing_client :: "unit monitoring_client" where
  "refusing_client = \<lparr>cl_series = (\<lambda>k q r c. (\<lparr>gs_code = Unavailable, gs_summaries = []\<rparr>, c)),
     cl_descriptor = (\<lambda>q r c. (status_ok, c))\<rparr>"

lemma push_reports_failed_requests_witness:
  "\<exists>errs me' ts. PushMetricsDirectly example_env example_exporter_config refusing_client (\<lambda>pd. [''p''])
      example_resources (fresh_exporter () DisabledNormalizer) = Inr (errs, me') \<and>
    errs = filter (\<lambda>s. gs_code s \<noteq> OK) (statuses example_exporter_config refusing_client
      (requests_of [''p''] [''p'' \<mapsto> [ts]]) (ex_client (fresh_exporter () DisabledNormalizer)))"
proof -
  let ?me = "fresh_exporter () DisabledNormalizer"
  obtain ts me1 where g: "gather example_env example_exporter_config example_resources ?me = Inr ([''p'' \<mapsto> [ts]], me1)"
    using gather_example by blast
  obtain errs me' where p: "PushMetricsDirectly example_env example_exporter_config refusing_client (\<lambda>pd. [''p''])
      example_resources ?me = Inr (errs, me')"
    using push_returns [OF g] by meson
  from push_reports_failed_requests [OF p g] p show ?thesis by blast
qed

text \<open>A request that fails without a summary of its points, as one that never reached the server, adds
all its points to the counter of successfully written points.\<close>

theorem failed_request_counts_as_success:
  assumes "exportToTimeSeries cfg cl req (ex_client me) = (s, c)" "\<not> isEmptyReq req"
    and "gs_code s \<noteq> OK" "gs_summaries s = []"
  shows "fst (export_request cfg cl req me) = Some s \<and>
    ex_counter (snd (export_request cfg cl req me)) = ex_counter me @ [(''OK'', int (length (rq_series req)))]"
  using assms by (simp add: export_request_def point_counts_def counter_add_def)

lemma failed_request_counts_as_success_witness:
  "fst (export_request example_exporter_config refusing_client \<lparr>rq_name = ''projects/p'', rq_series = []\<rparr>
      (fresh_exporter () DisabledNormalizer)) = Some \<lparr>gs_code = Unavailable, gs_summaries = []\<rparr> \<and>
   ex_counter (snd (export_request example_exporter_config refusing_client \<lparr>rq_name = ''projects/p'', rq_series = []\<rparr>
      (fresh_exporter () DisabledNormalizer))) =
     ex_counter (fresh_exporter () DisabledNormalizer) @
       [(''OK'', int (length (rq_series \<lparr>rq_name = ''projects/p'', rq_series = []\<rparr>)))]"
  by (rule failed_request_counts_as_success)
    (simp_all add: exportToTimeSeries_call refusing_client_def fresh_exporter_def isEmptyReq_def)

subsection \<open>Descriptors are sent at most once\<close>

text \<open>The keys of the descriptor calls the client received.\<close>

fun descriptor_call_key :: "client_call \<Rightarrow> string option" where
  "descriptor_call_key (DescriptorCall q r) = Some (descriptor_key r)"
| "descriptor_call_key (SeriesCall k q r) = None"

definition descriptor_keys :: "client_call list \<Rightarrow> string list" where
  "descriptor_keys cs = List.map_filter descriptor_call_key cs"

lemma descriptor_keys_append [simp]: "descriptor_keys (xs @ ys) = descriptor_keys xs @ descriptor_keys ys"
  by (simp add: descriptor_keys_def map_filter_def)

lemma descriptor_keys_single [simp]: "descriptor_keys [DescriptorCall q r] = [descriptor_key r]"
  by (simp add: descriptor_keys_def map_filter_simps)

text \<open>A client none of whose descriptor calls fails in a way worth retrying.\<close>

definition decisive :: "'c monitoring_client \<Rightarrow> bool" where
  "decisive cl \<longleftrightarrow> (\<forall>q r c. gs_code (fst (cl_descriptor cl q r c)) = OK \<or> isNotRecoverable (fst (cl_descriptor cl q r c)))"

definition once_invariant :: "('c \<times> client_call list) exporter \<Rightarrow> bool" where
  "once_invariant me \<longleftrightarrow> distinct (descriptor_keys (calls_of me)) \<and>
     set (descriptor_keys (calls_of me)) \<subseteq> dom (ex_cache me)"

lemma export_descriptor_once:
  assumes "decisive cl" "once_invariant me"
  shows "once_invariant (exportMetricDescriptor cfg (recording cl) req me)"
proof (cases "ex_cache me (descriptor_key req) = None")
  case True
  then have "descriptor_key req \<notin> set (descriptor_keys (calls_of me))"
    using assms(2) by (auto simp: once_invariant_def)
  with True assms show ?thesis
    by (auto simp: exportMetricDescriptor_def once_invariant_def calls_of_def recording_def decisive_def
        case_prod_beta Let_def)
next
  case False
  then show ?thesis using assms(2) by (auto simp: exportMetricDescriptor_def)
qed

lemma descriptor_turn_once:
  assumes "decisive cl" "once_invariant me"
  shows "once_invariant (descriptor_turn cfg (recording cl) me)"
proof (cases "ex_descriptors me")
  case (Cons req reqs)
  have "once_invariant (me\<lparr>ex_descriptors := reqs\<rparr>)"
    using assms(2) by (simp add: once_invariant_def calls_of_def)
  with Cons export_descriptor_once [OF assms(1)] show ?thesis by (simp add: descriptor_turn_def)
qed (use assms in \<open>simp add: descriptor_turn_def\<close>)

lemma descriptor_turns_queue: "ex_descriptors ((descriptor_turn cfg cl ^^ n) me) = drop n (ex_descriptors me)"
proof (induction n arbitrary: me)
  case (Suc n)
  have "ex_descriptors (descriptor_turn cfg cl me) = drop 1 (ex_descriptors me)" for me :: "'a exporter"
    by (auto simp: descriptor_turn_def exportMetricDescriptor_def Let_def split: list.splits prod.splits if_splits)
  with Suc show ?case by simp
qed simp

lemma funpow_invariant: "I x \<Longrightarrow> (\<And>x. I x \<Longrightarrow> I (f x)) \<Longrightarrow> I ((f ^^ n) x)"
  by (induction n) auto

text \<open>Shutting down empties the descriptor channel, and when no call fails in a recoverable way the
server is asked at most once for every pair of project and metric type.\<close>

theorem descriptors_are_sent_at_most_once:
  assumes "decisive cl" "once_invariant me"
  shows "ex_descriptors (descriptor_shutdown cfg (recording cl) me) = [] \<and>
    once_invariant (descriptor_shutdown cfg (recording cl) me)"
  unfolding descriptor_shutdown_def
  by (simp add: descriptor_turns_queue funpow_invariant [of once_invariant] assms descriptor_turn_once)

lemma descriptors_are_sent_at_most_once_witness:
  "ex_descriptors (descriptor_shutdown example_exporter_config (recording accepting_client)
      (fresh_exporter ((), []) DisabledNormalizer)) = [] \<and>
   once_invariant (descriptor_shutdown example_exporter_config (recording accepting_client)
      (fresh_exporter ((), []) DisabledNormalizer))"
  by (rule descriptors_are_sent_at_most_once)
    (simp_all add: decisive_def accepting_client_def status_ok_def once_invariant_def calls_of_def
      fresh_exporter_def descriptor_keys_def map_filter_simps)

end
