(* ===== verification/ExportLog.thy ===== *)
theory ExportLog
  imports MetricsExporter
begin

text \<open>
  The write-ahead log of the metrics exporter (exporter/collector/metrics.go): \<open>PushMetrics\<close> appends
  requests to it, \<open>readWALAndExport\<close> exports the oldest one with retries and truncates it, and the
  loop at shutdown empties it. The log library and protobuf marshalling are arguments; their
  documented behaviour is \<open>wal_lawful\<close> and \<open>codec_ok\<close>. A log seen from outside is the index of its
  first entry and its entries (\<open>view\<close>). Operations hold the log's mutex, so each is one step;
  sleeping is recorded in seconds.
\<close>

subsection \<open>The library and the state\<close>

datatype wal_error = ErrNotFound | ErrOutOfRange | ErrOther string

datatype log_error = LogError wal_error | MarshalError string | UnmarshalError string

record 'w wal_lib =
  wl_open :: "'w \<Rightarrow> (wal_error, 'w) res"
  wl_close :: "'w \<Rightarrow> wal_error option \<times> 'w"
  wl_first :: "'w \<Rightarrow> (wal_error, nat) res"
  wl_last :: "'w \<Rightarrow> (wal_error, nat) res"
  wl_read :: "'w \<Rightarrow> nat \<Rightarrow> (wal_error, string) res"
  wl_write :: "'w \<Rightarrow> nat \<Rightarrow> string \<Rightarrow> (wal_error, 'w) res"
  wl_truncate :: "'w \<Rightarrow> nat \<Rightarrow> (wal_error, 'w) res"

record codec =
  cd_marshal :: "ts_request \<Rightarrow> (string, string) res"
  cd_unmarshal :: "string \<Rightarrow> (string, ts_request) res"

record ('c, 'w) log_exporter =
  lx_exporter :: "'c exporter"
  lx_log :: 'w
  lx_open :: bool
  lx_slept :: "int list"

definition emptyReq :: ts_request where
  "emptyReq = \<lparr>rq_name = [], rq_series = []\<rparr>"

subsection \<open>Opening and writing\<close>

definition closeWAL :: "'w wal_lib \<Rightarrow> ('c, 'w) log_exporter \<Rightarrow> wal_error option \<times> ('c, 'w) log_exporter" where
  "closeWAL lib st =
     (if lx_open st
      then let (e, w) = wl_close lib (lx_log st) in (e, st\<lparr>lx_log := w, lx_open := False\<rparr>)
      else (None, st))"

definition setupWAL :: "'w wal_lib \<Rightarrow> ('c, 'w) log_exporter \<Rightarrow>
    (wal_error, nat \<times> nat) res \<times> ('c, 'w) log_exporter" where
  "setupWAL lib st = (case closeWAL lib st of (e, st) \<Rightarrow>
     (case e of
        Some err \<Rightarrow> (Inl err, st)
      | None \<Rightarrow> (case wl_open lib (lx_log st) of
          Inl err \<Rightarrow> (Inl err, st)
        | Inr w \<Rightarrow>
            let st = st\<lparr>lx_log := w, lx_open := True\<rparr> in
            (res_bind (wl_first lib w) (\<lambda>r. res_bind (wl_last lib w) (\<lambda>l. Inr (r, l))), st))))"

text \<open>The part of the push loop that writes one request to the log; a failure is reported and skipped.\<close>

definition log_request :: "'w wal_lib \<Rightarrow> codec \<Rightarrow> ts_request \<Rightarrow> ('c, 'w) log_exporter \<Rightarrow>
    log_error option \<times> ('c, 'w) log_exporter" where
  "log_request lib cd req st = (case cd_marshal cd req of
     Inl e \<Rightarrow> (Some (MarshalError e), st)
   | Inr bytes \<Rightarrow> (case wl_last lib (lx_log st) of
       Inl e \<Rightarrow> (Some (LogError e), st)
     | Inr writeIndex \<Rightarrow> (case wl_write lib (lx_log st) (writeIndex + 1) bytes of
         Inl e \<Rightarrow> (Some (LogError e), st)
       | Inr w \<Rightarrow> (None, st\<lparr>lx_log := w\<rparr>))))"

fun log_all :: "'w wal_lib \<Rightarrow> codec \<Rightarrow> ts_request list \<Rightarrow> ('c, 'w) log_exporter \<Rightarrow>
    log_error list \<times> ('c, 'w) log_exporter" where
  "log_all lib cd [] st = ([], st)"
| "log_all lib cd (r # rs) st =
     (let (e, st) = log_request lib cd r st; (es, st) = log_all lib cd rs st
      in ((case e of Some x \<Rightarrow> [x] | None \<Rightarrow> []) @ es, st))"

definition PushMetricsToLog :: "mapper_env \<Rightarrow> exporter_config \<Rightarrow> 'w wal_lib \<Rightarrow> codec \<Rightarrow> (pending \<Rightarrow> string list) \<Rightarrow>
    resource_metrics list \<Rightarrow> ('c, 'w) log_exporter \<Rightarrow>
    (go_panic, log_error list \<times> ('c, 'w) log_exporter) res" where
  "PushMetricsToLog env cfg lib cd order rms st =
     res_bind (gather env cfg rms (lx_exporter st)) (\<lambda>(pd, me).
       Inr (log_all lib cd (requests_of (order pd) pd) (st\<lparr>lx_exporter := me\<rparr>)))"

text \<open>
  The whole \<open>PushMetrics\<close>: an exporter without a client has not been started; with a configured log,
  which \<open>Start\<close> opened, the requests go to the log, else to the client.
\<close>

datatype push_failure = NotStarted | CallFailed grpc_status | LogFailed log_error

definition PushMetrics :: "mapper_env \<Rightarrow> exporter_config \<Rightarrow> 'c monitoring_client \<Rightarrow> 'w wal_lib \<Rightarrow> codec \<Rightarrow>
    (pending \<Rightarrow> string list) \<Rightarrow> resource_metrics list \<Rightarrow> ('c, 'w) log_exporter option \<Rightarrow>
    (go_panic, push_failure list \<times> ('c, 'w) log_exporter option) res" where
  "PushMetrics env cfg cl lib cd order rms mexp = (case mexp of
     None \<Rightarrow> Inr ([NotStarted], None)
   | Some st \<Rightarrow>
       if ec_wal cfg \<noteq> None
       then res_bind (PushMetricsToLog env cfg lib cd order rms st) (\<lambda>(errs, st).
         Inr (List.map LogFailed errs, Some st))
       else res_bind (PushMetricsDirectly env cfg cl order rms (lx_exporter st)) (\<lambda>(errs, me).
         Inr (List.map CallFailed errs, Some (st\<lparr>lx_exporter := me\<rparr>))))"

subsection \<open>Reading and exporting\<close>

text \<open>
  The retry loop from attempt \<open>i\<close> on. A nil error counts as not recoverable. The backoff before
  the next attempt is \<open>2^i\<close> seconds; a backoff that reaches the maximum ends the loop instead.
\<close>

definition second :: int where
  "second = 1000000000"

function retry_loop :: "exporter_config \<Rightarrow> 'c monitoring_client \<Rightarrow> int \<Rightarrow> ts_request \<Rightarrow> nat \<Rightarrow>
    ('c, 'w) log_exporter \<Rightarrow> ('c, 'w) log_exporter" where
  "retry_loop cfg cl maxBackoff req i st =
     (if 12 \<le> i then st
      else
        let (e, me) = export_request cfg cl req (lx_exporter st); st = st\<lparr>lx_exporter := me\<rparr> in
        if (case e of None \<Rightarrow> True | Some s \<Rightarrow> isNotRecoverable s) then st
        else if maxBackoff \<le> 2 ^ i * second then st
        else retry_loop cfg cl maxBackoff req (i + 1) (st\<lparr>lx_slept := lx_slept st @ [2 ^ i]\<rparr>))"
  by pat_completeness auto
termination
  by (relation "measure (\<lambda>(cfg, cl, mx, req, i, st). 12 - i)") auto

declare retry_loop.simps [simp del]

definition defaultWalMaxBackoff :: int where
  "defaultWalMaxBackoff = 3600 * second"

definition max_backoff :: "exporter_config \<Rightarrow> int" where
  "max_backoff cfg = (case ec_wal cfg of
     Some w \<Rightarrow> if wc_max_backoff w \<noteq> 0 then wc_max_backoff w else defaultWalMaxBackoff
   | None \<Rightarrow> defaultWalMaxBackoff)"

text \<open>What follows the retry loop: the marker behind the last entry, and the truncation.\<close>

definition finish_entry :: "'w wal_lib \<Rightarrow> codec \<Rightarrow> ts_request \<Rightarrow> nat \<Rightarrow> nat \<Rightarrow> ('c, 'w) log_exporter \<Rightarrow>
    log_error option \<times> ('c, 'w) log_exporter" where
  "finish_entry lib cd req readIndex writeIndex st =
     (case (if readIndex = writeIndex \<and> \<not> isEmptyReq req then
              (case cd_marshal cd emptyReq of
                 Inl e \<Rightarrow> Inl (MarshalError e)
               | Inr bytes \<Rightarrow> (case wl_write lib (lx_log st) (writeIndex + 1) bytes of
                   Inl e \<Rightarrow> Inl (LogError e)
                 | Inr w \<Rightarrow> Inr (writeIndex + 1, st\<lparr>lx_log := w\<rparr>)))
            else Inr (writeIndex, st)) of
        Inl e \<Rightarrow> (Some e, st)
      | Inr (writeIndex, st) \<Rightarrow>
          if writeIndex \<le> readIndex then (Some (LogError ErrNotFound), st)
          else (case wl_truncate lib (lx_log st) (readIndex + 1) of
            Inl e \<Rightarrow> (Some (LogError e), st)
          | Inr w \<Rightarrow> (None, st\<lparr>lx_log := w\<rparr>)))"

definition readWALAndExport :: "exporter_config \<Rightarrow> 'c monitoring_client \<Rightarrow> 'w wal_lib \<Rightarrow> codec \<Rightarrow>
    ('c, 'w) log_exporter \<Rightarrow> log_error option \<times> ('c, 'w) log_exporter" where
  "readWALAndExport cfg cl lib cd st = (case setupWAL lib st of (r, st) \<Rightarrow>
     (case r of
        Inl e \<Rightarrow> (Some (LogError e), st)
      | Inr (readIndex, writeIndex) \<Rightarrow> (case wl_read lib (lx_log st) readIndex of
          Inl e \<Rightarrow> (Some (LogError e), st)
        | Inr bytes \<Rightarrow> (case cd_unmarshal cd bytes of
            Inl e \<Rightarrow> (Some (UnmarshalError e), st)
          | Inr req \<Rightarrow>
              finish_entry lib cd req readIndex writeIndex (retry_loop cfg cl (max_backoff cfg) req 0 st)))))"

text \<open>
  The loop of \<open>runWALReadAndExportLoop\<close> after the shutdown signal: read and export until an error.
  \<open>fuel\<close> bounds the turns; \<open>None\<close> means it ran out.
\<close>

fun drain_log :: "nat \<Rightarrow> exporter_config \<Rightarrow> 'c monitoring_client \<Rightarrow> 'w wal_lib \<Rightarrow> codec \<Rightarrow>
    ('c, 'w) log_exporter \<Rightarrow> (log_error \<times> ('c, 'w) log_exporter) option" where
  "drain_log 0 cfg cl lib cd st = None"
| "drain_log (Suc fuel) cfg cl lib cd st = (case readWALAndExport cfg cl lib cd st of
     (Some e, st) \<Rightarrow> Some (e, st)
   | (None, st) \<Rightarrow> drain_log fuel cfg cl lib cd st)"

subsection \<open>What the exporter relies on\<close>

definition last_index :: "nat \<times> string list \<Rightarrow> nat" where
  "last_index v = (if snd v = [] then 0 else fst v + length (snd v) - 1)"

text \<open>
  \<open>view\<close> is what a log holds, \<open>live\<close> whether its handle is open. A closed handle answers every call
  with an error; only \<open>LastIndex\<close> is ever called on one.
\<close>

definition wal_lawful :: "'w wal_lib \<Rightarrow> ('w \<Rightarrow> nat \<times> string list) \<Rightarrow> ('w \<Rightarrow> bool) \<Rightarrow> bool" where
  "wal_lawful lib view live \<longleftrightarrow>
     (\<forall>w. 1 \<le> fst (view w)) \<and>
     (\<forall>w. live w \<longrightarrow> (\<exists>w'. wl_close lib w = (None, w') \<and> view w' = view w)) \<and>
     (\<forall>w. \<exists>w'. wl_open lib w = Inr w' \<and> view w' = view w \<and> live w') \<and>
     (\<forall>w. live w \<longrightarrow> wl_first lib w = Inr (if snd (view w) = [] then 0 else fst (view w))) \<and>
     (\<forall>w. live w \<longrightarrow> wl_last lib w = Inr (last_index (view w))) \<and>
     (\<forall>w i. live w \<longrightarrow> wl_read lib w i =
        (if fst (view w) \<le> i \<and> i < fst (view w) + length (snd (view w))
         then Inr (snd (view w) ! (i - fst (view w))) else Inl ErrNotFound)) \<and>
     (\<forall>w b. live w \<longrightarrow> (\<exists>w'. wl_write lib w (last_index (view w) + 1) b = Inr w' \<and> live w' \<and>
        view w' = (if snd (view w) = [] then (1, [b]) else (fst (view w), snd (view w) @ [b])))) \<and>
     (\<forall>w i. live w \<and> fst (view w) \<le> i \<and> i < fst (view w) + length (snd (view w)) \<longrightarrow>
        (\<exists>w'. wl_truncate lib w i = Inr w' \<and> live w' \<and> view w' = (i, drop (i - fst (view w)) (snd (view w))))) \<and>
     (\<forall>w. \<not> live w \<longrightarrow> (\<exists>e. wl_last lib w = Inl e))"

text \<open>The handle that the exporter keeps is open.\<close>

definition usable_log :: "('w \<Rightarrow> bool) \<Rightarrow> ('c, 'w) log_exporter \<Rightarrow> bool" where
  "usable_log live st \<longleftrightarrow> (lx_open st \<longrightarrow> live (lx_log st))"

text \<open>Marshalling a request and reading it back gives the request; the empty request marshals.\<close>

definition codec_ok :: "codec \<Rightarrow> bool" where
  "codec_ok cd \<longleftrightarrow> (\<forall>r b. cd_marshal cd r = Inr b \<longrightarrow> cd_unmarshal cd b = Inr r) \<and>
     (\<exists>b. cd_marshal cd emptyReq = Inr b)"

subsection \<open>Retries\<close>

lemma export_empty [simp]: "isEmptyReq req \<Longrightarrow> export_request cfg cl req me = (None, me)"
  by (simp add: export_request_def)

lemma retry_empty: "isEmptyReq req \<Longrightarrow> retry_loop cfg cl mx req 0 st = st"
  by (simp add: retry_loop.simps [of _ _ _ _ 0])

lemma retry_frame [frame]:
  "lx_log (retry_loop cfg cl mx req i st) = lx_log st \<and> lx_open (retry_loop cfg cl mx req i st) = lx_open st"
proof (induction cfg cl mx req i st rule: retry_loop.induct)
  case (1 cfg cl mx req i st)
  show ?case
    using 1 by (subst (1 2) retry_loop.simps) (auto simp: Let_def split: prod.splits option.splits)
qed

text \<open>\<open>k\<close> calls from attempt \<open>i\<close> on and \<open>m\<close> sleeps.\<close>

definition attempts_log :: "exporter_config \<Rightarrow> ts_request \<Rightarrow> ('c \<times> client_call list, 'w) log_exporter \<Rightarrow> nat \<Rightarrow> nat \<Rightarrow> nat \<Rightarrow>
    ('c \<times> client_call list, 'w) log_exporter \<Rightarrow> bool" where
  "attempts_log cfg req st i k m st' \<longleftrightarrow>
     calls_of (lx_exporter st') = calls_of (lx_exporter st) @ replicate k (sent_as cfg req) \<and>
     lx_slept st' = lx_slept st @ List.map (\<lambda>j. 2 ^ j) [i..<i + m]"

lemma attempts_step:
  assumes "calls_of (lx_exporter st1) = calls_of (lx_exporter st) @ [sent_as cfg req]"
    "lx_slept st1 = lx_slept st @ [2 ^ i]" "attempts_log cfg req st1 (Suc i) k m st'"
  shows "attempts_log cfg req st i (Suc k) (Suc m) st'"
proof -
  have "[i..<i + Suc m] = i # [Suc i..<Suc i + m]" by (simp add: upt_rec)
  with assms show ?thesis by (simp add: attempts_log_def)
qed

lemma retries_log:
  assumes "\<not> isEmptyReq req" "i < 12"
  shows "\<exists>k m. 1 \<le> k \<and> i + k \<le> 12 \<and> (m = k - 1 \<or> m = k \<and> i + k = 12) \<and>
    attempts_log cfg req st i k m (retry_loop cfg (recording cl) mx req i st) \<and>
    list_all (\<lambda>j. (2 ^ j :: int) * second < mx) [i..<i + m]"
  using assms
proof (induction cfg "recording cl" mx req i st rule: retry_loop.induct)
  case (1 cfg mx req i st)
  obtain e me where e: "export_request cfg (recording cl) req (lx_exporter st) = (e, me)" by fastforce
  let ?st = "st\<lparr>lx_exporter := me\<rparr>"
  let ?st1 = "?st\<lparr>lx_slept := lx_slept ?st @ [2 ^ i]\<rparr>"
  have calls: "calls_of me = calls_of (lx_exporter st) @ [sent_as cfg req]"
    using export_recorded [of cfg cl req "lx_exporter st"] 1(2) e by simp
  note loop = retry_loop.simps [of cfg "recording cl" mx req i st]
  show ?case
  proof (cases "(case e of None \<Rightarrow> True | Some s \<Rightarrow> isNotRecoverable s) \<or> mx \<le> 2 ^ i * second")
    case True
    then have "retry_loop cfg (recording cl) mx req i st = ?st"
      using 1(3) e by (subst loop) (auto simp: Let_def)
    moreover have "attempts_log cfg req st i 1 0 ?st" by (simp add: attempts_log_def calls)
    ultimately show ?thesis using 1(3) by (intro exI [of _ 1] exI [of _ 0]) simp
  next
    case False
    then have step: "retry_loop cfg (recording cl) mx req i st = retry_loop cfg (recording cl) mx req (Suc i) ?st1"
      using 1(3) e by (subst loop) (simp add: Let_def)
    show ?thesis
    proof (cases "Suc i < 12")
      case True
      have "\<exists>k m. 1 \<le> k \<and> Suc i + k \<le> 12 \<and> (m = k - 1 \<or> m = k \<and> Suc i + k = 12) \<and>
          attempts_log cfg req ?st1 (Suc i) k m (retry_loop cfg (recording cl) mx req (Suc i) ?st1) \<and>
          list_all (\<lambda>j. (2 ^ j :: int) * second < mx) [Suc i..<Suc i + m]"
        using 1(1) [OF _ e [symmetric] refl] True False 1(2,3) by (simp add: Let_def)
      then obtain k m where k: "1 \<le> k" "Suc i + k \<le> 12" "m = k - 1 \<or> m = k \<and> Suc i + k = 12"
        "attempts_log cfg req ?st1 (Suc i) k m (retry_loop cfg (recording cl) mx req (Suc i) ?st1)"
        "list_all (\<lambda>j. (2 ^ j :: int) * second < mx) [Suc i..<Suc i + m]" by blast
      have "attempts_log cfg req st i (Suc k) (Suc m) (retry_loop cfg (recording cl) mx req (Suc i) ?st1)"
        by (rule attempts_step [of ?st1]) (use calls k in simp_all)
      moreover have "[i..<i + Suc m] = i # [Suc i..<Suc i + m]" by (simp add: upt_rec)
      ultimately show ?thesis using step k False
        by (intro exI [of _ "Suc k"] exI [of _ "Suc m"]) auto
    next
      case last: False
      then have "retry_loop cfg (recording cl) mx req i st = ?st1"
        unfolding step by (subst retry_loop.simps) simp
      moreover have "attempts_log cfg req st i 1 1 ?st1" by (simp add: attempts_log_def calls)
      ultimately show ?thesis using False last 1(3)
        by (intro exI [of _ 1]) (auto simp: upt_rec)
    qed
  qed
qed

text \<open>A request of the log is tried at least once and at most twelve times; the exporter sleeps one
second after the first failed try, then two, then four, and so on, never as long as the configured
maximum; and it sleeps after a last try only when that was the twelfth.\<close>

theorem retries_are_bounded:
  assumes "\<not> isEmptyReq req" "i < 12"
  shows "\<exists>k m. 1 \<le> k \<and> i + k \<le> 12 \<and> (m = k - 1 \<or> m = k \<and> i + k = 12) \<and>
    attempts_log cfg req st i k m (retry_loop cfg (recording cl) mx req i st) \<and>
    list_all (\<lambda>j. (2 ^ j :: int) * second < mx) [i..<i + m]"
  using assms by (rule retries_log)

definition example_request :: ts_request where
  "example_request = \<lparr>rq_name = ''projects/p'', rq_series = []\<rparr>"

lemma retries_are_bounded_witness:
  "\<exists>k m. 1 \<le> k \<and> 0 + k \<le> 12 \<and> (m = k - 1 \<or> m = k \<and> 0 + k = 12) \<and>
    attempts_log example_exporter_config example_request
      \<lparr>lx_exporter = fresh_exporter ((), []) DisabledNormalizer, lx_log = (), lx_open = True, lx_slept = []\<rparr> 0 k m
      (retry_loop example_exporter_config (recording refusing_client) defaultWalMaxBackoff example_request 0
        \<lparr>lx_exporter = fresh_exporter ((), []) DisabledNormalizer, lx_log = (), lx_open = True, lx_slept = []\<rparr>) \<and>
    list_all (\<lambda>j. (2 ^ j :: int) * second < defaultWalMaxBackoff) [0..<0 + m]"
  by (rule retries_are_bounded) (simp_all add: isEmptyReq_def example_request_def)

lemma retry_decisive:
  assumes "\<not> isEmptyReq req" "\<And>k q r c. isNotRecoverable (fst (cl_series cl k q r c))"
  shows "calls_of (lx_exporter (retry_loop cfg (recording cl) mx req 0 st)) = calls_of (lx_exporter st) @ [sent_as cfg req]"
proof -
  have "case fst (export_request cfg (recording cl) req (lx_exporter st)) of None \<Rightarrow> True | Some s \<Rightarrow> isNotRecoverable s"
    using assms by (simp add: export_request_def exportToTimeSeries_call recording_def case_prod_beta Let_def)
  then show ?thesis
    using export_recorded [of cfg cl req "lx_exporter st"] assms(1)
    by (subst retry_loop.simps) (simp add: case_prod_beta Let_def)
qed

subsection \<open>The log as a queue of requests\<close>

definition entries :: "('w \<Rightarrow> nat \<times> string list) \<Rightarrow> ('c, 'w) log_exporter \<Rightarrow> string list" where
  "entries view st = snd (view (lx_log st))"

definition decoded :: "codec \<Rightarrow> string \<Rightarrow> ts_request" where
  "decoded cd b = (case cd_unmarshal cd b of Inr r \<Rightarrow> r | Inl _ \<Rightarrow> emptyReq)"

text \<open>The markers are not part of the queue.\<close>

definition queue_of :: "codec \<Rightarrow> ('w \<Rightarrow> nat \<times> string list) \<Rightarrow> ('c, 'w) log_exporter \<Rightarrow> ts_request list" where
  "queue_of cd view st = filter (\<lambda>r. \<not> isEmptyReq r) (List.map (decoded cd) (entries view st))"

definition readable :: "codec \<Rightarrow> ('w \<Rightarrow> nat \<times> string list) \<Rightarrow> ('c, 'w) log_exporter \<Rightarrow> bool" where
  "readable cd view st \<longleftrightarrow> list_all (\<lambda>b. \<exists>r. cd_unmarshal cd b = Inr r) (entries view st)"

lemma emptyReq_empty [simp]: "isEmptyReq emptyReq"
  by (simp add: isEmptyReq_def emptyReq_def)

lemma log_request_appends:
  assumes "wal_lawful lib view live" "cd_marshal cd req = Inr b" "live (lx_log st)"
  shows "\<exists>w'. log_request lib cd req st = (None, st\<lparr>lx_log := w'\<rparr>) \<and> snd (view w') = entries view st @ [b] \<and> live w'"
proof -
  obtain w' where "wl_write lib (lx_log st) (last_index (view (lx_log st)) + 1) b = Inr w'" "live w'"
    "view w' = (if snd (view (lx_log st)) = [] then (1, [b])
      else (fst (view (lx_log st)), snd (view (lx_log st)) @ [b]))"
    using assms(1,3) unfolding wal_lawful_def by meson
  then show ?thesis using assms by (auto simp: wal_lawful_def log_request_def entries_def)
qed

lemma log_all_appends:
  assumes "wal_lawful lib view live" "codec_ok cd" "list_all (\<lambda>r. \<exists>b. cd_marshal cd r = Inr b) rs" "readable cd view st"
    "list_all (\<lambda>r. \<not> isEmptyReq r) rs" "live (lx_log st)"
  shows "\<exists>w'. log_all lib cd rs st = ([], st\<lparr>lx_log := w'\<rparr>) \<and> readable cd view (st\<lparr>lx_log := w'\<rparr>) \<and>
    queue_of cd view (st\<lparr>lx_log := w'\<rparr>) = queue_of cd view st @ rs"
  using assms
proof (induction rs arbitrary: st)
  case Nil
  then show ?case by (intro exI [of _ "lx_log st"]) simp
next
  case (Cons r rs)
  obtain b where b: "cd_marshal cd r = Inr b" using Cons.prems by auto
  obtain w1 where w1: "log_request lib cd r st = (None, st\<lparr>lx_log := w1\<rparr>)" "snd (view w1) = entries view st @ [b]" "live w1"
    using log_request_appends [OF Cons.prems(1) b Cons.prems(6)] by blast
  have decode: "cd_unmarshal cd b = Inr r" using b Cons.prems(2) by (simp add: codec_ok_def)
  have "readable cd view (st\<lparr>lx_log := w1\<rparr>)"
    using Cons.prems(4) w1 decode by (simp add: readable_def entries_def)
  moreover have "queue_of cd view (st\<lparr>lx_log := w1\<rparr>) = queue_of cd view st @ [r]"
    using w1 decode Cons.prems(5) by (simp add: queue_of_def entries_def decoded_def)
  ultimately show ?case
    using Cons.IH [of "st\<lparr>lx_log := w1\<rparr>"] Cons.prems w1(1,3) by auto
qed

text \<open>What one call of \<open>readWALAndExport\<close> does to the entries.\<close>

definition after_retries :: "exporter_config \<Rightarrow> 'c monitoring_client \<Rightarrow> ts_request \<Rightarrow> ('c, 'w) log_exporter \<Rightarrow> ('c, 'w) log_exporter" where
  "after_retries cfg cl req st = retry_loop cfg cl (max_backoff cfg) req 0 (st\<lparr>lx_open := True\<rparr>)"

lemma setupWAL_lawful:
  assumes "wal_lawful lib view live" "usable_log live st"
  shows "\<exists>w. setupWAL lib st = (Inr (if entries view st = [] then 0 else fst (view (lx_log st)),
      last_index (view (lx_log st))), st\<lparr>lx_log := w, lx_open := True\<rparr>) \<and> view w = view (lx_log st) \<and> live w"
proof -
  obtain w1 where w1: "lx_open st \<Longrightarrow> wl_close lib (lx_log st) = (None, w1) \<and> view w1 = view (lx_log st)"
    using assms unfolding wal_lawful_def usable_log_def by meson
  let ?w1 = "if lx_open st then w1 else lx_log st"
  obtain w2 where w2: "wl_open lib ?w1 = Inr w2" "view w2 = view ?w1" "live w2"
    using assms unfolding wal_lawful_def by meson
  have "wl_first lib w2 = Inr (if snd (view w2) = [] then 0 else fst (view w2))" "wl_last lib w2 = Inr (last_index (view w2))"
    using assms w2(3) by (simp_all add: wal_lawful_def)
  with w1 w2 show ?thesis
    by (intro exI [of _ w2]) (auto simp: setupWAL_def closeWAL_def entries_def Let_def split: if_splits)
qed

lemma read_lawful:
  assumes "wal_lawful lib view live" "live w"
  shows "wl_read lib w i = (if fst (view w) \<le> i \<and> i < fst (view w) + length (snd (view w))
    then Inr (snd (view w) ! (i - fst (view w))) else Inl ErrNotFound)"
  using assms by (simp add: wal_lawful_def)

lemma finish_pops:
  assumes "wal_lawful lib view live" "cd_marshal cd emptyReq = Inr m" "view (lx_log st) = (f, b # bs)" "live (lx_log st)"
    and "bs \<noteq> [] \<or> \<not> isEmptyReq req"
  shows "\<exists>w'. finish_entry lib cd req f (f + length bs) st = (None, st\<lparr>lx_log := w'\<rparr>) \<and>
    snd (view w') = (if bs = [] then [m] else bs) \<and> live w'"
proof -
  have truncate: "\<exists>w'. wl_truncate lib w i = Inr w' \<and> live w' \<and> view w' = (i, drop (i - fst (view w)) (snd (view w)))"
    if "live w" "fst (view w) \<le> i" "i < fst (view w) + length (snd (view w))" for w i
    using assms(1) that unfolding wal_lawful_def by meson
  show ?thesis
  proof (cases "bs = []")
    case True
    obtain w1 where w1: "wl_write lib (lx_log st) (last_index (view (lx_log st)) + 1) m = Inr w1" "live w1"
      "view w1 = (if snd (view (lx_log st)) = [] then (1, [m]) else (fst (view (lx_log st)), snd (view (lx_log st)) @ [m]))"
      using assms(1,4) unfolding wal_lawful_def by meson
    then have view1: "view w1 = (f, [b, m])" using assms(3) True by simp
    obtain w2 where "wl_truncate lib w1 (f + 1) = Inr w2" "view w2 = (f + 1, [m])" "live w2"
      using truncate [of w1 "f + 1"] view1 w1(2) by auto
    with w1 True assms show ?thesis
      by (intro exI [of _ w2]) (simp add: finish_entry_def last_index_def)
  next
    case False
    obtain w2 where "wl_truncate lib (lx_log st) (f + 1) = Inr w2" "view w2 = (f + 1, bs)" "live w2"
      using truncate [of "lx_log st" "f + 1"] False assms(3,4) by auto
    with False show ?thesis by (intro exI [of _ w2]) (simp add: finish_entry_def)
  qed
qed

lemma read_pops:
  assumes lawful: "wal_lawful lib view live" and m: "cd_marshal cd emptyReq = Inr m" and usable: "usable_log live st"
    and "entries view st = b # bs" "cd_unmarshal cd b = Inr req" "bs \<noteq> [] \<or> \<not> isEmptyReq req"
  shows "\<exists>w w'. readWALAndExport cfg cl lib cd st =
      (None, (retry_loop cfg cl (max_backoff cfg) req 0 (st\<lparr>lx_log := w, lx_open := True\<rparr>))\<lparr>lx_log := w'\<rparr>) \<and>
    snd (view w') = (if bs = [] then [m] else bs) \<and> live w'"
proof -
  obtain w where w: "view w = view (lx_log st)" "live w" "setupWAL lib st =
      (Inr (if entries view st = [] then 0 else fst (view (lx_log st)), last_index (view (lx_log st))),
       st\<lparr>lx_log := w, lx_open := True\<rparr>)"
    using setupWAL_lawful [OF lawful usable] by blast
  obtain f where f: "view (lx_log st) = (f, b # bs)" using assms(4) by (cases "view (lx_log st)") (simp add: entries_def)
  let ?st = "retry_loop cfg cl (max_backoff cfg) req 0 (st\<lparr>lx_log := w, lx_open := True\<rparr>)"
  have "view (lx_log ?st) = (f, b # bs)" "live (lx_log ?st)" using w f by (simp_all add: frame)
  then obtain w' where "finish_entry lib cd req f (f + length bs) ?st = (None, ?st\<lparr>lx_log := w'\<rparr>)"
    "snd (view w') = (if bs = [] then [m] else bs)" "live w'"
    using finish_pops [OF lawful m _ _ assms(6)] by blast
  with w f assms(4,5) show ?thesis
    by (intro exI [of _ w] exI [of _ w'])
      (simp add: readWALAndExport_def read_lawful [OF lawful w(2)] last_index_def)
qed

lemma read_ends:
  assumes lawful: "wal_lawful lib view live" and usable: "usable_log live st"
    and "entries view st = [] \<or> (\<exists>b req. entries view st = [b] \<and> cd_unmarshal cd b = Inr req \<and> isEmptyReq req)"
  shows "\<exists>w. readWALAndExport cfg cl lib cd st = (Some (LogError ErrNotFound), st\<lparr>lx_log := w, lx_open := True\<rparr>) \<and>
    view w = view (lx_log st) \<and> live w"
proof -
  obtain w where w: "view w = view (lx_log st)" "live w" "setupWAL lib st =
      (Inr (if entries view st = [] then 0 else fst (view (lx_log st)), last_index (view (lx_log st))),
       st\<lparr>lx_log := w, lx_open := True\<rparr>)"
    using setupWAL_lawful [OF lawful usable] by blast
  have "1 \<le> fst (view (lx_log st))" using lawful by (simp add: wal_lawful_def)
  with assms(3) w show ?thesis
    by (intro exI [of _ w])
      (auto simp: readWALAndExport_def read_lawful [OF lawful w(2)] last_index_def entries_def retry_empty finish_entry_def)
qed

text \<open>Reading the log takes its oldest request off the queue: it is tried at least once and at most
twelve times, the log keeps the other requests in their order, and the exporter is told to go on; a
log without requests makes no call and reports its end.\<close>

theorem read_exports_oldest_request:
  assumes "wal_lawful lib view live" "codec_ok cd" "readable cd view st" "usable_log live st"
    and "readWALAndExport cfg (recording cl) lib cd st = (e, st')"
    and "entries view st \<noteq> [] \<Longrightarrow> \<not> isEmptyReq (decoded cd (hd (entries view st)))"
  shows "(case queue_of cd view st of
      [] \<Rightarrow> e = Some (LogError ErrNotFound) \<and> calls_of (lx_exporter st') = calls_of (lx_exporter st) \<and> queue_of cd view st' = []
    | r # rs \<Rightarrow> e = None \<and> queue_of cd view st' = rs \<and>
        (\<exists>k. 1 \<le> k \<and> k \<le> 12 \<and> calls_of (lx_exporter st') = calls_of (lx_exporter st) @ replicate k (sent_as cfg r)))"
proof (cases "entries view st")
  case Nil
  with read_ends [OF assms(1,4), where cd = cd and cfg = cfg and cl = "recording cl"] assms(5)
  show ?thesis by (auto simp: queue_of_def entries_def)
next
  case (Cons b bs)
  obtain m where m: "cd_marshal cd emptyReq = Inr m" "cd_unmarshal cd m = Inr emptyReq"
    using assms(2) by (auto simp: codec_ok_def)
  obtain req where req: "cd_unmarshal cd b = Inr req" using assms(3) Cons by (auto simp: readable_def)
  then have head: "\<not> isEmptyReq req" using assms(6) Cons by (simp add: decoded_def)
  obtain w w' where st': "e = None"
      "st' = (retry_loop cfg (recording cl) (max_backoff cfg) req 0 (st\<lparr>lx_log := w, lx_open := True\<rparr>))\<lparr>lx_log := w'\<rparr>"
      "snd (view w') = (if bs = [] then [m] else bs)"
    using read_pops [OF assms(1) m(1) assms(4) Cons req, where cfg = cfg and cl = "recording cl"] head assms(5) by auto
  obtain k where "1 \<le> k" "k \<le> 12" "calls_of (lx_exporter st') = calls_of (lx_exporter st) @ replicate k (sent_as cfg req)"
    using retries_log [OF head, where i = 0 and st = "st\<lparr>lx_log := w, lx_open := True\<rparr>" and cfg = cfg and cl = cl and mx = "max_backoff cfg"]
    by (auto simp: st' attempts_log_def)
  moreover have "queue_of cd view st = req # filter (\<lambda>r. \<not> isEmptyReq r) (List.map (decoded cd) bs)"
    using head by (simp add: queue_of_def Cons decoded_def req)
  moreover have "queue_of cd view st' = filter (\<lambda>r. \<not> isEmptyReq r) (List.map (decoded cd) bs)"
    by (simp add: queue_of_def entries_def st' decoded_def m)
  ultimately show ?thesis using st'(1) by auto
qed

text \<open>Draining: every turn takes an entry, a last real entry leaves a marker, a last marker ends the loop.\<close>

lemma drain_exports_queue:
  assumes lawful: "wal_lawful lib view live" and codec: "codec_ok cd"
    and client: "\<And>k q r c. isNotRecoverable (fst (cl_series cl k q r c))"
    and "readable cd view st" "length (entries view st) < fuel" "usable_log live st"
  shows "\<exists>st'. drain_log fuel cfg (recording cl) lib cd st = Some (LogError ErrNotFound, st') \<and> queue_of cd view st' = [] \<and>
    calls_of (lx_exporter st') = calls_of (lx_exporter st) @ List.map (sent_as cfg) (queue_of cd view st)"
  using assms(4-6)
proof (induction fuel arbitrary: st)
  case (Suc fuel)
  obtain m where m: "cd_marshal cd emptyReq = Inr m" "cd_unmarshal cd m = Inr emptyReq"
    using codec by (auto simp: codec_ok_def)
  have stop: ?case if "entries view st = [] \<or> (\<exists>b req. entries view st = [b] \<and> cd_unmarshal cd b = Inr req \<and> isEmptyReq req)"
    using read_ends [OF lawful Suc.prems(3) that, where cfg = cfg and cl = "recording cl"] that
    by (auto simp: queue_of_def entries_def decoded_def)
  show ?case
  proof (cases "entries view st")
    case (Cons b bs)
    obtain req where req: "cd_unmarshal cd b = Inr req" using Suc.prems(1) Cons by (auto simp: readable_def)
    have queue: "queue_of cd view st = (if isEmptyReq req then [] else [req]) @ filter (\<lambda>r. \<not> isEmptyReq r) (List.map (decoded cd) bs)"
      by (simp add: queue_of_def Cons decoded_def req)
    show ?thesis
    proof (cases "bs = [] \<and> isEmptyReq req")
      case False
      let ?st = "\<lambda>w w'. (retry_loop cfg (recording cl) (max_backoff cfg) req 0 (st\<lparr>lx_log := w, lx_open := True\<rparr>))\<lparr>lx_log := w'\<rparr>"
      obtain w w' where step: "readWALAndExport cfg (recording cl) lib cd st = (None, ?st w w')"
        "snd (view w') = (if bs = [] then [m] else bs)" "live w'"
        using read_pops [OF lawful m(1) Suc.prems(3) Cons req, where cfg = cfg and cl = "recording cl"] False by blast
      have calls: "calls_of (lx_exporter (?st w w')) = calls_of (lx_exporter st) @ (if isEmptyReq req then [] else [sent_as cfg req])"
        using retry_decisive [of req cl cfg "max_backoff cfg" "st\<lparr>lx_log := w, lx_open := True\<rparr>"] client
        by (simp add: retry_empty)
      have next_queue: "queue_of cd view (?st w w') = filter (\<lambda>r. \<not> isEmptyReq r) (List.map (decoded cd) bs)"
        by (simp add: queue_of_def entries_def step(2) decoded_def m)
      have usable: "usable_log live (?st w w')" using step(3) by (simp add: usable_log_def)
      have readable: "readable cd view (?st w w')"
        using Suc.prems(1) Cons m by (simp add: readable_def entries_def step(2))
      show ?thesis
      proof (cases "bs = []")
        case True
        then have "entries view (?st w w') = [m]" by (simp add: entries_def step(2))
        then obtain w2 where "readWALAndExport cfg (recording cl) lib cd (?st w w') =
            (Some (LogError ErrNotFound), (?st w w')\<lparr>lx_log := w2, lx_open := True\<rparr>)" "view w2 = view w'"
          using read_ends [OF lawful usable, where cfg = cfg and cl = "recording cl"] m by fastforce
        moreover obtain fuel' where "fuel = Suc fuel'" using Suc.prems(2) Cons by (cases fuel) auto
        ultimately show ?thesis using step calls queue next_queue True False
          by (auto simp: queue_of_def entries_def decoded_def m)
      next
        case more: False
        then have "length (entries view (?st w w')) < fuel" using Suc.prems(2) Cons by (simp add: entries_def step(2))
        from Suc.IH [OF readable this usable] step calls queue next_queue show ?thesis by auto
      qed
    qed (use stop Cons req in blast)
  qed (use stop in blast)
qed simp

text \<open>Flushing the log at shutdown ends after as many turns as the log has entries, plus one, and when no
call asks for a retry every request of the log is sent exactly once, oldest first, and none is left.\<close>

theorem shutdown_flushes_log:
  assumes "wal_lawful lib view live" "codec_ok cd" "\<And>k q r c. isNotRecoverable (fst (cl_series cl k q r c))"
    and "readable cd view st" "length (entries view st) < fuel" "usable_log live st"
  shows "\<exists>st'. drain_log fuel cfg (recording cl) lib cd st = Some (LogError ErrNotFound, st') \<and> queue_of cd view st' = [] \<and>
    calls_of (lx_exporter st') = calls_of (lx_exporter st) @ List.map (sent_as cfg) (queue_of cd view st)"
  using assms by (rule drain_exports_queue)

text \<open>With a log, \<open>PushMetrics\<close> refines appending to a queue: when every request can be marshalled it
reports no error, makes no call, and the queue of the log grows by the requests of the direct
export, in their order.\<close>

theorem push_appends_to_log:
  assumes "wal_lawful lib view live" "codec_ok cd" "readable cd view st" "live (lx_log st)"
    and "gather env cfg rms (lx_exporter st) = Inr (pd, me)"
    and "list_all (\<lambda>r. \<exists>b. cd_marshal cd r = Inr b) (requests_of (order pd) pd)"
  shows "\<exists>st'. PushMetricsToLog env cfg lib cd order rms st = Inr ([], st') \<and> readable cd view st' \<and>
    queue_of cd view st' = queue_of cd view st @ requests_of (order pd) pd \<and>
    ex_client (lx_exporter st') = ex_client (lx_exporter st)"
proof -
  have requests: "list_all (\<lambda>r. \<not> isEmptyReq r) (requests_of (order pd) pd)"
    by (auto simp: list_all_iff requests_of_def isEmptyReq_def dest!: project_requests_bounds)
  have same: "readable cd view (st\<lparr>lx_exporter := me\<rparr>)" "queue_of cd view (st\<lparr>lx_exporter := me\<rparr>) = queue_of cd view st"
    using assms(3) by (simp_all add: readable_def queue_of_def entries_def)
  from log_all_appends [OF assms(1,2,6) same(1) requests] assms(4) show ?thesis
    by (auto simp: PushMetricsToLog_def assms(5) same(2) gather_client [OF assms(5)])
qed

subsection \<open>A log in memory\<close>

definition list_log :: "(nat \<times> string list) wal_lib" where
  "list_log = \<lparr>wl_open = Inr, wl_close = (\<lambda>w. (None, w)),
     wl_first = (\<lambda>(f, xs). Inr (if xs = [] then 0 else max 1 f)),
     wl_last = (\<lambda>(f, xs). Inr (last_index (max 1 f, xs))),
     wl_read = (\<lambda>(f, xs) i. if max 1 f \<le> i \<and> i < max 1 f + length xs then Inr (xs ! (i - max 1 f)) else Inl ErrNotFound),
     wl_write = (\<lambda>(f, xs) i b. if i = last_index (max 1 f, xs) + 1
       then Inr (if xs = [] then (1, [b]) else (max 1 f, xs @ [b])) else Inl ErrOutOfRange),
     wl_truncate = (\<lambda>(f, xs) i. if max 1 f \<le> i \<and> i < max 1 f + length xs
       then Inr (i, drop (i - max 1 f) xs) else Inl ErrOutOfRange)\<rparr>"

definition list_view :: "nat \<times> string list \<Rightarrow> nat \<times> string list" where
  "list_view w = (max 1 (fst w), snd w)"

lemma list_log_lawful: "wal_lawful list_log list_view (\<lambda>w. True)"
  unfolding wal_lawful_def by (auto simp: list_log_def list_view_def last_index_def)

text \<open>A codec for requests without series, enough to fill a log.\<close>

definition name_codec :: codec where
  "name_codec = \<lparr>cd_marshal = (\<lambda>r. if rq_series r = [] then Inr (rq_name r) else Inl ''unsupported''),
     cd_unmarshal = (\<lambda>b. Inr \<lparr>rq_name = b, rq_series = []\<rparr>)\<rparr>"

lemma name_codec_ok: "codec_ok name_codec"
  by (auto simp: codec_ok_def name_codec_def emptyReq_def split: if_splits)

definition example_log :: "((unit \<times> client_call list), nat \<times> string list) log_exporter" where
  "example_log = \<lparr>lx_exporter = fresh_exporter ((), []) DisabledNormalizer,
     lx_log = (7, [''projects/p'', ''projects/q'']), lx_open = False, lx_slept = []\<rparr>"

lemma example_log_readable: "readable name_codec list_view example_log"
  by (simp add: readable_def entries_def name_codec_def example_log_def list_view_def)

lemma shutdown_flushes_log_witness:
  "\<exists>st'. drain_log 3 example_exporter_config (recording accepting_client) list_log name_codec example_log =
      Some (LogError ErrNotFound, st') \<and> queue_of name_codec list_view st' = [] \<and>
    calls_of (lx_exporter st') = calls_of (lx_exporter example_log) @
      List.map (sent_as example_exporter_config) (queue_of name_codec list_view example_log)"
  by (rule shutdown_flushes_log [OF list_log_lawful name_codec_ok _ example_log_readable])
    (simp_all add: accepting_client_def isNotRecoverable_def status_ok_def entries_def example_log_def list_view_def usable_log_def)

lemma read_exports_oldest_request_witness:
  "\<exists>e st' k. readWALAndExport example_exporter_config (recording refusing_client) list_log name_codec example_log = (e, st') \<and>
    e = None \<and> queue_of name_codec list_view st' = [\<lparr>rq_name = ''projects/q'', rq_series = []\<rparr>] \<and>
    1 \<le> k \<and> k \<le> 12 \<and>
    calls_of (lx_exporter st') = replicate k (sent_as example_exporter_config \<lparr>rq_name = ''projects/p'', rq_series = []\<rparr>)"
proof -
  obtain e st' where run: "readWALAndExport example_exporter_config (recording refusing_client) list_log name_codec example_log = (e, st')"
    by fastforce
  have queue: "queue_of name_codec list_view example_log =
      [\<lparr>rq_name = ''projects/p'', rq_series = []\<rparr>, \<lparr>rq_name = ''projects/q'', rq_series = []\<rparr>]"
    by (simp add: queue_of_def entries_def decoded_def name_codec_def example_log_def list_view_def isEmptyReq_def)
  have "\<not> isEmptyReq (decoded name_codec (hd (entries list_view example_log)))"
    by (simp add: entries_def decoded_def name_codec_def example_log_def list_view_def isEmptyReq_def)
  from read_exports_oldest_request [OF list_log_lawful name_codec_ok example_log_readable _ run this] run
  have "e = None \<and> queue_of name_codec list_view st' = [\<lparr>rq_name = ''projects/q'', rq_series = []\<rparr>] \<and>
      (\<exists>k. 1 \<le> k \<and> k \<le> 12 \<and> calls_of (lx_exporter st') =
        replicate k (sent_as example_exporter_config \<lparr>rq_name = ''projects/p'', rq_series = []\<rparr>))"
    by (simp add: queue usable_log_def) (simp add: calls_of_def example_log_def fresh_exporter_def)
  with run show ?thesis by blast
qed

text \<open>A codec for one request beside the empty one.\<close>

definition single_codec :: "ts_request \<Rightarrow> codec" where
  "single_codec q = \<lparr>cd_marshal = (\<lambda>r. if r = emptyReq then Inr [] else if r = q then Inr ''q'' else Inl ''unsupported''),
     cd_unmarshal = (\<lambda>b. Inr (if b = [] then emptyReq else q))\<rparr>"

lemma single_codec_ok: "codec_ok (single_codec q)"
  by (auto simp: codec_ok_def single_codec_def split: if_splits)

lemma push_appends_to_log_witness:
  "\<exists>ts q st'. q = \<lparr>rq_name = projectName ''p'', rq_series = [ts]\<rparr> \<and>
    PushMetricsToLog example_env example_exporter_config list_log (single_codec q) (\<lambda>pd. [''p'']) example_resources example_log =
      Inr ([], st') \<and>
    queue_of (single_codec q) list_view st' = queue_of (single_codec q) list_view example_log @ [q]"
proof -
  obtain ts me where g: "gather example_env example_exporter_config example_resources (lx_exporter example_log) = Inr ([''p'' \<mapsto> [ts]], me)"
    using gather_example by blast
  let ?q = "\<lparr>rq_name = projectName ''p'', rq_series = [ts]\<rparr>"
  have requests: "requests_of ((\<lambda>pd. [''p'']) [''p'' \<mapsto> [ts]]) [''p'' \<mapsto> [ts]] = [?q]"
    by (simp add: requests_of_def project_requests_def chunks.simps sendBatchSize_def)
  have "readable (single_codec ?q) list_view example_log"
    by (simp add: readable_def entries_def single_codec_def example_log_def list_view_def)
  moreover have "list_all (\<lambda>r. \<exists>b. cd_marshal (single_codec ?q) r = Inr b) (requests_of ((\<lambda>pd. [''p'']) [''p'' \<mapsto> [ts]]) [''p'' \<mapsto> [ts]])"
    unfolding requests by (simp add: single_codec_def)
  ultimately show ?thesis
    using push_appends_to_log [OF list_log_lawful single_codec_ok _ TrueI g, of ?q "\<lambda>pd. [''p'']"] unfolding requests by blast
qed

end
