(* ===== verification/Gmp.thy ===== *)
theory Gmp
  imports ResourceMapping MetricMapper
begin

text \<open>
  The Google Managed Prometheus part (exporter/collector/googlemanagedprometheus): the names of
  metrics (naming.go) and the metrics added before export (extra_metrics.go, config.go): counters
  for untyped gauges, \<open>target_info\<close>, \<open>otel_scope_info\<close>, and the conversion of integers. The feature
  gate is an argument. A function that updates pdata in place is a function from the old to the new
  contents, in the order in which the loops append.
\<close>

subsection \<open>Configuration\<close>

record extra_metrics_config =
  xc_target_info :: bool
  xc_scope_info :: bool

record gmp_config =
  gc_metric_suffixes :: bool
  gc_extra :: extra_metrics_config
  gc_quota :: bool

definition DefaultConfig :: gmp_config where
  "DefaultConfig = \<lparr>gc_metric_suffixes = True,
     gc_extra = \<lparr>xc_target_info = True, xc_scope_info = True\<rparr>, gc_quota = False\<rparr>"

subsection \<open>Names\<close>

definition prometheusMetricMetadataTypeKey :: string where
  "prometheusMetricMetadataTypeKey = ''prometheus.type''"

text \<open>The value of \<open>model.MetricTypeUnknown\<close>.\<close>

definition unknown_type :: string where
  "unknown_type = ''unknown''"

definition isUnknown :: "metric \<Rightarrow> bool" where
  "isUnknown m = (case pmap_get (m_metadata m) prometheusMetricMetadataTypeKey of
     Some v \<Rightarrow> val_str v = unknown_type | None \<Rightarrow> False)"

definition name_tokens :: "unicode_tables \<Rightarrow> string \<Rightarrow> string list" where
  "name_tokens u name = fields_func name (\<lambda>r. \<not> is_letter u r \<and> \<not> is_digit u r)"

definition getUnknownMetricName :: "unicode_tables \<Rightarrow> metric \<Rightarrow> string \<Rightarrow> string \<Rightarrow> string \<Rightarrow> (go_panic, string) res" where
  "getUnknownMetricName u m typeSuffix secondarySuffix compliantName =
     (let nameTokens = name_tokens u (m_name m) in
      if isUnknown m then
        if nameTokens = [] then Inl IndexOutOfRange
        else Inr ((if last nameTokens \<noteq> ''total'' \<and> has_suffix compliantName ''_total''
                   then trim_suffix compliantName ''_total'' else compliantName) @
             ''/unknown'' @ (if secondarySuffix = [] then [] else '':'' @ secondarySuffix))
      else Inr (compliantName @ typeSuffix))"

definition GetMetricName :: "unicode_tables \<Rightarrow> string \<Rightarrow> string \<Rightarrow> metric \<Rightarrow> (go_panic, (string, string) res) res" where
  "GetMetricName u baseName compliantName m = (case m_data m of
     MSum monotonic temporality points \<Rightarrow>
       if \<not> monotonic then Inr (Inr (compliantName @ ''/gauge''))
       else res_bind (getUnknownMetricName u m ''/counter'' ''counter'' compliantName) (\<lambda>n. Inr (Inr n))
   | MGauge points \<Rightarrow> res_bind (getUnknownMetricName u m ''/gauge'' [] compliantName) (\<lambda>n. Inr (Inr n))
   | MSummary points \<Rightarrow> Inr (Inr (
       if has_suffix baseName ''_sum'' then compliantName @ ''_sum/summary:counter''
       else if has_suffix baseName ''_count'' then compliantName @ ''_count/summary''
       else compliantName @ ''/summary''))
   | MHistogram temporality points \<Rightarrow> Inr (Inr (compliantName @ ''/histogram''))
   | MExpHistogram temporality points \<Rightarrow> Inr (Inr (compliantName @ ''/histogram''))
   | MEmpty \<Rightarrow> Inr (Inl ''unsupported metric datatype: Empty''))"


subsection \<open>Integers to doubles\<close>

definition double_point :: "number_point \<Rightarrow> number_point" where
  "double_point p = (case np_value p of
     NInt i \<Rightarrow> p\<lparr>np_value := NDouble (f_of_int (sint i))\<rparr> | _ \<Rightarrow> p)"

definition double_metric :: "metric \<Rightarrow> metric" where
  "double_metric m = (case m_data m of
     MSum monotonic temporality points \<Rightarrow> m\<lparr>m_data := MSum monotonic temporality (List.map double_point points)\<rparr>
   | MGauge points \<Rightarrow> m\<lparr>m_data := MGauge (List.map double_point points)\<rparr>
   | _ \<Rightarrow> m)"

definition map_metrics :: "(metric \<Rightarrow> metric) \<Rightarrow> resource_metrics \<Rightarrow> resource_metrics" where
  "map_metrics f rm = rm\<lparr>rm_scopes := List.map (\<lambda>sm. sm\<lparr>sm_metrics := List.map f (sm_metrics sm)\<rparr>) (rm_scopes rm)\<rparr>"

definition convertIntToDouble :: "bool \<Rightarrow> resource_metrics list \<Rightarrow> resource_metrics list" where
  "convertIntToDouble gate rms = (if gate then List.map (map_metrics double_metric) rms else rms)"

subsection \<open>Untyped metrics\<close>

definition untyped_sum :: "metric \<Rightarrow> number_point \<Rightarrow> metric" where
  "untyped_sum m point = \<lparr>m_name = m_name m, m_description = m_description m, m_unit = m_unit m,
     m_metadata = pmap_put [] prometheusMetricMetadataTypeKey (VStr unknown_type),
     m_data = MSum True TCumulative [\<lparr>np_attrs = np_attrs point, np_start = np_start point,
       np_time = np_time point, np_flags = np_flags point, np_value = np_value point\<rparr>]\<rparr>"

definition untyped_sums :: "metric \<Rightarrow> metric list" where
  "untyped_sums m = (case m_data m of
     MGauge points \<Rightarrow> if isUnknown m then List.map (untyped_sum m) points else []
   | _ \<Rightarrow> [])"

definition addUntypedMetrics :: "resource_metrics list \<Rightarrow> resource_metrics list" where
  "addUntypedMetrics rms = List.map (\<lambda>rm. rm\<lparr>rm_scopes :=
     List.map (\<lambda>sm. sm\<lparr>sm_metrics := sm_metrics sm @ concat (List.map untyped_sums (sm_metrics sm))\<rparr>) (rm_scopes rm)\<rparr>) rms"

subsection \<open>The latest time\<close>

text \<open>\<open>NewTimestampFromTime\<close>: \<open>UnixNano\<close> wraps around outside the range of \<open>int64\<close>.\<close>

definition timestamp_from_time :: "int \<Rightarrow> u64" where
  "timestamp_from_time t = word_of_int t"

definition metric_point_times :: "metric \<Rightarrow> u64 list" where
  "metric_point_times m = (case m_data m of
     MSum monotonic temporality points \<Rightarrow> List.map np_time points
   | MGauge points \<Rightarrow> List.map np_time points
   | MSummary points \<Rightarrow> List.map sp_time points
   | MHistogram temporality points \<Rightarrow> List.map hp_time points
   | MExpHistogram temporality points \<Rightarrow> List.map xp_time points
   | MEmpty \<Rightarrow> [])"

definition latest_time :: "metric list \<Rightarrow> int" where
  "latest_time ms = foldl (\<lambda>latest t. if latest < as_time t then as_time t else latest) zero_time
     (concat (List.map metric_point_times ms))"

subsection \<open>target info\<close>

record resource_id =
  ri_service_name :: string
  ri_instance_id :: string
  ri_namespace :: string

definition get_resource_attr :: "as_string \<Rightarrow> resource_metrics \<Rightarrow> string \<Rightarrow> string" where
  "get_resource_attr str rm k = (case pmap_get (rm_resource rm) k of Some v \<Rightarrow> str v | None \<Rightarrow> [])"

definition resource_id_of :: "as_string \<Rightarrow> resource_metrics \<Rightarrow> resource_id" where
  "resource_id_of str rm = \<lparr>ri_service_name = get_resource_attr str rm ''service.name'',
     ri_instance_id = get_resource_attr str rm ''service.instance.id'',
     ri_namespace = get_resource_attr str rm ''service.namespace''\<rparr>"

definition reserved_target_keys :: "string list" where
  "reserved_target_keys = [''service.name'', ''service.namespace'', ''service.instance.id'',
     ''location'', ''cluster'', ''namespace'', ''job'', ''service_namespace'', ''instance'']"

fun put_strings :: "as_string \<Rightarrow> (string \<Rightarrow> bool) \<Rightarrow> pmap \<Rightarrow> pmap \<Rightarrow> pmap" where
  "put_strings str keep [] acc = acc"
| "put_strings str keep ((k, v) # kvs) acc =
     put_strings str keep kvs (if keep k then pmap_put acc k (VStr (str v)) else acc)"

definition info_metric :: "string \<Rightarrow> pmap \<Rightarrow> int \<Rightarrow> metric" where
  "info_metric name attrs t = \<lparr>m_name = name, m_description = [], m_unit = [], m_metadata = [],
     m_data = MGauge [new_number_point\<lparr>np_value := NInt 1, np_time := timestamp_from_time t, np_attrs := attrs\<rparr>]\<rparr>"

definition empty_scope :: scope where
  "empty_scope = \<lparr>scope_name = [], scope_version = [], scope_attrs = []\<rparr>"

definition target_info_scope :: "as_string \<Rightarrow> resource_metrics \<Rightarrow> scope_metrics" where
  "target_info_scope str rm = \<lparr>sm_scope = empty_scope,
     sm_metrics = [info_metric ''target_info''
       (put_strings str (\<lambda>k. k \<notin> set reserved_target_keys) (rm_resource rm) [])
       (latest_time (concat (List.map sm_metrics (rm_scopes rm))))]\<rparr>"

fun target_info_loop :: "as_string \<Rightarrow> resource_id set \<Rightarrow> resource_metrics list \<Rightarrow> resource_metrics list" where
  "target_info_loop str ids [] = []"
| "target_info_loop str ids (rm # rms) =
     (if resource_id_of str rm \<in> ids then rm # target_info_loop str ids rms
      else rm\<lparr>rm_scopes := rm_scopes rm @ [target_info_scope str rm]\<rparr> #
        target_info_loop str (insert (resource_id_of str rm) ids) rms)"

definition addTargetInfoMetric :: "as_string \<Rightarrow> gmp_config \<Rightarrow> resource_metrics list \<Rightarrow> resource_metrics list" where
  "addTargetInfoMetric str c rms = (if xc_target_info (gc_extra c) then target_info_loop str {} rms else rms)"

subsection \<open>otel scope info\<close>

record scope_id =
  si_resource :: resource_id
  si_name :: string
  si_version :: string

definition put_scope :: "scope \<Rightarrow> pmap \<Rightarrow> pmap" where
  "put_scope s attrs = pmap_put (pmap_put attrs ''otel_scope_name'' (VStr (scope_name s)))
     ''otel_scope_version'' (VStr (scope_version s))"

definition scope_attributes_metric :: "scope \<Rightarrow> metric \<Rightarrow> metric" where
  "scope_attributes_metric s m = (case m_data m of
     MSum monotonic temporality points \<Rightarrow>
       m\<lparr>m_data := MSum monotonic temporality (List.map (\<lambda>p. p\<lparr>np_attrs := put_scope s (np_attrs p)\<rparr>) points)\<rparr>
   | MGauge points \<Rightarrow> m\<lparr>m_data := MGauge (List.map (\<lambda>p. p\<lparr>np_attrs := put_scope s (np_attrs p)\<rparr>) points)\<rparr>
   | MSummary points \<Rightarrow> m\<lparr>m_data := MSummary (List.map (\<lambda>p. p\<lparr>sp_attrs := put_scope s (sp_attrs p)\<rparr>) points)\<rparr>
   | MHistogram temporality points \<Rightarrow>
       m\<lparr>m_data := MHistogram temporality (List.map (\<lambda>p. p\<lparr>hp_attrs := put_scope s (hp_attrs p)\<rparr>) points)\<rparr>
   | MExpHistogram temporality points \<Rightarrow>
       m\<lparr>m_data := MExpHistogram temporality (List.map (\<lambda>p. p\<lparr>xp_attrs := put_scope s (xp_attrs p)\<rparr>) points)\<rparr>
   | MEmpty \<Rightarrow> m)"

definition scope_info :: "as_string \<Rightarrow> scope_metrics \<Rightarrow> metric" where
  "scope_info str sm = info_metric ''otel_scope_info''
     (put_scope (sm_scope sm) (put_strings str (\<lambda>k. True) (scope_attrs (sm_scope sm)) []))
     (latest_time (sm_metrics sm))"

fun scope_info_loop :: "as_string \<Rightarrow> resource_id \<Rightarrow> scope_id set \<Rightarrow> scope_metrics list \<Rightarrow> scope_id set \<times> scope_metrics list" where
  "scope_info_loop str rid ids [] = (ids, [])"
| "scope_info_loop str rid ids (sm # sms) =
     (let s = sm_scope sm in
      if scope_name s = [] \<and> scope_version s = [] then
        let (ids, sms) = scope_info_loop str rid ids sms in (ids, sm # sms)
      else
        let ms = List.map (scope_attributes_metric s) (sm_metrics sm);
            sid = \<lparr>si_resource = rid, si_name = scope_name s, si_version = scope_version s\<rparr>;
            ms' = (if sid \<in> ids then ms else ms @ [scope_info str sm]);
            (ids, sms) = scope_info_loop str rid (insert sid ids) sms
        in (ids, sm\<lparr>sm_metrics := ms'\<rparr> # sms))"

fun resource_scope_loop :: "as_string \<Rightarrow> scope_id set \<Rightarrow> resource_metrics list \<Rightarrow> resource_metrics list" where
  "resource_scope_loop str ids [] = []"
| "resource_scope_loop str ids (rm # rms) =
     (let (ids, sms) = scope_info_loop str (resource_id_of str rm) ids (rm_scopes rm)
      in rm\<lparr>rm_scopes := sms\<rparr> # resource_scope_loop str ids rms)"

definition addScopeInfoMetric :: "as_string \<Rightarrow> gmp_config \<Rightarrow> resource_metrics list \<Rightarrow> resource_metrics list" where
  "addScopeInfoMetric str c rms = (if xc_scope_info (gc_extra c) then resource_scope_loop str {} rms else rms)"

definition ExtraMetrics :: "as_string \<Rightarrow> bool \<Rightarrow> gmp_config \<Rightarrow> resource_metrics list \<Rightarrow> resource_metrics list" where
  "ExtraMetrics str gate c rms =
     convertIntToDouble gate (addScopeInfoMetric str c (addTargetInfoMetric str c (addUntypedMetrics rms)))"

subsection \<open>Properties of the names\<close>

lemma pmap_get_Nil [simp]: "pmap_get [] k = None"
  by (simp add: pmap_get_def)

lemma untyped_sum_unknown [simp]: "isUnknown (untyped_sum m p)"
  by (simp add: isUnknown_def untyped_sum_def pmap_get_def val_str_def)

text \<open>Naming a metric panics exactly for a gauge or a monotonic sum of unknown type whose name has no
letter and no digit.\<close>

theorem naming_panics_without_tokens:
  "GetMetricName u baseName compliantName m = Inl IndexOutOfRange \<longleftrightarrow>
     isUnknown m \<and> name_tokens u (m_name m) = [] \<and>
     (case m_data m of MGauge points \<Rightarrow> True | MSum monotonic temporality points \<Rightarrow> monotonic | _ \<Rightarrow> False)"
  by (auto simp: GetMetricName_def getUnknownMetricName_def res_bind_Inl_iff Let_def split: metric_data.splits)

lemma untyped_sum_fields [simp]:
  "m_name (untyped_sum m p) = m_name m" "m_data (untyped_sum m p) = MSum True TCumulative [p]"
  by (simp_all add: untyped_sum_def)








definition untyped_example :: metric where
  "untyped_example = \<lparr>m_name = ''bar'', m_description = [], m_unit = [],
     m_metadata = [(''prometheus.type'', VStr ''unknown'')],
     m_data = MGauge [new_number_point\<lparr>np_value := NInt 5\<rparr>]\<rparr>"

definition untyped_resource :: resource_metrics where
  "untyped_resource = \<lparr>rm_resource = [(''service.name'', VStr ''s'')],
     rm_scopes = [\<lparr>sm_scope = empty_scope, sm_metrics = [untyped_example]\<rparr>]\<rparr>"




subsection \<open>Properties of the added metrics\<close>

definition is_target_info :: "as_string \<Rightarrow> resource_metrics \<Rightarrow> scope_metrics \<Rightarrow> bool" where
  "is_target_info str rm sm \<longleftrightarrow> sm = target_info_scope str rm"

lemma target_info_loop_nth:
  assumes "i < length rms"
  shows "target_info_loop str ids rms ! i =
    (if resource_id_of str (rms ! i) \<in> ids \<union> resource_id_of str ` set (take i rms) then rms ! i
     else (rms ! i)\<lparr>rm_scopes := rm_scopes (rms ! i) @ [target_info_scope str (rms ! i)]\<rparr>)"
  using assms
proof (induction rms arbitrary: ids i)
  case (Cons rm rms)
  show ?case
  proof (cases i)
    case (Suc j)
    with Cons show ?thesis by (auto simp: insert_absorb)
  qed simp
qed simp

lemma length_target_info_loop [simp]: "length (target_info_loop str ids rms) = length rms"
  by (induction str ids rms rule: target_info_loop.induct) simp_all

text \<open>The timestamp of an info metric is at or after every point it covers, and is one of theirs.\<close>

lemma latest_fold:
  "latest \<le> foldl (\<lambda>latest t. if latest < as_time t then as_time t else latest) latest ts \<and>
   (\<forall>t \<in> set ts. as_time t \<le> foldl (\<lambda>latest t. if latest < as_time t then as_time t else latest) latest ts) \<and>
   (foldl (\<lambda>latest t. if latest < as_time t then as_time t else latest) latest ts = latest \<or>
    (\<exists>t \<in> set ts. foldl (\<lambda>latest t. if latest < as_time t then as_time t else latest) latest ts = as_time t))"
proof (induction ts arbitrary: latest)
  case (Cons t ts)
  from Cons [of "as_time t"] Cons [of latest] show ?case by (cases "latest < as_time t") auto
qed simp

lemma zero_time_early: "zero_time < as_time t"
proof -
  have "- (2 ^ 63) \<le> sint t" using sint_greater_eq [of t] by simp
  then show ?thesis by (simp add: zero_time_def as_time_def)
qed

lemma latest_time_is_point_time:
  assumes "concat (List.map metric_point_times ms) \<noteq> []"
  shows "\<exists>t \<in> set (concat (List.map metric_point_times ms)). timestamp_from_time (latest_time ms) = t \<and>
    (\<forall>t' \<in> set (concat (List.map metric_point_times ms)). \<not> ts_before t t')"
proof -
  let ?ts = "concat (List.map metric_point_times ms)"
  obtain t0 where t0: "t0 \<in> set ?ts" using assms by (cases ?ts) auto
  have "latest_time ms \<noteq> zero_time"
    using latest_fold [of zero_time ?ts] t0 zero_time_early [of t0] by (force simp: latest_time_def)
  then obtain t where "t \<in> set ?ts" "latest_time ms = as_time t"
    using latest_fold [of zero_time ?ts] by (auto simp: latest_time_def)
  moreover have "\<forall>t' \<in> set ?ts. as_time t' \<le> latest_time ms"
    using latest_fold [of zero_time ?ts] by (simp add: latest_time_def)
  ultimately show ?thesis
    by (intro bexI [of _ t]) (auto simp: timestamp_from_time_def as_time_def ts_before_def simp del: set_concat)
qed

lemma latest_time_without_points:
  "concat (List.map metric_point_times ms) = [] \<Longrightarrow> latest_time ms = zero_time"
  by (simp add: latest_time_def del: concat_eq_Nil_conv)

lemma keys_put_strings: "fst ` set (put_strings str keep kvs acc) = fst ` set acc \<union> {k \<in> fst ` set kvs. keep k}"
proof (induction kvs arbitrary: acc)
  case (Cons kv kvs)
  then show ?case using keys_pmap_put [of acc "fst kv" "VStr (str (snd kv))"] by (cases kv) auto
qed simp

text \<open>With target info on, a resource gets one exactly when no earlier resource has its service name,
namespace and instance: one new scope behind its own with the gauge \<open>target_info\<close> of value 1, at the
latest time of the points of the resource; the scopes that were there are unchanged, and no resource
is added, dropped or moved.\<close>

theorem target_info_once_per_resource_id:
  assumes "xc_target_info (gc_extra c)" "i < length rms"
  shows "length (addTargetInfoMetric str c rms) = length rms \<and>
    (let rm = rms ! i; ms = concat (List.map sm_metrics (rm_scopes rm)); ts = concat (List.map metric_point_times ms) in
     if resource_id_of str rm \<in> resource_id_of str ` set (take i rms) then addTargetInfoMetric str c rms ! i = rm
     else \<exists>attrs t. addTargetInfoMetric str c rms ! i = rm\<lparr>rm_scopes := rm_scopes rm @
         [\<lparr>sm_scope = empty_scope, sm_metrics = [info_metric ''target_info'' attrs t]\<rparr>]\<rparr> \<and>
       set (List.map fst attrs) = set (List.map fst (rm_resource rm)) - set reserved_target_keys \<and>
       (if ts = [] then t = zero_time
        else timestamp_from_time t \<in> set ts \<and> list_all (\<lambda>t'. \<not> ts_before (timestamp_from_time t) t') ts))"
proof -
  let ?rm = "rms ! i"
  let ?ms = "concat (List.map sm_metrics (rm_scopes ?rm))"
  show ?thesis
  proof (cases "resource_id_of str ?rm \<in> resource_id_of str ` set (take i rms)")
    case True
    then show ?thesis using assms by (simp add: addTargetInfoMetric_def target_info_loop_nth Let_def)
  next
    case False
    let ?attrs = "put_strings str (\<lambda>k. k \<notin> set reserved_target_keys) (rm_resource ?rm) []"
    let ?ts = "concat (List.map metric_point_times ?ms)"
    have length: "length (addTargetInfoMetric str c rms) = length rms" by (simp add: addTargetInfoMetric_def)
    have loop: "addTargetInfoMetric str c rms ! i = ?rm\<lparr>rm_scopes := rm_scopes ?rm @
        [\<lparr>sm_scope = empty_scope, sm_metrics = [info_metric ''target_info'' ?attrs (latest_time ?ms)]\<rparr>]\<rparr>"
      using False assms by (simp add: addTargetInfoMetric_def target_info_loop_nth target_info_scope_def)
    have attrs: "set (List.map fst ?attrs) = set (List.map fst (rm_resource ?rm)) - set reserved_target_keys"
      by (auto simp: keys_put_strings)
    have times: "if ?ts = [] then latest_time ?ms = zero_time
        else timestamp_from_time (latest_time ?ms) \<in> set ?ts \<and>
          list_all (\<lambda>t'. \<not> ts_before (timestamp_from_time (latest_time ?ms)) t') ?ts"
    proof (cases "?ts = []")
      case True
      with latest_time_without_points [OF this] show ?thesis by simp
    next
      case False
      from latest_time_is_point_time [OF this] False show ?thesis by (simp only: if_False list_all_iff) blast
    qed
    show ?thesis
      unfolding Let_def if_not_P [OF False] using length loop attrs times by blast
  qed
qed

lemma target_info_once_per_resource_id_witness:
  "length (addTargetInfoMetric val_str DefaultConfig [untyped_resource, untyped_resource]) = 2 \<and>
   addTargetInfoMetric val_str DefaultConfig [untyped_resource, untyped_resource] ! 1 = untyped_resource"
proof -
  have on: "xc_target_info (gc_extra DefaultConfig)" by (simp add: DefaultConfig_def)
  have "resource_id_of val_str ([untyped_resource, untyped_resource] ! 1) \<in>
      resource_id_of val_str ` set (take 1 [untyped_resource, untyped_resource])" by simp
  with target_info_once_per_resource_id [OF on, of 1 "[untyped_resource, untyped_resource]" val_str]
  show ?thesis by (simp add: Let_def)
qed

end
