(* ===== verification/FloatBounds.thy ===== *)
theory FloatBounds
  imports GoFloat
begin

text \<open>
  The values of the finite floats as real numbers: rounding is monotone and its relative error is at
  most \<open>2^-53\<close>. These facts carry over to quotients and products of integers, which is what the
  exporters compute sizes with.
\<close>

subsection \<open>Rounding a real number to an integer\<close>

definition nearest :: "real \<Rightarrow> int" where
  "nearest x = (let q = \<lfloor>x\<rfloor> in if 2 * (x - real_of_int q) < 1 \<or> (2 * (x - real_of_int q) = 1 \<and> even q) then q else q + 1)"

lemma nearest_of_int [simp]: "nearest (real_of_int k) = k"
  by (simp add: nearest_def)

lemma nearest_error: "\<bar>real_of_int (nearest x) - x\<bar> \<le> 1 / 2"
proof -
  obtain q where q: "\<lfloor>x\<rfloor> = q" by blast
  then have "real_of_int q \<le> x" "x < real_of_int q + 1" by linarith+
  then show ?thesis unfolding nearest_def q Let_def by (auto simp: abs_le_iff)
qed

lemma nearest_mono:
  fixes x y :: real
  assumes "x \<le> y" shows "nearest x \<le> nearest y"
proof (cases "\<lfloor>x\<rfloor> = \<lfloor>y\<rfloor>")
  case True
  with assms show ?thesis by (auto simp: nearest_def Let_def)
next
  case False
  then have "\<lfloor>x\<rfloor> < \<lfloor>y\<rfloor>" using assms by (simp add: floor_mono order_le_neq_trans)
  then show ?thesis by (auto simp: nearest_def Let_def)
qed

lemma round_even_nearest:
  assumes "0 < d" shows "round_even n d = nearest (n / d)"
proof -
  have q: "\<lfloor>real_of_int n / d\<rfloor> = n div d" by (rule floor_divide_of_int_eq)
  have "n = d * (n div d) + n mod d" by simp
  then have "real_of_int n = real_of_int d * real_of_int (n div d) + real_of_int (n mod d)"
    by (metis of_int_add of_int_mult)
  then have "real_of_int n / real_of_int d =
      (real_of_int d * real_of_int (n div d) + real_of_int (n mod d)) / real_of_int d" by (rule arg_cong)
  also have "\<dots> = real_of_int (n div d) + real_of_int (n mod d) / real_of_int d"
    using assms by (simp add: add_divide_distrib)
  finally have r: "real_of_int n / d - (n div d) = (n mod d) / d" by simp
  have "2 * (real_of_int n / d - (n div d)) < 1 \<longleftrightarrow> 2 * (n mod d) < d"
  proof -
    have "2 * (real_of_int (n mod d) / d) < 1 \<longleftrightarrow> real_of_int (2 * (n mod d)) < d"
      using assms by (simp add: divide_less_eq)
    then show ?thesis unfolding r by (simp only: of_int_less_iff)
  qed
  moreover have "2 * (real_of_int n / d - (n div d)) = 1 \<longleftrightarrow> 2 * (n mod d) = d"
  proof -
    have "2 * (real_of_int (n mod d) / d) = 1 \<longleftrightarrow> real_of_int (2 * (n mod d)) = d"
      using assms by (simp add: divide_eq_eq)
    then show ?thesis unfolding r by (simp only: of_int_eq_iff)
  qed
  ultimately show ?thesis by (simp add: round_even_def nearest_def Let_def q)
qed

subsection \<open>The grid of an exponent\<close>

abbreviation two_to :: "int \<Rightarrow> real" where
  "two_to e \<equiv> 2 powi e"

lemma two_to_add: "two_to (a + b) = two_to a * two_to b"
  by (simp add: power_int_add)

lemma two_to_mono: "a \<le> b \<Longrightarrow> two_to a \<le> two_to b"
  by (rule power_int_increasing) simp_all

lemma two_to_less_imp: "two_to a < two_to b \<Longrightarrow> a < b"
  using two_to_mono [of b a] by (cases "a < b") auto

definition on_grid :: "int \<Rightarrow> real \<Rightarrow> real" where
  "on_grid e v = nearest (v / two_to e) * two_to e"

lemma on_grid_error: "\<bar>on_grid e v - v\<bar> \<le> two_to e / 2"
proof -
  have "on_grid e v - v = (nearest (v / two_to e) - v / two_to e) * two_to e"
    by (simp add: on_grid_def field_simps)
  then have "\<bar>on_grid e v - v\<bar> = \<bar>nearest (v / two_to e) - v / two_to e\<bar> * two_to e"
    by (simp add: abs_mult)
  also have "\<dots> \<le> 1 / 2 * two_to e" using nearest_error [of "v / two_to e"] by (intro mult_right_mono) simp_all
  finally show ?thesis by simp
qed

text \<open>The exponent of a positive number: 53 bits, but not below the smallest one.\<close>

definition has_exponent :: "real \<Rightarrow> int \<Rightarrow> bool" where
  "has_exponent v e \<longleftrightarrow> -1074 \<le> e \<and> v < two_to (e + 53) \<and> (e = -1074 \<or> two_to (e + 52) \<le> v)"

lemma on_grid_mono:
  assumes "0 < v" "v \<le> w" "has_exponent v d" "has_exponent w e"
  shows "on_grid d v \<le> on_grid e w"
proof (cases "d = e")
  case True
  have "nearest (v / two_to e) \<le> nearest (w / two_to e)"
    by (rule nearest_mono) (use assms in \<open>simp add: divide_right_mono\<close>)
  then show ?thesis by (simp add: True on_grid_def)
next
  case False
  have "d \<le> e"
  proof (rule ccontr)
    assume "\<not> d \<le> e"
    then have "two_to (e + 53) \<le> two_to (d + 52)" by (intro two_to_mono) simp
    moreover have "two_to (d + 52) \<le> v" using assms(3,4) \<open>\<not> d \<le> e\<close> by (auto simp: has_exponent_def)
    moreover have "w < two_to (e + 53)" using assms(4) by (simp add: has_exponent_def)
    ultimately show False using assms(2) by linarith
  qed
  with False have less: "d < e" by simp
  have "v / two_to d \<le> real_of_int (2 ^ 53)"
    using assms(3) by (simp add: has_exponent_def two_to_add field_simps)
  from nearest_mono [OF this] have "nearest (v / two_to d) \<le> 2 ^ 53" by (simp only: nearest_of_int)
  then have "on_grid d v \<le> 2 ^ 53 * two_to d"
    unfolding on_grid_def by (intro mult_right_mono) (simp_all add: of_int_le_iff [symmetric] del: of_int_le_iff)
  also have "\<dots> = two_to (d + 53)" by (simp add: two_to_add)
  also have "\<dots> \<le> two_to (e + 52)" using less by (intro two_to_mono) simp
  also have "\<dots> = 2 ^ 52 * two_to e" by (simp add: two_to_add)
  also have "\<dots> \<le> on_grid e w"
  proof -
    have "real_of_int (2 ^ 52) \<le> w / two_to e"
      using assms(3,4) less by (auto simp: has_exponent_def two_to_add field_simps)
    from nearest_mono [OF this] have "2 ^ 52 \<le> nearest (w / two_to e)" by (simp only: nearest_of_int)
    then show ?thesis
      unfolding on_grid_def by (intro mult_right_mono) (simp_all add: of_int_le_iff [symmetric] del: of_int_le_iff)
  qed
  finally show ?thesis .
qed

subsection \<open>What rounding a ratio returns\<close>

fun fval :: "f64 \<Rightarrow> real" where
  "fval (F_Fin s m e) = real_of_int (signed_mant s m) * two_to e"
| "fval _ = 0"

definition fits :: "f64 \<Rightarrow> bool" where
  "fits x \<longleftrightarrow> (\<exists>m e. x = F_Fin False m e \<and> 0 \<le> m)"

lemma scale_ratio_value:
  assumes "0 < d" shows "0 < snd (scale_ratio n d e) \<and> fst (scale_ratio n d e) / snd (scale_ratio n d e) = n / d / two_to e"
  using assms by (auto simp: scale_ratio_def power_int_def field_simps)

lemma bitlen_value:
  assumes "0 < n" shows "two_to (bitlen n - 1) \<le> real_of_int n \<and> real_of_int n < two_to (bitlen n)"
proof -
  from bitlen_bounds [OF assms] have "2 ^ nat (bitlen n - 1) \<le> n" "n < 2 ^ nat (bitlen n)" by auto
  then have "real_of_int (2 ^ nat (bitlen n - 1)) \<le> n" "real_of_int n < real_of_int (2 ^ nat (bitlen n))"
    by (simp_all only: of_int_le_iff of_int_less_iff)
  moreover have "1 \<le> bitlen n" using bitlen_low [OF assms] by simp
  ultimately show ?thesis by (simp add: power_int_def)
qed

lemma quant_exp_value:
  assumes "0 < n" "0 < d"
  shows "two_to (quant_exp n d + 52) \<le> n / d \<and> real_of_int n / d < two_to (quant_exp n d + 53)"
proof -
  let ?k = "bitlen n - bitlen d"
  have d: "0 < real_of_int d" using assms by simp
  have low: "two_to (?k - 1) < n / d"
  proof -
    have "two_to (?k - 1) * d < two_to (?k - 1) * two_to (bitlen d)"
      using bitlen_value [OF assms(2)] by (intro mult_strict_left_mono) simp_all
    also have "\<dots> = two_to (bitlen n - 1)" by (simp flip: two_to_add)
    also have "\<dots> \<le> n" using bitlen_value [OF assms(1)] by simp
    finally show ?thesis using d by (simp add: pos_less_divide_eq)
  qed
  have high: "n / d < two_to (?k + 1)"
  proof -
    have "real_of_int n < two_to (bitlen n)" using bitlen_value [OF assms(1)] by simp
    also have "\<dots> = two_to (?k + 1) * two_to (bitlen d - 1)" by (simp flip: two_to_add)
    also have "\<dots> \<le> two_to (?k + 1) * d"
      using bitlen_value [OF assms(2)] by (intro mult_left_mono) simp_all
    finally show ?thesis using d by (simp add: pos_divide_less_eq)
  qed
  obtain a b where ab: "scale_ratio n d ?k = (a, b)" by fastforce
  with scale_ratio_value [OF assms(2), of n ?k] have b: "0 < b" "a / b = n / d / two_to ?k" by auto
  have "b \<le> a \<longleftrightarrow> 1 \<le> real_of_int a / b" using b(1) by simp
  also have "\<dots> \<longleftrightarrow> two_to ?k \<le> n / d" by (simp add: b(2) pos_le_divide_eq del: divide_divide_eq_left)
  finally have "b \<le> a \<longleftrightarrow> two_to ?k \<le> n / d" .
  then show ?thesis using low high ab by (auto simp: quant_exp_def Let_def less_imp_le add.commute)
qed

text \<open>\<open>x\<close> is the float nearest to the positive number \<open>v\<close>.\<close>

definition rounds :: "real \<Rightarrow> f64 \<Rightarrow> bool" where
  "rounds v x \<longleftrightarrow> 0 < v \<and> fits x \<and> (\<exists>e. has_exponent v e \<and> fval x = on_grid e v)"

lemma round_ratio_value:
  assumes "0 < n" "0 < d" "real_of_int n / d < two_to 900"
  shows "rounds (n / d) (round_ratio False n d)"
proof -
  let ?q = "quant_exp n d"
  let ?e = "max ?q (-1074)"
  have q: "two_to (?q + 52) \<le> n / d" "real_of_int n / d < two_to (?q + 53)"
    using quant_exp_value [OF assms(1,2)] by auto
  have "?q + 52 < 900" using q(1) assms(3) by (intro two_to_less_imp) simp
  then have e: "?e < 848" by simp
  have "two_to (?q + 53) \<le> two_to (?e + 53)" by (rule two_to_mono) simp
  with q have exponent: "has_exponent (n / d) ?e" by (auto simp: has_exponent_def max_def)
  obtain a b where ab: "scale_ratio n d ?e = (a, b)" by fastforce
  let ?m = "round_even a b"
  have m: "?m = nearest (n / d / two_to ?e)"
    using scale_ratio_value [OF assms(2), of n ?e] ab by (simp add: round_even_nearest)
  have "nearest 0 \<le> ?m" unfolding m using assms by (intro nearest_mono) simp
  moreover have "nearest 0 = 0" using nearest_of_int [of 0] by simp
  ultimately have "0 \<le> ?m" by simp
  have result: "round_ratio False n d = (if ?m = 2 ^ 53 then F_Fin False (2 ^ 52) (?e + 1) else F_Fin False ?m ?e)"
    using assms(1) e by (auto simp: round_ratio_def Let_def ab)
  have "fval (round_ratio False n d) = on_grid ?e (n / d)"
    unfolding result by (simp add: signed_mant_def on_grid_def m [symmetric] two_to_add del: divide_divide_eq_left)
  moreover have "fits (round_ratio False n d)" unfolding result fits_def using \<open>0 \<le> ?m\<close> by simp
  ultimately show ?thesis unfolding rounds_def using exponent assms by auto
qed

lemma rounds_mono: "rounds v x \<Longrightarrow> rounds w y \<Longrightarrow> v \<le> w \<Longrightarrow> fval x \<le> fval y"
  unfolding rounds_def using on_grid_mono by metis

lemma rounds_error:
  assumes "rounds v x" "two_to (-1022) \<le> v"
  shows "\<bar>fval x - v\<bar> \<le> v / 2 ^ 53"
proof -
  obtain e where e: "has_exponent v e" "fval x = on_grid e v" using assms(1) by (auto simp: rounds_def)
  have "two_to (e + 52) \<le> v" using e(1) assms(2) by (auto simp: has_exponent_def)
  moreover have "two_to (e + 52) = 2 ^ 53 * (two_to e / 2)" by (simp add: two_to_add)
  ultimately have "two_to e / 2 \<le> v / 2 ^ 53" by (simp add: field_simps)
  with on_grid_error [of e v] show ?thesis by (simp add: e(2))
qed

lemma rounds_integer:
  assumes "rounds (real_of_int k) x" "k < 2 ^ 53"
  shows "fval x = k"
proof -
  obtain e where e: "has_exponent k e" "fval x = on_grid e k" and k: "0 < k" using assms(1) by (auto simp: rounds_def)
  have "e \<le> 0"
  proof (cases "e = -1074")
    case False
    then have "two_to (e + 52) \<le> real_of_int k" using e(1) by (auto simp: has_exponent_def)
    also have "real_of_int k < two_to 53" using assms(2) by simp
    finally have "e + 52 < 53" by (rule two_to_less_imp)
    then show ?thesis by simp
  qed simp
  then have "real_of_int k / two_to e = real_of_int (k * 2 ^ nat (- e))"
    by (cases "e = 0") (simp_all add: power_int_def field_simps)
  then show ?thesis
    unfolding e(2) on_grid_def using \<open>e \<le> 0\<close>
    by (simp only: nearest_of_int) (cases "e = 0", simp_all add: power_int_def flip: power_mult_distrib)
qed

subsection \<open>Operations on integers and their quotients\<close>

lemma f_of_int_rounds:
  assumes "0 < n" "n < 2 ^ 64"
  shows "rounds (real_of_int n) (f_of_int n)"
proof -
  have "real_of_int n < 2 ^ 64" using assms(2) by simp
  also have "\<dots> \<le> two_to 900" using two_to_mono [of 64 900] by simp
  finally show ?thesis using round_ratio_value [of n 1] assms by (simp add: f_of_int_def)
qed

lemma f_of_int_exact:
  assumes "0 \<le> n" "n < 2 ^ 53"
  shows "fits (f_of_int n) \<and> fval (f_of_int n) = n"
proof (cases "n = 0")
  case False
  with assms have "rounds (real_of_int n) (f_of_int n)" by (intro f_of_int_rounds) simp_all
  with assms(2) show ?thesis using rounds_integer by (auto simp: rounds_def)
qed (simp add: f_zero_def fits_def signed_mant_def)

lemma f_div_rounds:
  assumes "fits x" "fits y" "0 < fval x" "0 < fval y" "fval x / fval y < two_to 900"
  shows "rounds (fval x / fval y) (f_div x y)"
proof -
  obtain m e n d where xy: "x = F_Fin False m e" "y = F_Fin False n d" "0 \<le> m" "0 \<le> n"
    using assms(1,2) by (auto simp: fits_def)
  with assms(3,4) have pos: "0 < m" "0 < n" by (auto simp: signed_mant_def zero_less_mult_iff)
  show ?thesis
  proof (cases "0 \<le> e - d")
    case True
    have "two_to e = two_to (e - d) * two_to d" by (simp flip: two_to_add)
    then have "real_of_int (m * 2 ^ nat (e - d)) / n = fval x / fval y"
      using True pos by (simp add: xy signed_mant_def power_int_def field_simps)
    with True pos show ?thesis
      using round_ratio_value [of "m * 2 ^ nat (e - d)" n] assms(5) by (simp add: xy)
  next
    case False
    have "two_to d = two_to (d - e) * two_to e" by (simp flip: two_to_add)
    then have "real_of_int m / real_of_int (n * 2 ^ nat (d - e)) = fval x / fval y"
      using False pos by (simp add: xy signed_mant_def power_int_def field_simps)
    with False pos show ?thesis
      using round_ratio_value [of m "n * 2 ^ nat (d - e)"] assms(5) by (simp add: xy)
  qed
qed

lemma f_mul_rounds:
  assumes "fits x" "fits y" "0 < fval x" "0 < fval y" "fval x * fval y < two_to 900"
  shows "rounds (fval x * fval y) (f_mul x y)"
proof -
  obtain m e n d where xy: "x = F_Fin False m e" "y = F_Fin False n d" "0 \<le> m" "0 \<le> n"
    using assms(1,2) by (auto simp: fits_def)
  with assms(3,4) have pos: "0 < m" "0 < n" by (auto simp: signed_mant_def zero_less_mult_iff)
  have val: "fval x * fval y = real_of_int (m * n) * two_to (e + d)"
    by (simp add: xy signed_mant_def two_to_add)
  show ?thesis
  proof (cases "0 \<le> e + d")
    case True
    then have "real_of_int (m * n * 2 ^ nat (e + d)) / real_of_int 1 = fval x * fval y"
      unfolding val by (simp add: power_int_def)
    with True pos show ?thesis
      using round_ratio_value [of "m * n * 2 ^ nat (e + d)" 1] assms(5) by (simp add: xy round_dyadic_def)
  next
    case False
    then have "real_of_int (m * n) / real_of_int (2 ^ nat (- (e + d))) = fval x * fval y"
      unfolding val by (simp add: power_int_def field_simps)
    with False pos show ?thesis
      using round_ratio_value [of "m * n" "2 ^ nat (- (e + d))"] assms(5) by (simp add: xy round_dyadic_def)
  qed
qed

lemma floor_fin_value: "floor_fin s m e = \<lfloor>fval (F_Fin s m e)\<rfloor>"
proof (cases "0 \<le> e")
  case True
  then have "fval (F_Fin s m e) = real_of_int (signed_mant s m * 2 ^ nat e)" by (simp add: power_int_def)
  with True show ?thesis by (simp only: floor_of_int) (simp add: floor_fin_def)
next
  case False
  then have "fval (F_Fin s m e) = real_of_int (signed_mant s m) / real_of_int (2 ^ nat (- e))"
    by (simp add: power_int_def field_simps)
  with False show ?thesis by (simp only: floor_divide_of_int_eq) (simp add: floor_fin_def)
qed

lemma ceil_fin_value: "ceil_fin s m e = \<lceil>fval (F_Fin s m e)\<rceil>"
  by (simp add: ceil_fin_def floor_fin_value signed_mant_def ceiling_def del: fval.simps)
    (simp add: signed_mant_def)

end
