(* ===== verification/LogEntries.thy ===== *)
theory LogEntries
  imports MetricsExporter FloatBounds
begin

text \<open>
  One log record as Cloud Logging entries (the mapper of exporter/collector/logs.go): time, labels,
  severity, the special attributes, the payload, and the splitting of long text. Arguments
  (\<open>log_env\<close>) are the decoders of encoding/json, \<open>structpb.NewStruct\<close>, the size of a protobuf
  message, \<open>AsString\<close>, the rendering of times and durations, and the Unicode tables above ASCII.
  A \<open>Struct\<close> is the map it was made from.
\<close>

subsection \<open>Records and entries\<close>

record log_record =
  lr_time :: u64
  lr_observed :: u64
  lr_attrs :: pmap
  lr_flags :: u32
  lr_trace_id :: string
  lr_span_id :: string
  lr_severity :: int
  lr_severity_text :: string
  lr_body :: pvalue
  lr_event_name :: string

datatype log_severity = SevDefault | SevDebug | SevInfo | SevNotice | SevWarning | SevError
  | SevCritical | SevAlert | SevEmergency

record source_location =
  sl_file :: string
  sl_line :: i64
  sl_function :: string

record httpRequestLog =
  hr_remote_ip :: string
  hr_request_url :: string
  hr_latency :: string
  hr_referer :: string
  hr_server_ip :: string
  hr_user_agent :: string
  hr_request_method :: string
  hr_protocol :: string
  hr_response_size :: i64
  hr_request_size :: i64
  hr_cache_fill_bytes :: i64
  hr_status :: i32
  hr_cache_lookup :: bool
  hr_cache_hit :: bool
  hr_cache_validated :: bool

record pb_http_request =
  ph_request_method :: string
  ph_request_url :: string
  ph_request_size :: i64
  ph_status :: i32
  ph_response_size :: i64
  ph_user_agent :: string
  ph_server_ip :: string
  ph_remote_ip :: string
  ph_referer :: string
  ph_cache_hit :: bool
  ph_cache_validated :: bool
  ph_protocol :: string
  ph_cache_fill_bytes :: i64
  ph_cache_lookup :: bool
  ph_latency :: "int option"

record operationLog =
  op_id :: string
  op_producer :: string
  op_first :: bool
  op_last :: bool

datatype payload = NoPayload | JsonPayload pmap | TextPayload string

record log_split =
  ls_uid :: string
  ls_index :: i32
  ls_total :: i32

record log_entry =
  le_resource :: monitored_resource
  le_timestamp :: pb_timestamp
  le_labels :: labels
  le_log_name :: string
  le_source_location :: "source_location option"
  le_trace_sampled :: bool
  le_trace :: string
  le_span_id :: string
  le_http_request :: "pb_http_request option"
  le_operation :: "operationLog option"
  le_severity :: log_severity
  le_payload :: payload
  le_split :: "log_split option"

datatype attribute_error = UnsupportedValueType pvalue | JsonError string

datatype entry_error = AttributeError string attribute_error | UnknownSeverity int | NoLogName

text \<open>\<open>lv_int_overflow\<close> is what \<open>int(x)\<close> makes of a float outside the range of \<open>int\<close>.\<close>

record log_env =
  lv_as_string :: as_string
  lv_source_location :: "string \<Rightarrow> (string, source_location) res"
  lv_http_request :: "string \<Rightarrow> (string, httpRequestLog) res"
  lv_operation :: "string \<Rightarrow> (string, operationLog) res"
  lv_json_int64 :: "string \<Rightarrow> i64 option"
  lv_json_string :: "string \<Rightarrow> string option"
  lv_json_bool :: "string \<Rightarrow> bool option"
  lv_new_struct :: "pmap \<Rightarrow> (string, pmap) res"
  lv_empty_bytes_nil :: bool
  lv_size :: "log_entry \<Rightarrow> int"
  lv_time_string :: "pb_timestamp \<Rightarrow> string"
  lv_parse_duration :: "string \<Rightarrow> int option"
  lv_lower :: "nat \<Rightarrow> nat"
  lv_int_overflow :: int
  lv_no_trace_prefix :: bool

record log_config =
  lc_project :: string
  lc_map_resource :: "pmap \<Rightarrow> monitored_resource"
  lc_service_labels :: bool
  lc_filters :: "compiled_filter list"
  lc_default_name :: string
  lc_error_reporting :: bool
  lc_quota :: bool
  lc_max_entry_size :: int
  lc_max_request_size :: int

definition defaultMaxEntrySize :: int where
  "defaultMaxEntrySize = 256000"

definition defaultMaxRequestSize :: int where
  "defaultMaxRequestSize = 10000000"

subsection \<open>Strings\<close>

text \<open>\<open>url.PathEscape\<close>.\<close>

definition path_safe :: "char \<Rightarrow> bool" where
  "path_safe c \<longleftrightarrow> (let b = byte c in 97 \<le> b \<and> b \<le> 122 \<or> 65 \<le> b \<and> b \<le> 90 \<or> 48 \<le> b \<and> b \<le> 57) \<or>
     c \<in> set ''-_.~$&+:=@''"

definition path_escape :: "string \<Rightarrow> string" where
  "path_escape s = concat (List.map (\<lambda>c. if path_safe c then [c]
     else [CHR ''%'', hex_char True (byte c div 16), hex_char True (byte c mod 16)]) s)"

text \<open>\<open>TraceID.IsEmpty\<close> and \<open>SpanID.IsEmpty\<close>.\<close>

definition all_zero :: "string \<Rightarrow> bool" where
  "all_zero s \<longleftrightarrow> (\<forall>c \<in> set s. byte c = 0)"

definition lower_rune :: "log_env \<Rightarrow> nat \<Rightarrow> nat" where
  "lower_rune env r = (if r < 128 then (if 65 \<le> r \<and> r \<le> 90 then r + 32 else r) else lv_lower env r)"

definition to_lower :: "log_env \<Rightarrow> string \<Rightarrow> string" where
  "to_lower env s = str_map (lower_rune env) s"

definition fixUTF8 :: "string \<Rightarrow> string" where
  "fixUTF8 s = (if valid_utf8 s then s else str_map (\<lambda>r. if valid_rune r then r else rune_error) s)"

subsection \<open>Numbers and booleans in JSON\<close>

definition is_space :: "nat \<Rightarrow> bool" where
  "is_space r \<longleftrightarrow> 9 \<le> r \<and> r \<le> 13 \<or> r = 32 \<or> r = 133 \<or> r = 160 \<or> r = 5760 \<or> 8192 \<le> r \<and> r \<le> 8202 \<or>
     r \<in> {8232, 8233, 8239, 8287, 12288}"

definition trim_space :: "string \<Rightarrow> string" where
  "trim_space s = concat (List.map snd (rev (dropWhile (\<lambda>rb. is_space (fst rb))
     (rev (dropWhile (\<lambda>rb. is_space (fst rb)) (segments s))))))"

fun digits_value :: "string \<Rightarrow> int \<Rightarrow> int option" where
  "digits_value [] acc = Some acc"
| "digits_value (c # cs) acc =
     (if 48 \<le> byte c \<and> byte c \<le> 57 then digits_value cs (10 * acc + int (byte c - 48)) else None)"

definition parse_int :: "nat \<Rightarrow> string \<Rightarrow> int option" where
  "parse_int bits s =
     (let negative = has_prefix s ''-'';
          digits = (if negative \<or> has_prefix s ''+'' then tl s else s)
      in if digits = [] then None
         else case digits_value digits 0 of
           None \<Rightarrow> None
         | Some n \<Rightarrow>
             if (if negative then n \<le> 2 ^ (bits - 1) else n < 2 ^ (bits - 1))
             then Some (if negative then - n else n) else None)"

definition unmarshalJSONToIntByBitSize :: "log_env \<Rightarrow> string \<Rightarrow> nat \<Rightarrow> i64 option" where
  "unmarshalJSONToIntByBitSize env data bits = (case lv_json_int64 env data of
     Some n \<Rightarrow> Some n
   | None \<Rightarrow> (case lv_json_string env data of
       Some s \<Rightarrow> map_option word_of_int (parse_int bits (trim_space s))
     | None \<Rightarrow> None))"

definition Int32OrString :: "log_env \<Rightarrow> string \<Rightarrow> i32 option" where
  "Int32OrString env data = map_option (\<lambda>n. ucast n) (unmarshalJSONToIntByBitSize env data 32)"

definition Int64OrString :: "log_env \<Rightarrow> string \<Rightarrow> i64 option" where
  "Int64OrString env data = unmarshalJSONToIntByBitSize env data 64"

definition BoolOrString :: "log_env \<Rightarrow> string \<Rightarrow> bool option" where
  "BoolOrString env data = (case lv_json_bool env data of
     Some b \<Rightarrow> Some b
   | None \<Rightarrow> map_option (\<lambda>s. s = ''true'') (lv_json_string env data))"

subsection \<open>Special attributes\<close>

definition attribute_bytes :: "log_env \<Rightarrow> pvalue \<Rightarrow> (attribute_error, string) res" where
  "attribute_bytes env v = (case v of
     VBytes b \<Rightarrow> Inr b
   | VMap m \<Rightarrow> Inr (lv_as_string env v)
   | VStr s \<Rightarrow> Inr (lv_as_string env v)
   | _ \<Rightarrow> Inl (UnsupportedValueType v))"

text \<open>\<open>decode\<close> is \<open>json.Unmarshal\<close> into the type of \<open>out\<close>.\<close>

definition unmarshalAttribute :: "log_env \<Rightarrow> pvalue \<Rightarrow> (string \<Rightarrow> (string, 'a) res) \<Rightarrow> (attribute_error, 'a) res" where
  "unmarshalAttribute env v decode = res_bind (attribute_bytes env v) (\<lambda>b.
     case decode b of Inl e \<Rightarrow> Inl (JsonError e) | Inr a \<Rightarrow> Inr a)"

definition parseHTTPRequest :: "log_env \<Rightarrow> pvalue \<Rightarrow> (attribute_error, pb_http_request) res" where
  "parseHTTPRequest env v = res_bind (unmarshalAttribute env v (lv_http_request env)) (\<lambda>r. Inr \<lparr>
     ph_request_method = hr_request_method r,
     ph_request_url = fixUTF8 (hr_request_url r),
     ph_request_size = hr_request_size r,
     ph_status = hr_status r,
     ph_response_size = hr_response_size r,
     ph_user_agent = hr_user_agent r,
     ph_server_ip = hr_server_ip r,
     ph_remote_ip = hr_remote_ip r,
     ph_referer = hr_referer r,
     ph_cache_hit = hr_cache_hit r,
     ph_cache_validated = hr_cache_validated r,
     ph_protocol = hr_protocol r,
     ph_cache_fill_bytes = hr_cache_fill_bytes r,
     ph_cache_lookup = hr_cache_lookup r,
     ph_latency = (if hr_latency r = [] then None
       else case lv_parse_duration env (hr_latency r) of
         Some d \<Rightarrow> if d \<noteq> 0 then Some d else None | None \<Rightarrow> None)\<rparr>)"

definition parseOperation :: "log_env \<Rightarrow> pvalue \<Rightarrow> (attribute_error, operationLog) res" where
  "parseOperation env v = unmarshalAttribute env v (lv_operation env)"

text \<open>A nil pointer is what the failing parsers return.\<close>

definition or_nil :: "('e, 'a) res \<Rightarrow> 'a option" where
  "or_nil r = (case r of Inr a \<Rightarrow> Some a | Inl e \<Rightarrow> None)"

definition HTTPRequestAttributeKey :: string where
  "HTTPRequestAttributeKey = ''gcp.http_request''"

definition LogNameAttributeKey :: string where
  "LogNameAttributeKey = ''gcp.log_name''"

definition OperationAttributeKey :: string where
  "OperationAttributeKey = ''gcp.operation''"

definition SourceLocationAttributeKey :: string where
  "SourceLocationAttributeKey = ''gcp.source_location''"

definition TraceSampledAttributeKey :: string where
  "TraceSampledAttributeKey = ''gcp.trace_sampled''"

definition GCPTypeKey :: string where
  "GCPTypeKey = ''@type''"

definition GCPErrorReportingTypeValue :: string where
  "GCPErrorReportingTypeValue = ''type.googleapis.com/google.devtools.clouderrorreporting.v1beta1.ReportedErrorEvent''"

subsection \<open>Severity\<close>

definition severityMapping :: "log_severity list" where
  "severityMapping = [SevDefault] @ replicate 8 SevDebug @ replicate 2 SevInfo @ replicate 2 SevNotice @
     replicate 4 SevWarning @ replicate 4 SevError @ replicate 2 SevCritical @ [SevAlert, SevEmergency]"

definition otelSeverityForText :: "(string \<times> int) list" where
  "otelSeverityForText = [
     (''trace'', 1), (''trace2'', 2), (''trace3'', 3), (''trace4'', 4),
     (''debug'', 5), (''debug2'', 6), (''debug3'', 7), (''debug4'', 8),
     (''info'', 9), (''info2'', 10), (''info3'', 11), (''info4'', 12),
     (''warn'', 13), (''warn2'', 14), (''warn3'', 15), (''warn4'', 16),
     (''error'', 17), (''error2'', 18), (''error3'', 19), (''error4'', 20),
     (''fatal'', 21), (''fatal2'', 22), (''fatal3'', 23), (''fatal4'', 24),
     (''default'', 0), (''notice'', 11), (''warning'', 13), (''critical'', 21),
     (''alert'', 23), (''emergency'', 24)]"

definition severity_number :: "log_env \<Rightarrow> log_record \<Rightarrow> (entry_error, int) res" where
  "severity_number env r =
     (if lr_severity r < 0 \<or> int (length severityMapping) - 1 < lr_severity r
      then Inl (UnknownSeverity (lr_severity r))
      else Inr (case map_of otelSeverityForText (to_lower env (lr_severity_text r)) of
        Some n \<Rightarrow> if lr_severity r = 0 then n else lr_severity r
      | None \<Rightarrow> lr_severity r))"

subsection \<open>The entry without its payload\<close>

definition log_time :: "log_record \<Rightarrow> int \<Rightarrow> int" where
  "log_time r processTime =
     (if lr_time r = 0 \<or> as_time (lr_time r) = zero_time
      then if lr_observed r \<noteq> 0 then as_time (lr_observed r) else processTime
      else as_time (lr_time r))"

definition is_sampled :: "log_record \<Rightarrow> bool" where
  "is_sampled r \<longleftrightarrow> bit (lr_flags r) 0"

text \<open>The map built off the attributes and the deletions from it; its order never shows.\<close>

definition attrs_map :: "pmap \<Rightarrow> pmap" where
  "attrs_map attrs = foldl (\<lambda>m (k, v). pmap_put m k v) [] attrs"

definition without :: "string list \<Rightarrow> pmap \<Rightarrow> pmap" where
  "without ks m = filter (\<lambda>(k, v). k \<notin> set ks) m"

definition trace_name :: "log_env \<Rightarrow> string \<Rightarrow> string \<Rightarrow> string" where
  "trace_name env projectID traceID =
     (if all_zero traceID then []
      else if lv_no_trace_prefix env then hex_encode traceID
      else ''projects/'' @ projectID @ ''/traces/'' @ hex_encode traceID)"

text \<open>The remaining attributes: keys with the prefix \<open>gcp.\<close> and keys already there are skipped.\<close>

definition add_label :: "log_env \<Rightarrow> labels \<Rightarrow> string \<times> pvalue \<Rightarrow> labels" where
  "add_label env ls kv = (case kv of (k, v) \<Rightarrow>
     if has_prefix k ''gcp.'' then ls
     else if ls k = None then ls(k \<mapsto> lv_as_string env v) else ls)"

definition entry_labels :: "log_env \<Rightarrow> labels \<Rightarrow> log_record \<Rightarrow> pmap \<Rightarrow> labels" where
  "entry_labels env ls r attrs =
     (let ls = foldl (add_label env) ls attrs in
      if lr_event_name r \<noteq> [] then ls(''event.name'' \<mapsto> lr_event_name r) else ls)"

definition source_location_of :: "log_env \<Rightarrow> pmap \<Rightarrow> (entry_error, source_location option) res" where
  "source_location_of env attrs = (case pmap_get attrs SourceLocationAttributeKey of
     None \<Rightarrow> Inr None
   | Some v \<Rightarrow> (case unmarshalAttribute env v (lv_source_location env) of
       Inl e \<Rightarrow> Inl (AttributeError SourceLocationAttributeKey e)
     | Inr s \<Rightarrow> Inr (Some s)))"

definition base_entry :: "log_env \<Rightarrow> log_config \<Rightarrow> log_record \<Rightarrow> monitored_resource \<Rightarrow> labels \<Rightarrow> int \<Rightarrow> string \<Rightarrow> string \<Rightarrow>
    (entry_error, log_entry \<times> int) res" where
  "base_entry env cfg r mr logLabels processTime logName projectID =
     (let attrs = attrs_map (lr_attrs r);
          remaining = without [SourceLocationAttributeKey, TraceSampledAttributeKey,
            HTTPRequestAttributeKey, OperationAttributeKey] attrs
      in res_bind (source_location_of env attrs) (\<lambda>location.
         res_bind (severity_number env r) (\<lambda>severity. Inr (\<lparr>
           le_resource = mr,
           le_timestamp = timestamp_new (log_time r processTime),
           le_labels = entry_labels env logLabels r remaining,
           le_log_name = ''projects/'' @ projectID @ ''/logs/'' @ path_escape logName,
           le_source_location = location,
           le_trace_sampled = ((case pmap_get attrs TraceSampledAttributeKey of Some v \<Rightarrow> val_bool v | None \<Rightarrow> False)
             \<or> is_sampled r),
           le_trace = trace_name env projectID (lr_trace_id r),
           le_span_id = (if all_zero (lr_span_id r) then [] else hex_encode (lr_span_id r)),
           le_http_request = (case pmap_get attrs HTTPRequestAttributeKey of
             Some v \<Rightarrow> or_nil (parseHTTPRequest env v) | None \<Rightarrow> None),
           le_operation = (case pmap_get attrs OperationAttributeKey of
             Some v \<Rightarrow> or_nil (parseOperation env v) | None \<Rightarrow> None),
           le_severity = severityMapping ! nat severity,
           le_payload = NoPayload,
           le_split = None\<rparr>, severity))))"

subsection \<open>The payload\<close>

text \<open>An entry for Error Reporting has a map as its body, with the type of the report in it.\<close>

definition reporting_body :: "log_env \<Rightarrow> log_config \<Rightarrow> int \<Rightarrow> pvalue \<Rightarrow> pvalue" where
  "reporting_body env cfg severity body =
     (if 17 \<le> severity \<and> lc_error_reporting cfg
      then VMap (pmap_put (case body of VMap m \<Rightarrow> m | _ \<Rightarrow> pmap_put [] ''message'' (VStr (lv_as_string env body)))
        GCPTypeKey (VStr GCPErrorReportingTypeValue))
      else body)"

text \<open>What \<open>json.Marshal\<close> makes of a byte slice, and \<open>json.Unmarshal\<close> of that for a map.\<close>

datatype json_of_bytes = JsonNull | JsonBase64 string

definition json_marshal_bytes :: "log_env \<Rightarrow> string \<Rightarrow> json_of_bytes" where
  "json_marshal_bytes env b = (if b = [] \<and> lv_empty_bytes_nil env then JsonNull else JsonBase64 b)"

fun json_unmarshal_map :: "json_of_bytes \<Rightarrow> (string, pmap) res" where
  "json_unmarshal_map JsonNull = Inr []"
| "json_unmarshal_map (JsonBase64 b) = Inl ''json: cannot unmarshal string into Go value of type map[string]interface {}''"

definition toProtoStruct :: "log_env \<Rightarrow> string \<Rightarrow> (string, pmap) res" where
  "toProtoStruct env b = res_bind (json_unmarshal_map (json_marshal_bytes env b)) (lv_new_struct env)"

definition json_payload :: "log_env \<Rightarrow> pvalue \<Rightarrow> pmap option" where
  "json_payload env body = (case body of
     VMap m \<Rightarrow> or_nil (lv_new_struct env m)
   | VBytes b \<Rightarrow> or_nil (toProtoStruct env b)
   | _ \<Rightarrow> None)"

subsection \<open>Splitting\<close>

text \<open>\<open>int(math.Ceil(x))\<close> and \<open>int(math.Floor(x))\<close>.\<close>

definition int_ceil :: "int \<Rightarrow> f64 \<Rightarrow> int" where
  "int_ceil overflow x = (case x of F_Fin s m e \<Rightarrow> ceil_fin s m e | _ \<Rightarrow> overflow)"

definition int_floor :: "int \<Rightarrow> f64 \<Rightarrow> int" where
  "int_floor overflow x = (case x of F_Fin s m e \<Rightarrow> floor_fin s m e | _ \<Rightarrow> overflow)"

definition split_count :: "int \<Rightarrow> int \<Rightarrow> int \<Rightarrow> int" where
  "split_count overflow len room = int_ceil overflow (f_div (f_of_int len) (f_of_int room))"

text \<open>The end of the \<open>j\<close>th piece, \<open>j / splits\<close> of the length.\<close>

definition split_end :: "int \<Rightarrow> int \<Rightarrow> int \<Rightarrow> int \<Rightarrow> int" where
  "split_end overflow splits len j =
     int_floor overflow (f_mul (f_div (f_of_int j) (f_of_int splits)) (f_of_int len))"

definition slice :: "string \<Rightarrow> int \<Rightarrow> int \<Rightarrow> (go_panic, string) res" where
  "slice s a b = (if 0 \<le> a \<and> a \<le> b \<and> b \<le> int (length s) then Inr (take (nat (b - a)) (drop (nat a) s))
     else Inl IndexOutOfRange)"

text \<open>The inner loop moves the end back while the piece is too long.\<close>

function shrink :: "int \<Rightarrow> string \<Rightarrow> int \<Rightarrow> int \<Rightarrow> (go_panic, int \<times> string) res" where
  "shrink maxEntrySize s a b =
     (if \<not> (0 \<le> a \<and> a \<le> b \<and> b \<le> int (length s)) then Inl IndexOutOfRange
      else let piece = take (nat (b - a)) (drop (nat a) s) in
        if maxEntrySize < int (length piece) then shrink maxEntrySize s a (b - 1) else Inr (b, piece))"
  by pat_completeness auto
termination
  by (relation "measure (\<lambda>(mx, s, a, b). nat (b - a + 1))") auto

declare shrink.simps [simp del]

fun split_loop :: "(int \<Rightarrow> int) \<Rightarrow> int \<Rightarrow> string \<Rightarrow> nat \<Rightarrow> int \<Rightarrow> int \<Rightarrow> int \<Rightarrow> (go_panic, string list) res" where
  "split_loop ends maxEntrySize s 0 i a b = Inr []"
| "split_loop ends maxEntrySize s (Suc n) i a b =
     res_bind (shrink maxEntrySize s a b) (\<lambda>(b', piece).
       res_bind (split_loop ends maxEntrySize s n (i + 1) b' (ends (i + 2))) (\<lambda>pieces. Inr (piece # pieces)))"

definition split_body :: "log_env \<Rightarrow> log_config \<Rightarrow> string \<Rightarrow> int \<Rightarrow> (go_panic, string list) res" where
  "split_body env cfg body splits =
     (let ends = split_end (lv_int_overflow env) splits (int (length body))
      in split_loop ends (lc_max_entry_size cfg) body (nat splits) 0 0 (ends 1))"

definition text_entries :: "log_env \<Rightarrow> log_config \<Rightarrow> string \<Rightarrow> log_entry \<Rightarrow> string \<Rightarrow> (go_panic, log_entry list) res" where
  "text_entries env cfg logName entry body =
     (let splits = split_count (lv_int_overflow env) (int (length body)) (lc_max_entry_size cfg - lv_size env entry)
      in if body = [] then Inr [entry]
         else if splits \<le> 1 then Inr [entry\<lparr>le_payload := TextPayload body\<rparr>]
         else res_bind (split_body env cfg body splits) (\<lambda>pieces.
           Inr (List.map (\<lambda>(i, piece). entry\<lparr>le_payload := TextPayload piece, le_split := Some \<lparr>
               ls_uid = logName @ ''-'' @ lv_time_string env (le_timestamp entry),
               ls_index = word_of_nat i, ls_total = word_of_int splits\<rparr>\<rparr>)
             (enumerate 0 pieces))))"

definition logToSplitEntries :: "log_env \<Rightarrow> log_config \<Rightarrow> log_record \<Rightarrow> monitored_resource \<Rightarrow> labels \<Rightarrow> int \<Rightarrow> string \<Rightarrow> string \<Rightarrow>
    (go_panic, (entry_error, log_entry list) res) res" where
  "logToSplitEntries env cfg r mr logLabels processTime logName projectID =
     (case base_entry env cfg r mr logLabels processTime logName projectID of
        Inl e \<Rightarrow> Inr (Inl e)
      | Inr (entry, severity) \<Rightarrow>
          let body = reporting_body env cfg severity (lr_body r) in
          (case json_payload env body of
             Some s \<Rightarrow> Inr (Inr [entry\<lparr>le_payload := JsonPayload s\<rparr>])
           | None \<Rightarrow> res_bind (text_entries env cfg logName entry (lv_as_string env body)) (\<lambda>es. Inr (Inr es))))"

end
