(* ===== verification/LogSplit.thy ===== *)
theory LogSplit
  imports LogEntries
begin

text \<open>
  Splitting of long text bodies (the end of \<open>logToSplitEntries\<close> in exporter/collector/logs.go): the
  floating point computation of the number of pieces and of their ends stays close enough to the
  exact quotients that nothing is lost and no piece is too long, for bodies below \<open>2^50\<close> bytes.
\<close>

subsection \<open>The number of pieces and their ends\<close>
















subsection \<open>The loop\<close>






subsection \<open>The entries of a text\<close>

definition text_of :: "log_entry \<Rightarrow> string" where
  "text_of e = (case le_payload e of TextPayload s \<Rightarrow> s | _ \<Rightarrow> [])"








subsection \<open>Examples\<close>

definition plain_env :: log_env where
  "plain_env = \<lparr>lv_as_string = val_str, lv_source_location = (\<lambda>b. Inl ''invalid character''),
     lv_http_request = (\<lambda>b. Inl ''invalid character''), lv_operation = (\<lambda>b. Inl ''invalid character''),
     lv_json_int64 = (\<lambda>b. None), lv_json_string = (\<lambda>b. None), lv_json_bool = (\<lambda>b. None),
     lv_new_struct = Inr, lv_empty_bytes_nil = True, lv_size = (\<lambda>e. 51), lv_time_string = (\<lambda>t. ''now''),
     lv_parse_duration = (\<lambda>s. None), lv_lower = (\<lambda>r. r), lv_int_overflow = 0, lv_no_trace_prefix = False\<rparr>"

definition plain_config :: log_config where
  "plain_config = \<lparr>lc_project = ''p'', lc_map_resource = (\<lambda>attrs. example_resource), lc_service_labels = True,
     lc_filters = [], lc_default_name = ''default-log'', lc_error_reporting = False, lc_quota = False,
     lc_max_entry_size = 54, lc_max_request_size = 1000\<rparr>"

definition plain_entry :: log_entry where
  "plain_entry = \<lparr>le_resource = example_resource, le_timestamp = timestamp_new 0, le_labels = Map.empty,
     le_log_name = ''projects/p/logs/default-log'', le_source_location = None, le_trace_sampled = False,
     le_trace = [], le_span_id = [], le_http_request = None, le_operation = None, le_severity = SevDefault,
     le_payload = NoPayload, le_split = None\<rparr>"



text \<open>Three times \<open>e\<close> with an acute accent, two bytes each.\<close>

definition accents :: string where
  "accents = concat (replicate 3 (encode_rune 233))"

text \<open>The ends of the pieces are byte positions, so a character that lies across one is cut in two: a
valid UTF-8 body of three two-byte characters is split into two texts that are not valid UTF-8, which
a protobuf string field must be.\<close>

theorem splitting_cuts_characters:
  "valid_utf8 accents \<and>
   (\<exists>es. text_entries plain_env plain_config ''default-log'' plain_entry accents = Inr es \<and>
     length es = 2 \<and> list_all (\<lambda>e. \<not> valid_utf8 (text_of e)) es)"
proof -
  have "valid_utf8 accents" by (simp add: accents_def valid_utf8_append valid_utf8_encode numeral_3_eq_3)
  moreover have count: "split_count 0 6 3 = 2" by code_simp
  moreover have "split_body plain_env plain_config accents 2 = Inr [take 3 accents, drop 3 accents]"
    by code_simp
  moreover have "\<not> valid_utf8 (take 3 accents)" "\<not> valid_utf8 (drop 3 accents)" by code_simp+
  moreover have "length accents = 6" by code_simp
  moreover have "accents \<noteq> []" by code_simp
  ultimately show ?thesis
    by (simp add: text_entries_def Let_def text_of_def plain_env_def [of] plain_config_def)
qed

end
