(* ===== verification/Logs.thy ===== *)
theory Logs
  imports LogSplit
begin

text \<open>
  The logs exporter (exporter/collector/logs.go): \<open>createEntries\<close> turns a batch of log records into
  entries grouped by project, \<open>PushLogs\<close> writes them in requests below the size limit. The logging
  client is an argument that threads its own state; the time is an argument. The sending loop may
  not end and runs on fuel.
\<close>

subsection \<open>Batches of records\<close>

record scope_logs =
  sg_scope :: scope
  sg_records :: "log_record list"

record resource_logs =
  rg_resource :: pmap
  rg_scopes :: "scope_logs list"

definition getLogName :: "log_env \<Rightarrow> log_config \<Rightarrow> log_record \<Rightarrow> (entry_error, string) res" where
  "getLogName env cfg r = (case pmap_get (lr_attrs r) LogNameAttributeKey of
     Some v \<Rightarrow> Inr (lv_as_string env v)
   | None \<Rightarrow> if lc_default_name cfg \<noteq> [] then Inr (lc_default_name cfg) else Inl NoLogName)"

definition attributesToUnsanitizedLabels :: "log_env \<Rightarrow> pmap \<Rightarrow> labels" where
  "attributesToUnsanitizedLabels env attrs =
     put_all Map.empty (List.map (\<lambda>(k, v). (k, sanitizeUTF8 (lv_as_string env v))) attrs)"

definition mergeLogLabels :: "string \<Rightarrow> string \<Rightarrow> labels \<Rightarrow> labels" where
  "mergeLogLabels source version resourceLabels =
     (let ls = (if source \<noteq> [] then [''instrumentation_source'' \<mapsto> source] else Map.empty);
          ls = (if version \<noteq> [] then ls(''instrumentation_version'' \<mapsto> version) else ls)
      in mergeLabels ls [resourceLabels])"

definition log_project :: "log_env \<Rightarrow> log_config \<Rightarrow> pmap \<Rightarrow> string" where
  "log_project env cfg attrs = (case pmap_get attrs ''gcp.project.id'' of
     Some v \<Rightarrow> lv_as_string env v | None \<Rightarrow> lc_project cfg)"

type_synonym entry_groups = "string \<rightharpoonup> log_entry list"

definition add_entry :: "string \<Rightarrow> log_entry \<Rightarrow> entry_groups \<Rightarrow> entry_groups" where
  "add_entry p e g = g(p \<mapsto> (case g p of Some es \<Rightarrow> es | None \<Rightarrow> []) @ [e])"

text \<open>A record that fails adds its error and is skipped.\<close>

definition create_record :: "log_env \<Rightarrow> log_config \<Rightarrow> int \<Rightarrow> monitored_resource \<Rightarrow> labels \<Rightarrow> string \<Rightarrow> log_record \<Rightarrow>
    entry_groups \<times> entry_error list \<Rightarrow> (go_panic, entry_groups \<times> entry_error list) res" where
  "create_record env cfg now mr ls projectID r st = (case st of (g, errs) \<Rightarrow>
     (case getLogName env cfg r of
        Inl e \<Rightarrow> Inr (g, errs @ [e])
      | Inr logName \<Rightarrow> res_bind (logToSplitEntries env cfg r mr ls now logName projectID) (\<lambda>result.
          (case result of
             Inl e \<Rightarrow> Inr (g, errs @ [e])
           | Inr es \<Rightarrow> Inr (foldl (\<lambda>g e. add_entry (if lc_quota cfg then projectID else []) e g) g es, errs)))))"

definition create_scope :: "log_env \<Rightarrow> log_config \<Rightarrow> int \<Rightarrow> pmap \<Rightarrow> scope_logs \<Rightarrow>
    entry_groups \<times> entry_error list \<Rightarrow> (go_panic, entry_groups \<times> entry_error list) res" where
  "create_scope env cfg now resource sl =
     (let extra = attributesToUnsanitizedLabels env
            (filterAttributes (lv_as_string env) resource (lc_service_labels cfg) (lc_filters cfg));
          ls = mergeLogLabels (scope_name (sg_scope sl)) (scope_version (sg_scope sl)) extra
      in fold_res (create_record env cfg now (lc_map_resource cfg resource) ls (log_project env cfg resource))
           (sg_records sl))"

definition create_resource :: "log_env \<Rightarrow> log_config \<Rightarrow> int \<Rightarrow> resource_logs \<Rightarrow>
    entry_groups \<times> entry_error list \<Rightarrow> (go_panic, entry_groups \<times> entry_error list) res" where
  "create_resource env cfg now rl = fold_res (create_scope env cfg now (rg_resource rl)) (rg_scopes rl)"

definition createEntries :: "log_env \<Rightarrow> log_config \<Rightarrow> int \<Rightarrow> resource_logs list \<Rightarrow>
    (go_panic, entry_groups \<times> entry_error list) res" where
  "createEntries env cfg now rls = fold_res (create_resource env cfg now) rls (Map.empty, [])"

subsection \<open>Writing\<close>

text \<open>The error of a write: whether it is a context error, and its status code.\<close>

record write_error =
  we_context :: bool
  we_code :: grpc_code

definition isRetryableWriteLogEntriesError :: "write_error \<Rightarrow> bool" where
  "isRetryableWriteLogEntriesError e \<longleftrightarrow> we_context e \<or>
     we_code e \<in> {Canceled, DeadlineExceeded, ResourceExhausted, Aborted, Internal, Unavailable}"

text \<open>A write gets the project to charge, if the configuration asks for it.\<close>

type_synonym 'c log_client = "string option \<Rightarrow> log_entry list \<Rightarrow> 'c \<Rightarrow> write_error option \<times> 'c"

record 'c push_state =
  ps_client :: 'c
  ps_errors :: "write_error list"
  ps_retryable :: bool

definition write_batch :: "log_config \<Rightarrow> 'c log_client \<Rightarrow> string \<Rightarrow> log_entry list \<Rightarrow> 'c push_state \<Rightarrow> 'c push_state" where
  "write_batch cfg cl project batch st =
     (let (e, c) = cl (if lc_quota cfg then Some (trim_prefix project ''projects/'') else None) batch (ps_client st);
          st = st\<lparr>ps_client := c\<rparr>
      in case e of
           None \<Rightarrow> st
         | Some err \<Rightarrow> st\<lparr>ps_errors := ps_errors st @ [err],
             ps_retryable := ps_retryable st \<or> isRetryableWriteLogEntriesError err\<rparr>)"

text \<open>
  The loop over the entries of a project: \<open>entry\<close> is the index of the next entry to look at and
  \<open>size\<close> the size of those before it. Each step of the loop uses one unit of fuel.
\<close>

fun send_loop :: "nat \<Rightarrow> log_env \<Rightarrow> log_config \<Rightarrow> 'c log_client \<Rightarrow> string \<Rightarrow> log_entry list \<Rightarrow> nat \<Rightarrow> int \<Rightarrow>
    'c push_state \<Rightarrow> 'c push_state option" where
  "send_loop 0 env cfg cl project entries i currentBatchSize st = (if entries = [] then Some st else None)"
| "send_loop (Suc fuel) env cfg cl project entries i currentBatchSize st =
     (if entries = [] then Some st
      else
        let entrySize = (if i < length entries then lv_size env (entries ! i) else lc_max_request_size cfg) in
        if currentBatchSize + entrySize < lc_max_request_size cfg
        then send_loop fuel env cfg cl project entries (i + 1) (currentBatchSize + entrySize) st
        else send_loop fuel env cfg cl project (drop i entries) 0 0
               (write_batch cfg cl project (take i entries) st))"

fun send_projects :: "nat \<Rightarrow> log_env \<Rightarrow> log_config \<Rightarrow> 'c log_client \<Rightarrow> entry_groups \<Rightarrow> string list \<Rightarrow>
    'c push_state \<Rightarrow> 'c push_state option" where
  "send_projects fuel env cfg cl g [] st = Some st"
| "send_projects fuel env cfg cl g (p # ps) st =
     (case send_loop fuel env cfg cl p (case g p of Some es \<Rightarrow> es | None \<Rightarrow> []) 0 0 st of
        None \<Rightarrow> None
      | Some st \<Rightarrow> send_projects fuel env cfg cl g ps st)"

datatype push_error = NoClient | Permanent "entry_error list + write_error list" | Retryable "write_error list"

text \<open>\<open>PushLogs\<close>: the outer option is the fuel, then a panic, then the error (\<open>None\<close>: nil) and the client. An exporter
that was not started has no client.\<close>

definition PushLogs :: "nat \<Rightarrow> log_env \<Rightarrow> log_config \<Rightarrow> 'c log_client \<Rightarrow> (entry_groups \<Rightarrow> string list) \<Rightarrow> int \<Rightarrow>
    resource_logs list \<Rightarrow> 'c option \<Rightarrow> (go_panic, push_error option \<times> 'c option) res option" where
  "PushLogs fuel env cfg cl order now rls client = (case client of
     None \<Rightarrow> Some (Inr (Some NoClient, None))
   | Some c \<Rightarrow> (case createEntries env cfg now rls of
       Inl p \<Rightarrow> Some (Inl p)
     | Inr (g, errs) \<Rightarrow>
         if errs \<noteq> [] then Some (Inr (Some (Permanent (Inl errs)), Some c))
         else (case send_projects fuel env cfg cl g (order g) \<lparr>ps_client = c, ps_errors = [], ps_retryable = False\<rparr> of
           None \<Rightarrow> None
         | Some st \<Rightarrow> Some (Inr (
             if ps_errors st = [] then None
             else if ps_retryable st then Some (Retryable (ps_errors st))
             else Some (Permanent (Inr (ps_errors st))), Some (ps_client st))))))"

subsection \<open>Bytes are never JSON\<close>

definition is_json_payload :: "payload \<Rightarrow> bool" where
  "is_json_payload p = (case p of JsonPayload s \<Rightarrow> True | _ \<Rightarrow> False)"

lemma base_entry_payload: "base_entry env cfg r mr ls now name p = Inr (entry, severity) \<Longrightarrow> le_payload entry = NoPayload"
  by (auto simp: base_entry_def res_bind_Inr_iff Let_def)

lemma text_entries_not_json:
  assumes "text_entries env cfg name entry body = Inr es" "le_payload entry = NoPayload"
  shows "list_all (\<lambda>e. \<not> is_json_payload (le_payload e)) es"
  using assms by (auto simp: text_entries_def Let_def is_json_payload_def list_all_iff res_bind_Inr_iff split: if_splits)

text \<open>A body of type bytes never becomes a JSON payload, not even when the bytes are a JSON object: the
byte slice is marshalled to JSON itself, which gives a base64 string, and a string is not a map. Only
an empty body, or the message of an Error Reporting entry, becomes a struct.\<close>

theorem bytes_bodies_are_never_json:
  assumes "lr_body r = VBytes b" "b \<noteq> []" "\<not> lc_error_reporting cfg"
    and "logToSplitEntries env cfg r mr ls now logName projectID = Inr (Inr es)"
  shows "list_all (\<lambda>e. \<not> is_json_payload (le_payload e)) es"
proof -
  obtain entry severity where e: "base_entry env cfg r mr ls now logName projectID = Inr (entry, severity)"
    using assms(4) by (auto simp: logToSplitEntries_def split: sum.splits)
  have "reporting_body env cfg severity (lr_body r) = VBytes b" using assms(1,3) by (simp add: reporting_body_def)
  moreover have "json_payload env (VBytes b) = None"
    using assms(2) by (simp add: json_payload_def toProtoStruct_def json_marshal_bytes_def or_nil_def)
  ultimately have "text_entries env cfg logName entry (lv_as_string env (VBytes b)) = Inr es"
    using assms(4) e by (simp add: logToSplitEntries_def res_bind_Inr_iff)
  then show ?thesis using base_entry_payload [OF e] by (rule text_entries_not_json)
qed

definition bytes_record :: log_record where
  "bytes_record = \<lparr>lr_time = 5, lr_observed = 0, lr_attrs = [], lr_flags = 0, lr_trace_id = [], lr_span_id = [],
     lr_severity = 9, lr_severity_text = [], lr_body = VBytes ''{}'', lr_event_name = []\<rparr>"

lemma bytes_record_entries:
  "\<exists>es. logToSplitEntries plain_env plain_config bytes_record example_resource Map.empty 0 ''n'' ''p'' = Inr (Inr es)"
proof -
  have "\<exists>entry sev. base_entry plain_env plain_config bytes_record example_resource Map.empty 0 ''n'' ''p'' = Inr (entry, sev)"
    by (simp add: base_entry_def source_location_of_def severity_number_def bytes_record_def attrs_map_def pmap_get_def
        Let_def severityMapping_def)
  moreover have "json_payload plain_env (VBytes ''{}'') = None"
    by (simp add: json_payload_def toProtoStruct_def json_marshal_bytes_def or_nil_def)
  ultimately show ?thesis
    by (auto simp: logToSplitEntries_def reporting_body_def plain_config_def bytes_record_def text_entries_def
        plain_env_def val_str_def Let_def)
qed

lemma bytes_bodies_are_never_json_witness:
  "\<exists>es. logToSplitEntries plain_env plain_config bytes_record example_resource Map.empty 0 ''n'' ''p'' = Inr (Inr es) \<and>
    list_all (\<lambda>e. \<not> is_json_payload (le_payload e)) es"
proof -
  obtain es where es: "logToSplitEntries plain_env plain_config bytes_record example_resource Map.empty 0 ''n'' ''p'' = Inr (Inr es)"
    using bytes_record_entries by blast
  have "lr_body bytes_record = VBytes ''{}''" "\<not> lc_error_reporting plain_config"
    by (simp_all add: bytes_record_def plain_config_def)
  from bytes_bodies_are_never_json [OF this(1) _ this(2) es] es show ?thesis by blast
qed

subsection \<open>The sending loop\<close>

definition recording_log :: "'c log_client \<Rightarrow> ('c \<times> (string option \<times> log_entry list) list) log_client" where
  "recording_log cl q batch c = (let (e, d) = cl q batch (fst c) in (e, d, snd c @ [(q, batch)]))"

definition entry_sizes :: "log_env \<Rightarrow> log_entry list \<Rightarrow> int" where
  "entry_sizes env es = sum_list (List.map (lv_size env) es)"

definition charged :: "log_config \<Rightarrow> string \<Rightarrow> string option" where
  "charged cfg project = (if lc_quota cfg then Some (trim_prefix project ''projects/'') else None)"

lemma write_batch_recorded:
  "snd (ps_client (write_batch cfg (recording_log cl) project batch st)) = snd (ps_client st) @ [(charged cfg project, batch)]"
  by (simp add: write_batch_def recording_log_def charged_def Let_def split: prod.split option.split)

lemma entry_sizes_take_Suc:
  "i < length es \<Longrightarrow> entry_sizes env (take (Suc i) es) = entry_sizes env (take i es) + lv_size env (es ! i)"
  by (simp add: entry_sizes_def take_Suc_conv_app_nth)

text \<open>Each batch that is written: not empty and below the limit.\<close>

definition good_batch :: "log_env \<Rightarrow> log_config \<Rightarrow> log_entry list \<Rightarrow> bool" where
  "good_batch env cfg b \<longleftrightarrow> b \<noteq> [] \<and> entry_sizes env b < lc_max_request_size cfg"

lemma send_loop_batches:
  assumes "list_all (\<lambda>e. 0 \<le> lv_size env e \<and> lv_size env e < lc_max_request_size cfg) entries"
    and "i \<le> length entries" "2 * length entries \<le> fuel + i"
    and "entry_sizes env (take i entries) < lc_max_request_size cfg"
  shows "\<exists>st' batches. send_loop fuel env cfg (recording_log cl) project entries i (entry_sizes env (take i entries)) st = Some st' \<and>
    concat batches = entries \<and> list_all (good_batch env cfg) batches \<and>
    snd (ps_client st') = snd (ps_client st) @ List.map (\<lambda>b. (charged cfg project, b)) batches"
  using assms
proof (induction fuel arbitrary: entries i st)
  case 0
  then have "entries = []" by (cases entries) simp_all
  then show ?case by (intro exI [of _ st] exI [of _ "[]"]) simp
next
  case (Suc fuel)
  show ?case
  proof (cases "entries = []")
    case True
    then show ?thesis by (intro exI [of _ st] exI [of _ "[]"]) simp
  next
    case False
    let ?size = "if i < length entries then lv_size env (entries ! i) else lc_max_request_size cfg"
    let ?batch = "entry_sizes env (take i entries)"
    have nonneg: "0 \<le> ?batch"
    proof -
      have "\<forall>e \<in> set (take i entries). 0 \<le> lv_size env e"
        using Suc.prems(1) set_take_subset [of i entries] by (auto simp: list_all_iff)
      then show ?thesis unfolding entry_sizes_def by (intro sum_list_nonneg) auto
    qed
    show ?thesis
    proof (cases "?batch + ?size < lc_max_request_size cfg")
      case True
      then have i: "i < length entries" using nonneg by (auto split: if_splits)
      then have "entry_sizes env (take (i + 1) entries) = ?batch + ?size" by (simp add: entry_sizes_take_Suc)
      then show ?thesis using Suc.IH [of entries "i + 1" st] Suc.prems i True False by (simp add: Let_def)
    next
      case flush: False
      have i: "0 < i"
      proof (rule ccontr)
        assume "\<not> 0 < i"
        then have "?size < lc_max_request_size cfg" "?batch = 0"
          using Suc.prems(1) False by (auto simp: list_all_iff entry_sizes_def)
        with flush show False by simp
      qed
      let ?st = "write_batch cfg (recording_log cl) project (take i entries) st"
      have rest: "list_all (\<lambda>e. 0 \<le> lv_size env e \<and> lv_size env e < lc_max_request_size cfg) (drop i entries)"
        using Suc.prems(1) by (auto simp: list_all_iff dest: in_set_dropD)
      have limit: "0 < lc_max_request_size cfg" using Suc.prems(4) nonneg by simp
      obtain st' batches where IH: "send_loop fuel env cfg (recording_log cl) project (drop i entries) 0 0 ?st = Some st'"
        "concat batches = drop i entries" "list_all (good_batch env cfg) batches"
        "snd (ps_client st') = snd (ps_client ?st) @ List.map (\<lambda>b. (charged cfg project, b)) batches"
      proof -
        have "2 * length (drop i entries) \<le> fuel + 0" using Suc.prems(2,3) i by simp
        from Suc.IH [OF rest _ this, of ?st] limit that show thesis by (auto simp: entry_sizes_def)
      qed
      have "good_batch env cfg (take i entries)"
        using i False Suc.prems(4) by (cases entries) (auto simp: take_Cons' good_batch_def)
      with IH flush False show ?thesis
        by (intro exI [of _ st'] exI [of _ "take i entries # batches"])
          (simp add: Let_def write_batch_recorded)
    qed
  qed
qed

lemma send_projects_batches:
  assumes "\<And>p es. p \<in> set ps \<Longrightarrow> g p = Some es \<Longrightarrow>
      list_all (\<lambda>e. 0 \<le> lv_size env e \<and> lv_size env e < lc_max_request_size cfg) es \<and> 2 * length es \<le> fuel"
    and "0 < lc_max_request_size cfg"
  shows "\<exists>st' writes. send_projects fuel env cfg (recording_log cl) g ps st = Some st' \<and>
    snd (ps_client st') = snd (ps_client st) @ concat (List.map (\<lambda>(p, bs). List.map (\<lambda>b. (charged cfg p, b)) bs) writes) \<and>
    List.map fst writes = ps \<and>
    list_all (\<lambda>(p, bs). concat bs = (case g p of Some es \<Rightarrow> es | None \<Rightarrow> []) \<and> list_all (good_batch env cfg) bs) writes"
  using assms(1)
proof (induction ps arbitrary: st)
  case Nil
  then show ?case by (intro exI [of _ st] exI [of _ "[]"]) simp
next
  case (Cons p ps)
  let ?es = "case g p of Some es \<Rightarrow> es | None \<Rightarrow> []"
  have "list_all (\<lambda>e. 0 \<le> lv_size env e \<and> lv_size env e < lc_max_request_size cfg) ?es \<and> 2 * length ?es \<le> fuel"
    using Cons.prems [of p] by (auto split: option.splits)
  then obtain st1 bs where first: "send_loop fuel env cfg (recording_log cl) p ?es 0 0 st = Some st1" "concat bs = ?es"
    "list_all (good_batch env cfg) bs" "snd (ps_client st1) = snd (ps_client st) @ List.map (\<lambda>b. (charged cfg p, b)) bs"
    using send_loop_batches [of env cfg ?es 0 fuel cl p st] assms(2) by (auto simp: entry_sizes_def)
  obtain st' writes where rest: "send_projects fuel env cfg (recording_log cl) g ps st1 = Some st'"
    "snd (ps_client st') = snd (ps_client st1) @ concat (List.map (\<lambda>(p, bs). List.map (\<lambda>b. (charged cfg p, b)) bs) writes)"
    "List.map fst writes = ps"
    "list_all (\<lambda>(p, bs). concat bs = (case g p of Some es \<Rightarrow> es | None \<Rightarrow> []) \<and> list_all (good_batch env cfg) bs) writes"
    using Cons.IH [of st1] Cons.prems by auto
  show ?case
    by (intro exI [of _ st'] exI [of _ "(p, bs) # writes"]) (use first rest in simp)
qed

text \<open>C24. Pushing the logs of a started exporter is all or nothing. When a record made an error, nothing is written and
the errors are returned as permanent. Else, with every entry smaller than the request limit, the push
ends after at most two steps of the sending loop per entry and every entry is in exactly one written
request: for each project the requests, in order and each charged to the project, join to its
entries, and each is non-empty and below the limit.\<close>

theorem push_logs_writes_every_entry_once:
  assumes "createEntries env cfg now rls = Inr (g, errs)" "0 < lc_max_request_size cfg"
    and "\<And>p es. g p = Some es \<Longrightarrow>
      list_all (\<lambda>e. 0 \<le> lv_size env e \<and> lv_size env e < lc_max_request_size cfg) es \<and> 2 * length es \<le> fuel"
  shows "if errs \<noteq> [] then
      PushLogs fuel env cfg (recording_log cl) order now rls (Some c) = Some (Inr (Some (Permanent (Inl errs)), Some c))
    else \<exists>e c' writes. PushLogs fuel env cfg (recording_log cl) order now rls (Some c) = Some (Inr (e, Some c')) \<and>
      snd c' = snd c @ concat (List.map (\<lambda>(p, bs). List.map (\<lambda>b. (charged cfg p, b)) bs) writes) \<and>
      List.map fst writes = order g \<and>
      list_all (\<lambda>(p, bs). concat bs = (case g p of Some es \<Rightarrow> es | None \<Rightarrow> []) \<and> list_all (good_batch env cfg) bs) writes"
proof (cases "errs = []")
  case True
  let ?st = "\<lparr>ps_client = c, ps_errors = [], ps_retryable = False\<rparr>"
  obtain st' writes where "send_projects fuel env cfg (recording_log cl) g (order g) ?st = Some st'"
    "snd (ps_client st') = snd (ps_client ?st) @ concat (List.map (\<lambda>(p, bs). List.map (\<lambda>b. (charged cfg p, b)) bs) writes)"
    "List.map fst writes = order g"
    "list_all (\<lambda>(p, bs). concat bs = (case g p of Some es \<Rightarrow> es | None \<Rightarrow> []) \<and> list_all (good_batch env cfg) bs) writes"
    using send_projects_batches [of "order g" g env cfg fuel cl ?st] assms(2,3) by blast
  then show ?thesis using True by (auto simp: PushLogs_def assms(1))
qed (simp add: PushLogs_def assms(1))

definition bytes_logs :: "resource_logs list" where
  "bytes_logs = [\<lparr>rg_resource = [], rg_scopes = [\<lparr>sg_scope = \<lparr>scope_name = [], scope_version = [], scope_attrs = []\<rparr>,
     sg_records = [bytes_record]\<rparr>]\<rparr>]"

lemma bytes_record_entry:
  "\<exists>e. logToSplitEntries plain_env plain_config bytes_record mr ls now ''default-log'' ''p'' = Inr (Inr [e])"
proof -
  have "\<exists>entry sev. base_entry plain_env plain_config bytes_record mr ls now ''default-log'' ''p'' = Inr (entry, sev)"
    by (simp add: base_entry_def source_location_of_def severity_number_def bytes_record_def attrs_map_def pmap_get_def
        Let_def severityMapping_def)
  moreover have "json_payload plain_env (VBytes ''{}'') = None"
    by (simp add: json_payload_def toProtoStruct_def json_marshal_bytes_def or_nil_def)
  ultimately show ?thesis
    by (auto simp: logToSplitEntries_def reporting_body_def plain_config_def bytes_record_def text_entries_def
        plain_env_def val_str_def Let_def)
qed

lemma create_bytes_logs: "\<exists>e. createEntries plain_env plain_config 0 bytes_logs = Inr ([[] \<mapsto> [e]], [])"
proof -
  have name: "getLogName plain_env plain_config bytes_record = Inr ''default-log''"
    by (simp add: getLogName_def bytes_record_def pmap_get_def plain_config_def)
  have quota: "\<not> lc_quota plain_config" by (simp add: plain_config_def)
  have project: "log_project plain_env plain_config [] = ''p''"
    by (simp add: log_project_def pmap_get_def plain_config_def)
  have "\<exists>e. create_record plain_env plain_config 0 mr ls ''p'' bytes_record (Map.empty, []) = Inr ([[] \<mapsto> [e]], [])" for mr ls
  proof -
    obtain e where "logToSplitEntries plain_env plain_config bytes_record mr ls 0 ''default-log'' ''p'' = Inr (Inr [e])"
      using bytes_record_entry by blast
    then show ?thesis by (intro exI [of _ e]) (simp add: create_record_def name add_entry_def quota)
  qed
  then show ?thesis
    by (simp add: createEntries_def create_resource_def create_scope_def bytes_logs_def fold_res_single project Let_def
        del: fold_res.simps)
qed

definition ok_log_client :: "unit log_client" where
  "ok_log_client q batch c = (None, c)"

lemma push_logs_writes_every_entry_once_witness:
  "\<exists>e c' writes g. createEntries plain_env plain_config 0 bytes_logs = Inr (g, []) \<and>
    PushLogs 2 plain_env plain_config (recording_log ok_log_client) (\<lambda>g. [[]]) 0 bytes_logs (Some ((), [])) = Some (Inr (e, Some c')) \<and>
    snd c' = snd ((), [] :: (string option \<times> log_entry list) list) @
      concat (List.map (\<lambda>(p, bs). List.map (\<lambda>b. (charged plain_config p, b)) bs) writes)"
proof -
  obtain x where g: "createEntries plain_env plain_config 0 bytes_logs = Inr ([[] \<mapsto> [x]], [])"
    using create_bytes_logs by blast
  have small: "list_all (\<lambda>e. 0 \<le> lv_size plain_env e \<and> lv_size plain_env e < lc_max_request_size plain_config) es \<and> 2 * length es \<le> 2"
    if "[[] \<mapsto> [x]] p = Some es" for p es
    using that by (auto simp: plain_config_def plain_env_def split: if_splits)
  have pos: "0 < lc_max_request_size plain_config" by (simp add: plain_config_def)
  have "\<exists>e c' writes. PushLogs 2 plain_env plain_config (recording_log ok_log_client) (\<lambda>g. [[]]) 0 bytes_logs (Some ((), [])) =
      Some (Inr (e, Some c')) \<and>
    snd c' = snd ((), [] :: (string option \<times> log_entry list) list) @
      concat (List.map (\<lambda>(p, bs). List.map (\<lambda>b. (charged plain_config p, b)) bs) writes) \<and>
    List.map fst writes = (\<lambda>g. [[]]) [[] \<mapsto> [x]] \<and>
    list_all (\<lambda>(p, bs). concat bs = (case [[] \<mapsto> [x]] p of Some es \<Rightarrow> es | None \<Rightarrow> []) \<and>
      list_all (good_batch plain_env plain_config) bs) writes"
    by (rule push_logs_writes_every_entry_once [OF g pos, unfolded not_True_eq_False if_False simp_thms]) (rule small)
  with g show ?thesis by blast
qed

subsection \<open>Entries that do not fit\<close>

lemma send_loop_hangs:
  assumes "e \<in> set entries" "lc_max_request_size cfg \<le> lv_size env e" "0 \<le> acc"
    and "list_all (\<lambda>e. lv_size env e < lc_max_request_size cfg) (take i entries)"
    and "\<And>e. 0 \<le> lv_size env e"
  shows "send_loop fuel env cfg cl project entries i acc st = None"
  using assms(1,3,4)
proof (induction fuel arbitrary: entries i acc st)
  case (Suc fuel)
  have ne: "entries \<noteq> []" using Suc.prems(1) by auto
  let ?size = "if i < length entries then lv_size env (entries ! i) else lc_max_request_size cfg"
  show ?case
  proof (cases "acc + ?size < lc_max_request_size cfg")
    case True
    then have i: "i < length entries" "lv_size env (entries ! i) < lc_max_request_size cfg"
      using Suc.prems(2) assms(5) by (auto split: if_splits)
    then have "list_all (\<lambda>e. lv_size env e < lc_max_request_size cfg) (take (i + 1) entries)"
      using Suc.prems(3) by (simp add: take_Suc_conv_app_nth)
    moreover have "0 \<le> acc + ?size" using Suc.prems(2) assms(5) i(1) by simp
    ultimately show ?thesis using Suc.IH [OF Suc.prems(1)] True ne i(1) by (simp add: Let_def)
  next
    case False
    have "e \<in> set (drop i entries)"
    proof (rule ccontr)
      assume "e \<notin> set (drop i entries)"
      then have "e \<in> set (take i entries)"
        using Suc.prems(1) append_take_drop_id [of i entries] by (metis Un_iff set_append)
      then show False using Suc.prems(3) assms(2) by (auto simp: list_all_iff)
    qed
    with False ne Suc.IH [of "drop i entries" 0 0] show ?thesis by (simp add: Let_def)
  qed
qed auto

lemma send_projects_hangs:
  assumes "p \<in> set ps" "\<And>st. send_loop fuel env cfg cl p (case g p of Some es \<Rightarrow> es | None \<Rightarrow> []) 0 0 st = None"
  shows "send_projects fuel env cfg cl g ps st = None"
  using assms(1)
proof (induction ps arbitrary: st)
  case (Cons q ps)
  then show ?case using assms(2) by (cases "q = p") (auto split: option.splits)
qed simp

text \<open>C25. An entry at least as large as the request limit makes pushing logs run forever: no number of steps
is enough, since the loop keeps writing the empty batch in front of the entry.\<close>

theorem oversized_entry_never_returns:
  assumes "createEntries env cfg now rls = Inr (g, [])" "p \<in> set (order g)" "g p = Some es" "e \<in> set es"
    and "lc_max_request_size cfg \<le> lv_size env e" "\<And>e. 0 \<le> lv_size env e"
  shows "PushLogs fuel env cfg cl order now rls (Some c) = None"
proof -
  have "send_loop fuel env cfg cl p (case g p of Some es \<Rightarrow> es | None \<Rightarrow> []) 0 0 st = None" for st
    using send_loop_hangs [OF assms(4,5), where i = 0 and acc = 0 and fuel = fuel and cl = cl] assms(3,6) by simp
  from send_projects_hangs [of p "order g" fuel env cfg cl g, OF assms(2) this] show ?thesis by (simp add: PushLogs_def assms(1))
qed

definition tight_config :: log_config where
  "tight_config = plain_config\<lparr>lc_max_request_size := 51\<rparr>"

text \<open>The request limit plays no part in making entries.\<close>

lemma createEntries_request_size: "createEntries env (cfg\<lparr>lc_max_request_size := n\<rparr>) = createEntries env cfg"
proof -
  let ?cfg = "cfg\<lparr>lc_max_request_size := n\<rparr>"
  have "base_entry env ?cfg = base_entry env cfg" by (intro ext) (simp only: base_entry_def)
  moreover have "text_entries env ?cfg = text_entries env cfg" by (intro ext) (simp add: text_entries_def split_body_def Let_def)
  moreover have "reporting_body env ?cfg = reporting_body env cfg" by (intro ext) (simp add: reporting_body_def)
  ultimately have "logToSplitEntries env ?cfg = logToSplitEntries env cfg"
    by (intro ext) (simp only: logToSplitEntries_def)
  moreover have "getLogName env ?cfg = getLogName env cfg" by (intro ext) (simp add: getLogName_def cong: option.case_cong)
  moreover have "lc_quota ?cfg = lc_quota cfg" by simp
  ultimately have "create_record env ?cfg = create_record env cfg"
    by (intro ext) (simp only: create_record_def)
  moreover have "log_project env ?cfg = log_project env cfg" by (intro ext) (simp add: log_project_def cong: option.case_cong)
  moreover have "lc_service_labels ?cfg = lc_service_labels cfg" "lc_filters ?cfg = lc_filters cfg"
    "lc_map_resource ?cfg = lc_map_resource cfg" by simp_all
  ultimately have "create_scope env ?cfg = create_scope env cfg"
    by (intro ext) (simp only: create_scope_def)
  then have "create_resource env ?cfg = create_resource env cfg"
    by (intro ext) (simp add: create_resource_def)
  then show ?thesis by (intro ext) (simp add: createEntries_def)
qed

lemma oversized_entry_never_returns_witness:
  "PushLogs 1000 plain_env tight_config ok_log_client (\<lambda>g. [[]]) 0 bytes_logs (Some ()) = None"
proof -
  have entries: "createEntries plain_env tight_config 0 bytes_logs = createEntries plain_env plain_config 0 bytes_logs"
    by (simp add: tight_config_def createEntries_request_size)
  obtain x where g: "createEntries plain_env tight_config 0 bytes_logs = Inr ([[] \<mapsto> [x]], [])"
    using create_bytes_logs entries by auto
  show ?thesis
    by (rule oversized_entry_never_returns [OF g, where p = "[]" and es = "[x]" and e = x])
      (simp_all add: tight_config_def plain_env_def)
qed

subsection \<open>Records that fail\<close>

lemma fold_res_reaches:
  assumes "fold_res f xs s = Inr s'" "x \<in> set xs"
    and "\<And>x s s'. I s \<Longrightarrow> f x s = Inr s' \<Longrightarrow> I s'" "\<And>s s'. f x s = Inr s' \<Longrightarrow> I s'"
  shows "I s'"
  using assms(1,2)
proof (induction xs arbitrary: s)
  case (Cons y ys)
  then obtain s1 where s1: "f y s = Inr s1" "fold_res f ys s1 = Inr s'" by (auto simp: res_bind_Inr_iff)
  show ?case
  proof (cases "x = y")
    case True
    then show ?thesis using fold_res_invariant [of f ys s1 s' I] s1 assms(3,4) by blast
  next
    case False
    then show ?thesis using Cons s1 by simp
  qed
qed simp

lemma create_record_cases:
  assumes "create_record env cfg now mr ls p r (g, errs) = Inr st'"
  obtains (failed) e where "st' = (g, errs @ [e])"
  | (made) name es where "getLogName env cfg r = Inr name" "snd st' = errs"
proof (cases "getLogName env cfg r")
  case (Inr name)
  then obtain result where "logToSplitEntries env cfg r mr ls now name p = Inr result"
    using assms by (auto simp: create_record_def res_bind_Inr_iff)
  then show thesis using assms Inr failed made by (cases result) (auto simp: create_record_def)
next
  case (Inl e)
  then show thesis using assms by (intro failed [of e]) (simp add: create_record_def)
qed

lemma create_record_errors:
  assumes "create_record env cfg now mr ls p r st = Inr st'" "snd st \<noteq> []"
  shows "snd st' \<noteq> []"
proof -
  obtain g errs where "st = (g, errs)" by fastforce
  with assms show ?thesis by (auto elim: create_record_cases)
qed

lemma create_scope_errors:
  assumes "create_scope env cfg now resource sl st = Inr st'" "snd st \<noteq> []"
  shows "snd st' \<noteq> []"
  using assms unfolding create_scope_def Let_def
  by (elim fold_res_invariant [where I = "\<lambda>st. snd st \<noteq> []"]) (auto dest: create_record_errors)

lemma create_resource_errors:
  assumes "create_resource env cfg now rl st = Inr st'" "snd st \<noteq> []"
  shows "snd st' \<noteq> []"
  using assms unfolding create_resource_def
  by (elim fold_res_invariant [where I = "\<lambda>st. snd st \<noteq> []"]) (auto dest: create_scope_errors)

lemma unnamed_record_error:
  assumes "createEntries env cfg now rls = Inr (g, errs)"
    and "rl \<in> set rls" "sl \<in> set (rg_scopes rl)" "r \<in> set (sg_records sl)"
    and "pmap_get (lr_attrs r) LogNameAttributeKey = None" "lc_default_name cfg = []"
  shows "errs \<noteq> []"
proof -
  let ?I = "\<lambda>st :: entry_groups \<times> entry_error list. snd st \<noteq> []"
  have at_record: "?I st'" if "create_record env cfg now mr ls p r st = Inr st'" for mr ls p st st'
    using that assms(5,6) by (cases st) (auto elim: create_record_cases simp: getLogName_def)
  have scope: "?I st'" if "create_scope env cfg now resource sl st = Inr st'" for resource st st'
    using that unfolding create_scope_def Let_def
    by (elim fold_res_reaches [OF _ assms(4), where I = ?I]) (auto dest: create_record_errors at_record)
  have resource: "?I st'" if "create_resource env cfg now rl st = Inr st'" for st st'
    using that unfolding create_resource_def
    by (elim fold_res_reaches [OF _ assms(3), where I = ?I]) (auto dest: create_scope_errors scope)
  have "?I (g, errs)"
    using assms(1) unfolding createEntries_def
    by (elim fold_res_reaches [OF _ assms(2), where I = ?I]) (auto dest: create_resource_errors resource)
  then show ?thesis by simp
qed

text \<open>One record without a log name, when there is no default name, discards the whole batch: nothing is
written, also not the entries of the other records, and the error is permanent, so the batch is not
tried again.\<close>

theorem unnamed_record_discards_batch:
  assumes "createEntries env cfg now rls = Inr (g, errs)"
    and "rl \<in> set rls" "sl \<in> set (rg_scopes rl)" "r \<in> set (sg_records sl)"
    and "pmap_get (lr_attrs r) LogNameAttributeKey = None" "lc_default_name cfg = []"
  shows "\<exists>errs. PushLogs fuel env cfg cl order now rls (Some c) = Some (Inr (Some (Permanent (Inl errs)), Some c))"
  using unnamed_record_error [OF assms] by (auto simp: PushLogs_def assms(1))

definition unnamed_config :: log_config where
  "unnamed_config = plain_config\<lparr>lc_default_name := []\<rparr>"

lemma unnamed_record_discards_batch_witness:
  "\<exists>errs. PushLogs 5 plain_env unnamed_config ok_log_client (\<lambda>g. []) 0 bytes_logs (Some ()) =
    Some (Inr (Some (Permanent (Inl errs)), Some ()))"
proof -
  have "getLogName plain_env unnamed_config bytes_record = Inl NoLogName"
    by (simp add: getLogName_def bytes_record_def pmap_get_def unnamed_config_def)
  then have "createEntries plain_env unnamed_config 0 bytes_logs = Inr (Map.empty, [NoLogName])"
    by (simp add: createEntries_def create_resource_def create_scope_def bytes_logs_def create_record_def)
  then show ?thesis
    by (rule unnamed_record_discards_batch)
      (auto simp: bytes_logs_def bytes_record_def pmap_get_def unnamed_config_def)
qed

end
