(* ===== verification/Utf8Tail.thy ===== *)
theory Utf8Tail
  imports GoStrings
begin

text \<open>
  The end of a UTF-8 string: \<open>utf8.DecodeLastRune\<close>, and cutting a string at a byte position and then
  dropping the bytes of an incomplete rune.
\<close>

text \<open>
  \<open>utf8.DecodeLastRune\<close> looks back from the last but one byte, over at most four bytes, for the first
  byte of a rune; the rune counts only when it ends where the bytes end.
\<close>

definition decode_last_rune :: "string \<Rightarrow> nat \<times> nat" where
  "decode_last_rune p =
     (if p = [] then (rune_error, 0)
      else if byte (last p) < 128 then (byte (last p), 1)
      else
        let back = (case List.find (\<lambda>k. \<not> is_cont (byte (p ! (length p - k)))) [2..<Suc (min 4 (length p))] of
               Some k \<Rightarrow> k | None \<Rightarrow> min 5 (length p));
            (r, size) = decode_rune (drop (length p - back) p)
        in if size \<noteq> back then (rune_error, 1) else (r, size))"

text \<open>The loop that drops broken bytes from the end.\<close>

function drop_broken :: "string \<Rightarrow> string" where
  "drop_broken b = (if decode_last_rune b = (rune_error, 1) then drop_broken (butlast b) else b)"
  by pat_completeness auto
termination
proof (relation "measure length")
  fix b :: string
  assume "decode_last_rune b = (rune_error, 1)"
  then have "b \<noteq> []" by (auto simp: decode_last_rune_def)
  then show "(butlast b, b) \<in> measure length" by simp
qed simp

declare drop_broken.simps [simp del]

subsection \<open>Byte sequences of one rune\<close>

definition one_rune :: "string \<Rightarrow> bool" where
  "one_rune e \<longleftrightarrow> e \<noteq> [] \<and> snd (decode_rune e) = length e \<and> decode_rune e \<noteq> (rune_error, 1)"

lemma second_ok_cont: "second_ok a b \<Longrightarrow> is_cont b"
  by (auto simp: second_ok_def is_cont_def split: if_splits)

lemma one_rune_cases:
  assumes "one_rune e"
  obtains (ascii) c where "e = [c]" "byte c < 128"
  | (multi) c cs where "e = c # cs" "128 \<le> byte c" "\<not> is_cont (byte c)" "cs \<noteq> []" "length cs \<le> 3"
      "\<forall>d \<in> set cs. is_cont (byte d)" "\<forall>k. 0 < k \<and> k < length e \<longrightarrow> decode_rune (take k e) = (rune_error, 1)"
proof -
  obtain c cs where e: "e = c # cs" using assms by (cases e) (auto simp: one_rune_def)
  let ?b = "byte c"
  consider "?b < 128" | "194 \<le> ?b" "?b \<le> 223" | "224 \<le> ?b" "?b \<le> 239" | "240 \<le> ?b" "?b \<le> 244"
    | "128 \<le> ?b" "\<not> (194 \<le> ?b \<and> ?b \<le> 244)" by linarith
  then show thesis
  proof cases
    case 1
    then show thesis using assms ascii by (auto simp: one_rune_def e)
  next
    case 2
    then obtain d where "cs = [d]" "is_cont (byte d)"
      using assms by (auto simp: one_rune_def e Let_def decode2_def split: list.splits if_splits)
    with 2 show thesis by (intro multi [of c cs]) (auto simp: e Let_def is_cont_def decode2_def less_Suc_eq take_Cons')
  next
    case 3
    then obtain d1 d2 where "cs = [d1, d2]" "second_ok ?b (byte d1)" "is_cont (byte d2)"
      using assms by (auto simp: one_rune_def e Let_def decode3_def split: list.splits if_splits)
    with 3 second_ok_cont show thesis
      by (intro multi [of c cs]) (auto simp: e Let_def is_cont_def decode3_def less_Suc_eq take_Cons')
  next
    case 4
    then obtain d1 d2 d3 where "cs = [d1, d2, d3]" "second_ok ?b (byte d1)" "is_cont (byte d2)" "is_cont (byte d3)"
      using assms by (auto simp: one_rune_def e Let_def decode4_def split: list.splits if_splits)
    with 4 second_ok_cont show thesis
      by (intro multi [of c cs]) (auto simp: e Let_def is_cont_def decode4_def less_Suc_eq take_Cons')
  next
    case 5
    then show thesis using assms by (auto simp: one_rune_def e)
  qed
qed

lemma one_rune_valid: "one_rune e \<Longrightarrow> valid_utf8 e"
  by (auto simp: one_rune_def valid_utf8_def segments_step bad_segment_def prod_eq_iff)

lemma valid_concat: "list_all one_rune es \<Longrightarrow> valid_utf8 (concat es)"
  by (induction es) (auto intro: valid_utf8_append one_rune_valid)

lemma valid_as_runes:
  assumes "valid_utf8 s"
  obtains es where "s = concat es" "list_all one_rune es"
proof -
  have "\<exists>es. s = concat es \<and> list_all one_rune es" using assms
  proof (induction s rule: segments.induct)
    case (1 s)
    show ?case
    proof (cases "s = []")
      case False
      let ?n = "snd (decode_rune s)"
      have n: "1 \<le> ?n" "?n \<le> length s" using decode_width [OF False] by auto
      have valid: "valid_utf8 (drop ?n s)" "decode_rune s \<noteq> (rune_error, 1)"
        using 1(2) False n by (auto simp: valid_utf8_def segments_step bad_segment_def prod_eq_iff)
      then have "one_rune (take ?n s)"
        using decode_take [OF valid(2) False] n False by (auto simp: one_rune_def)
      moreover obtain es where "drop ?n s = concat es" "list_all one_rune es" using 1(1) [OF False valid(1)] by blast
      ultimately show ?thesis
        using append_take_drop_id [of ?n s] by (intro exI [of _ "take ?n s # es"]) simp
    qed (intro exI [of _ "[]"], simp)
  qed
  with that show thesis by blast
qed

subsection \<open>The last rune\<close>

lemma find_append_cases: "List.find P (xs @ ys) = (case List.find P xs of Some x \<Rightarrow> Some x | None \<Rightarrow> List.find P ys)"
  by (induction xs) auto

lemma find_member: "List.find P xs = Some k \<Longrightarrow> k \<in> set xs"
  by (induction xs) (auto split: if_splits)

lemma find_first:
  assumes "m \<le> k" "k < n" "P k" "\<forall>j. m \<le> j \<and> j < k \<longrightarrow> \<not> P j"
  shows "List.find P [m..<n] = Some k"
proof -
  have "[m..<n] = [m..<k] @ k # [Suc k..<n]"
    using assms(1,2) by (metis le_add_diff_inverse less_imp_le_nat upt_add_eq_append upt_conv_Cons)
  moreover have "List.find P [m..<k] = None" using assms(4) by (simp add: find_None_iff)
  ultimately show ?thesis using assms(3) by (simp add: find_append_cases)
qed

lemma find_lead:
  assumes "p = a @ c # cs" "\<not> is_cont (byte c)" "\<forall>d \<in> set cs. is_cont (byte d)" "cs \<noteq> []" "length cs \<le> 3"
  shows "List.find (\<lambda>k. \<not> is_cont (byte (p ! (length p - k)))) [2..<Suc (min 4 (length p))] = Some (Suc (length cs))"
proof (rule find_first)
  show "2 \<le> Suc (length cs)" "Suc (length cs) < Suc (min 4 (length p))"
    using assms(1,4,5) by (cases cs; simp)+
  show "\<not> is_cont (byte (p ! (length p - Suc (length cs))))" using assms(1,2) by (simp add: nth_append)
  show "\<forall>j. 2 \<le> j \<and> j < Suc (length cs) \<longrightarrow> \<not> \<not> is_cont (byte (p ! (length p - j)))"
  proof (intro allI impI)
    fix j assume j: "2 \<le> j \<and> j < Suc (length cs)"
    then have "p ! (length p - j) = cs ! (length cs - j)"
      by (simp add: assms(1) nth_append nth_Cons' Suc_diff_le) (auto simp: nth_append)
    moreover have "cs ! (length cs - j) \<in> set cs" using j by (intro nth_mem) linarith
    ultimately show "\<not> \<not> is_cont (byte (p ! (length p - j)))" using assms(3) by simp
  qed
qed

lemma last_rune_at:
  assumes "p \<noteq> []" "128 \<le> byte (last p)"
    and "bk = (case List.find (\<lambda>k. \<not> is_cont (byte (p ! (length p - k)))) [2..<Suc (min 4 (length p))] of
      Some k \<Rightarrow> k | None \<Rightarrow> min 5 (length p))"
  shows "decode_last_rune p = (if snd (decode_rune (drop (length p - bk) p)) \<noteq> bk then (rune_error, 1)
    else decode_rune (drop (length p - bk) p))"
  unfolding decode_last_rune_def Let_def assms(3) [symmetric] using assms(1,2) by (simp add: case_prod_beta prod_eq_iff)

lemma last_rune_whole:
  assumes "one_rune e" shows "decode_last_rune (a @ e) \<noteq> (rune_error, 1)"
  using assms
proof (cases rule: one_rune_cases)
  case (ascii c)
  then show ?thesis by (simp add: decode_last_rune_def rune_error_def)
next
  case (multi c cs)
  have "128 \<le> byte (last (a @ e))" using multi(1,4,6) by (auto simp: is_cont_def)
  moreover have "decode_rune e = (fst (decode_rune e), length e)" "2 \<le> length e"
    using assms multi(1,4) by (auto simp: one_rune_def prod_eq_iff Suc_le_eq)
  ultimately show ?thesis
    using find_lead [of "a @ e" a c cs] multi by (auto simp: decode_last_rune_def Let_def split: prod.splits)
qed

lemma decode_ends_with_cont:
  assumes "snd (decode_rune x) = length x" "2 \<le> length x" shows "is_cont (byte (last x))"
proof -
  have "one_rune x" using assms by (auto simp: one_rune_def)
  then show ?thesis by (cases rule: one_rune_cases) (use assms in auto)
qed

lemma last_rune_broken:
  assumes "one_rune e" "0 < k" "k < length e"
  shows "decode_last_rune (a @ take k e) = (rune_error, 1)"
  using assms(1)
proof (cases rule: one_rune_cases)
  case (multi c cs)
  have broken: "decode_rune (take k e) = (rune_error, 1)" using multi(7) assms(2,3) by blast
  show ?thesis
  proof (cases "k = 1")
    case True
    then have e: "take k e = [c]" using multi(1) by simp
    let ?p = "a @ [c]"
    obtain bk where bk: "bk = (case List.find (\<lambda>k. \<not> is_cont (byte (?p ! (length ?p - k)))) [2..<Suc (min 4 (length ?p))] of
        Some k \<Rightarrow> k | None \<Rightarrow> min 5 (length ?p))" by simp
    have range: "1 \<le> bk" "bk \<le> length ?p"
    proof -
      have "1 \<le> bk \<and> bk \<le> length ?p"
      proof (cases "List.find (\<lambda>k. \<not> is_cont (byte (?p ! (length ?p - k)))) [2..<Suc (min 4 (length ?p))]")
        case (Some k)
        then have "k \<in> set [2..<Suc (min 4 (length ?p))]" by (rule find_member)
        then have "2 \<le> k" "k < Suc (min 4 (length ?p))" by (simp_all only: set_upt atLeastLessThan_iff)
        moreover have "bk = k" using Some bk by simp
        ultimately show ?thesis by linarith
      qed (simp add: bk)
      then show "1 \<le> bk" "bk \<le> length ?p" by blast+
    qed
    have "snd (decode_rune (drop (length ?p - bk) ?p)) \<noteq> bk \<or> bk = 1"
    proof (rule ccontr)
      assume no: "\<not> (snd (decode_rune (drop (length ?p - bk) ?p)) \<noteq> bk \<or> bk = 1)"
      then have "is_cont (byte (last (drop (length ?p - bk) ?p)))"
        using range by (intro decode_ends_with_cont) auto
      moreover have "last (drop (length ?p - bk) ?p) = c" using range by (subst last_drop) auto
      ultimately show False using multi(3) by simp
    qed
    moreover have "decode_rune (drop (length ?p - 1) ?p) = (rune_error, 1)" using broken e by simp
    moreover have "decode_last_rune ?p = (if snd (decode_rune (drop (length ?p - bk) ?p)) \<noteq> bk then (rune_error, 1)
        else decode_rune (drop (length ?p - bk) ?p))"
      by (rule last_rune_at [OF _ _ bk]) (use multi(2) in simp_all)
    ultimately have "decode_last_rune ?p = (rune_error, 1)" by (cases "bk = 1") simp_all
    then show ?thesis using e by simp
  next
    case False
    then have e: "take k e = c # take (k - 1) cs" "take (k - 1) cs \<noteq> []" "length (take (k - 1) cs) = k - 1"
      using assms(2,3) multi(1,4) by (auto simp: take_Cons' min_def)
    have conts: "\<forall>d \<in> set (take (k - 1) cs). is_cont (byte d)" using multi(6) by (auto dest: in_set_takeD)
    then have "128 \<le> byte (last (take (k - 1) cs))" using e(2) by (auto simp: is_cont_def)
    then have last: "128 \<le> byte (last (a @ take k e))" using e(1,2) by simp
    have split: "a @ take k e = a @ c # take (k - 1) cs" by (simp only: e(1))
    have short: "length (take (k - 1) cs) \<le> 3" using multi(5) by simp
    have "Suc (length (take (k - 1) cs)) = k" using e(3) assms(2) by simp
    then have lead: "List.find (\<lambda>j. \<not> is_cont (byte ((a @ take k e) ! (length (a @ take k e) - j))))
        [2..<Suc (min 4 (length (a @ take k e)))] = Some k"
      using find_lead [OF split multi(3) conts e(2) short] by (simp only:)
    have "decode_last_rune (a @ take k e) = (if snd (decode_rune (drop (length (a @ take k e) - k) (a @ take k e))) \<noteq> k
        then (rune_error, 1) else decode_rune (drop (length (a @ take k e) - k) (a @ take k e)))"
      by (rule last_rune_at [OF _ last]) (use e(1) in simp, simp only: lead option.case)
    moreover have "drop (length (a @ take k e) - k) (a @ take k e) = take k e" using assms(3) by simp
    ultimately show ?thesis using broken False by simp
  qed
qed (use assms in auto)

subsection \<open>Cutting\<close>

lemma take_runes:
  assumes "list_all one_rune es"
  shows "\<exists>ds q. take n (concat es) = concat ds @ q \<and> (\<exists>fs. es = ds @ fs) \<and>
    (q = [] \<or> (\<exists>e k. one_rune e \<and> 0 < k \<and> k < length e \<and> q = take k e))"
  using assms
proof (induction es arbitrary: n)
  case (Cons e es)
  show ?case
  proof (cases "length e \<le> n")
    case True
    obtain ds q where "take (n - length e) (concat es) = concat ds @ q" "\<exists>fs. es = ds @ fs"
      "q = [] \<or> (\<exists>e k. one_rune e \<and> 0 < k \<and> k < length e \<and> q = take k e)"
      using Cons.IH [of "n - length e"] Cons.prems by auto
    with True show ?thesis by (intro exI [of _ "e # ds"] exI [of _ q]) auto
  next
    case False
    then show ?thesis
    proof (cases "n = 0")
      case False
      have "one_rune e \<and> 0 < n \<and> n < length e \<and> take n e = take n e"
        using False \<open>\<not> length e \<le> n\<close> Cons.prems by simp
      then have "\<exists>f k. one_rune f \<and> 0 < k \<and> k < length f \<and> take n e = take k f" by blast
      moreover have "take n (concat (e # es)) = concat [] @ take n e" using \<open>\<not> length e \<le> n\<close> by simp
      ultimately show ?thesis by (intro exI [of _ "[]"] exI [of _ "take n e"]) auto
    qed (intro exI [of _ "[]"] exI [of _ "[]"], simp)
  qed
qed (intro exI [of _ "[]"], simp)

lemma drop_broken_whole: "list_all one_rune ds \<Longrightarrow> drop_broken (concat ds) = concat ds"
proof (cases ds rule: rev_cases)
  case (snoc es e)
  assume "list_all one_rune ds"
  then show ?thesis using last_rune_whole [of e "concat es"] snoc by (subst drop_broken.simps) auto
qed (subst drop_broken.simps, simp add: decode_last_rune_def)

lemma drop_broken_tail:
  assumes "list_all one_rune ds" "one_rune e" "k < length e"
  shows "drop_broken (concat ds @ take k e) = concat ds"
  using assms(3)
proof (induction k)
  case 0
  then show ?case using drop_broken_whole [OF assms(1)] by simp
next
  case (Suc k)
  have "e \<noteq> []" using Suc.prems by auto
  then have "butlast (concat ds @ take (Suc k) e) = concat ds @ take k e"
    using Suc.prems by (simp add: butlast_append butlast_take)
  then show ?case
    using Suc last_rune_broken [OF assms(2), of "Suc k" "concat ds"] by (subst drop_broken.simps) simp
qed

text \<open>A valid string cut at \<open>n\<close> bytes loses at most the three bytes of a rune that was cut.\<close>

lemma drop_broken_take:
  assumes "valid_utf8 s"
  obtains p t where "drop_broken (take n s) = p" "s = p @ t" "valid_utf8 p" "length p \<le> n" "n < length p + 4 \<or> t = []"
proof -
  obtain es where es: "s = concat es" "list_all one_rune es" using valid_as_runes [OF assms] .
  obtain ds q fs where cut0: "take n (concat es) = concat ds @ q" and cut: "es = ds @ fs"
    "q = [] \<or> (\<exists>e k. one_rune e \<and> 0 < k \<and> k < length e \<and> q = take k e)"
    using take_runes [OF es(2), of n] by (elim exE conjE) rule
  have cut1: "take n s = concat ds @ q" using cut0 by (simp only: es(1))
  have ds: "list_all one_rune ds" using es(2) cut(1) by simp
  have result: "drop_broken (take n s) = concat ds"
    using cut(2)
  proof (elim disjE exE conjE)
    show ?thesis if "q = []" using drop_broken_whole [OF ds] that by (simp add: cut1)
    show ?thesis if "one_rune e" "0 < k" "k < length e" "q = take k e" for e k
      using drop_broken_tail [OF ds that(1,3)] that(4) by (simp add: cut1)
  qed
  have short: "length q \<le> 3"
    using cut(2)
  proof (elim disjE exE conjE)
    show ?thesis if "one_rune e" "0 < k" "k < length e" "q = take k e" for e k
      using that(1) by (cases rule: one_rune_cases) (use that in simp_all)
  qed simp
  have total: "length (concat ds) + length q = min n (length s)" 
  proof -
    have "length (take n s) = length (concat ds @ q)" by (simp only: cut1)
    then show ?thesis by (simp only: length_append length_take min.commute)
  qed
  show thesis
  proof (rule that [OF result])
    show whole: "s = concat ds @ concat fs" using es(1) cut(1) by simp
    show "valid_utf8 (concat ds)" using ds by (rule valid_concat)
    show "length (concat ds) \<le> n" using total by linarith
    show "n < length (concat ds) + 4 \<or> concat fs = []"
    proof (cases "n \<le> length s")
      case True
      then show ?thesis using total short by linarith
    next
      case False
      then have "take n s = s" by simp
      then have "concat ds @ concat fs = concat ds @ q" using cut1 whole by (simp only:)
      then have "concat fs = q" by (simp only: same_append_eq)
      have "q = []"
      proof (rule ccontr)
        assume "q \<noteq> []"
        then obtain e k where e: "one_rune e" "0 < k" "k < length e" "q = take k e" using cut(2) by blast
        have "list_all one_rune fs" using es(2) cut(1) by simp
        then have "valid_utf8 q" using valid_concat \<open>concat fs = q\<close> by blast
        moreover have "decode_rune q = (rune_error, 1)"
          using e(1) by (cases rule: one_rune_cases) (use e in simp_all)
        ultimately show False using \<open>q \<noteq> []\<close> by (simp add: valid_utf8_def segments_step bad_segment_def Suc_le_eq)
      qed
      then show ?thesis using \<open>concat fs = q\<close> by simp
    qed
  qed
qed

end
