(* ===== verification/Traces.thy ===== *)
theory Traces
  imports ResourceMapping Utf8Tail MetricsExporter
begin

text \<open>
  The trace exporters: from OTLP spans to read-only spans (exporter/collector/spandata.go,
  spansnapshot.go, traces.go) and from those to Cloud Trace spans, sent per project
  (exporter/trace/trace_proto.go, trace.go). Arguments are the rendering of values and floats, the
  attribute set that the SDK makes of a resource, the attribute mapping of the options, the agent
  string, and the trace client, which threads its own state.
\<close>

subsection \<open>Spans of the SDK\<close>

datatype attr_value = AString string | ABool bool | AInt i64 | AFloat f64 | ASlice

type_synonym key_value = "string \<times> attr_value"

text \<open>\<open>Value.AsString\<close> of the attribute package is empty on every other type.\<close>

definition attr_as_string :: "attr_value \<Rightarrow> string" where
  "attr_as_string v = (case v of AString s \<Rightarrow> s | _ \<Rightarrow> [])"

record span_context =
  sc_trace_id :: string
  sc_span_id :: string
  sc_flags :: "8 word"
  sc_state :: "(string \<times> string) list"
  sc_remote :: bool

datatype span_kind = KUnspecified | KInternal | KServer | KClient | KProducer | KConsumer | KOther

datatype status_code = CUnset | CError | COk | COther

record span_event =
  ev_name :: string
  ev_attrs :: "key_value list"
  ev_time :: int

record span_link =
  ln_context :: span_context
  ln_attrs :: "key_value list"

record spanSnapshot =
  sn_context :: span_context
  sn_parent :: span_context
  sn_kind :: span_kind
  sn_start :: int
  sn_end :: int
  sn_name :: string
  sn_attrs :: "key_value list"
  sn_links :: "span_link list"
  sn_events :: "span_event list"
  sn_dropped_attributes :: int
  sn_dropped_events :: int
  sn_dropped_links :: int
  sn_resource :: "key_value list"
  sn_scope_name :: string
  sn_scope_version :: string
  sn_status :: "status_code \<times> string"

text \<open>The accessor \<open>DroppedEvents\<close> as it is written.\<close>

definition DroppedEvents :: "spanSnapshot \<Rightarrow> int" where
  "DroppedEvents s = sn_dropped_links s"

subsection \<open>Spans of pdata\<close>

datatype pdata_kind = PKUnspecified | PKInternal | PKServer | PKClient | PKProducer | PKConsumer | PKOther

datatype pdata_status = PSUnset | PSOk | PSError | PSOther

record pdata_event =
  pe_name :: string
  pe_attrs :: pmap
  pe_time :: u64

record pdata_link =
  pl_trace_id :: string
  pl_span_id :: string
  pl_attrs :: pmap

record pdata_span =
  pn_trace_id :: string
  pn_span_id :: string
  pn_parent_id :: string
  pn_kind :: pdata_kind
  pn_start :: u64
  pn_end :: u64
  pn_name :: string
  pn_attrs :: pmap
  pn_links :: "pdata_link list"
  pn_events :: "pdata_event list"
  pn_dropped_attributes :: u32
  pn_dropped_events :: u32
  pn_dropped_links :: u32
  pn_status :: "pdata_status \<times> string"

record scope_spans =
  pc_scope :: scope
  pc_spans :: "pdata_span list"

record resource_spans =
  pr_resource :: pmap
  pr_scopes :: "scope_spans list"

record trace_env =
  tv_as_string :: as_string
  tv_resource :: "key_value list \<Rightarrow> key_value list"
  tv_format_float :: "f64 \<Rightarrow> string"
  tv_order :: "labels \<Rightarrow> string list"
  tv_agent :: string

fun append_attrs :: "trace_env \<Rightarrow> pmap \<Rightarrow> key_value list \<Rightarrow> key_value list" where
  "append_attrs env [] acc = acc"
| "append_attrs env ((k, v) # kvs) acc =
     (if k \<in> {''service.name'', ''service.namespace'', ''service.instance.id''} \<and> tv_as_string env v = []
      then append_attrs env kvs acc
      else append_attrs env kvs (acc @ [(k, case v of
          VStr s \<Rightarrow> AString s
        | VBool b \<Rightarrow> ABool b
        | VInt i \<Rightarrow> AInt i
        | VDouble d \<Rightarrow> AFloat d
        | _ \<Rightarrow> AString (tv_as_string env v))]))"

definition pdataAttributesToOTAttributes :: "trace_env \<Rightarrow> pmap \<Rightarrow> pmap \<Rightarrow> key_value list" where
  "pdataAttributesToOTAttributes env attrs resource = append_attrs env attrs (append_attrs env resource [])"

fun pdataSpanKindToOTSpanKind :: "pdata_kind \<Rightarrow> span_kind" where
  "pdataSpanKindToOTSpanKind PKUnspecified = KInternal"
| "pdataSpanKindToOTSpanKind PKInternal = KInternal"
| "pdataSpanKindToOTSpanKind PKServer = KServer"
| "pdataSpanKindToOTSpanKind PKClient = KClient"
| "pdataSpanKindToOTSpanKind PKProducer = KProducer"
| "pdataSpanKindToOTSpanKind PKConsumer = KConsumer"
| "pdataSpanKindToOTSpanKind PKOther = KUnspecified"

fun pdataStatusCodeToOTCode :: "pdata_status \<Rightarrow> status_code" where
  "pdataStatusCodeToOTCode PSOk = COk"
| "pdataStatusCodeToOTCode PSError = CError"
| "pdataStatusCodeToOTCode PSUnset = CUnset"
| "pdataStatusCodeToOTCode PSOther = CUnset"

text \<open>\<open>NewSpanContext\<close> with only the two identifiers set.\<close>

definition plain_context :: "string \<Rightarrow> string \<Rightarrow> span_context" where
  "plain_context tid sid = \<lparr>sc_trace_id = tid, sc_span_id = sid, sc_flags = 0, sc_state = [], sc_remote = False\<rparr>"

definition pdataLinksToOTLinks :: "trace_env \<Rightarrow> pdata_link list \<Rightarrow> span_link list" where
  "pdataLinksToOTLinks env ls = List.map (\<lambda>l. \<lparr>ln_context = plain_context (pl_trace_id l) (pl_span_id l),
     ln_attrs = pdataAttributesToOTAttributes env (pl_attrs l) []\<rparr>) ls"

definition pdataEventsToOTMessageEvents :: "trace_env \<Rightarrow> pdata_event list \<Rightarrow> span_event list" where
  "pdataEventsToOTMessageEvents env es = List.map (\<lambda>e. \<lparr>ev_name = pe_name e,
     ev_attrs = pdataAttributesToOTAttributes env (pe_attrs e) [], ev_time = sint (pe_time e)\<rparr>) es"

definition pdataSpanToOTSpanData :: "trace_env \<Rightarrow> pdata_span \<Rightarrow> pmap \<Rightarrow> scope \<Rightarrow> spanSnapshot" where
  "pdataSpanToOTSpanData env sp resource sc = \<lparr>
     sn_context = plain_context (pn_trace_id sp) (pn_span_id sp),
     sn_parent = plain_context (pn_trace_id sp) (pn_parent_id sp),
     sn_kind = pdataSpanKindToOTSpanKind (pn_kind sp),
     sn_start = sint (pn_start sp),
     sn_end = sint (pn_end sp),
     sn_name = pn_name sp,
     sn_attrs = pdataAttributesToOTAttributes env (pn_attrs sp) resource,
     sn_links = pdataLinksToOTLinks env (pn_links sp),
     sn_events = pdataEventsToOTMessageEvents env (pn_events sp),
     sn_dropped_attributes = uint (pn_dropped_attributes sp),
     sn_dropped_events = uint (pn_dropped_events sp),
     sn_dropped_links = uint (pn_dropped_links sp),
     sn_resource = tv_resource env (pdataAttributesToOTAttributes env [] resource),
     sn_scope_name = scope_name sc,
     sn_scope_version = scope_version sc,
     sn_status = (pdataStatusCodeToOTCode (fst (pn_status sp)), snd (pn_status sp))\<rparr>"

definition pdataResourceSpansToOTSpanData :: "trace_env \<Rightarrow> resource_spans \<Rightarrow> spanSnapshot list" where
  "pdataResourceSpansToOTSpanData env rs = concat (List.map (\<lambda>ss.
     List.map (\<lambda>s. pdataSpanToOTSpanData env s (pr_resource rs) (pc_scope ss)) (pc_spans ss)) (pr_scopes rs))"

subsection \<open>Cloud Trace spans\<close>

record truncatable =
  tr_value :: string
  tr_truncated :: int

datatype trace_value = TBool bool | TInt i64 | TString truncatable

record span_attributes =
  sa_map :: "string \<rightharpoonup> trace_value"
  sa_dropped :: i32

record time_event =
  te_time :: pb_timestamp
  te_description :: truncatable
  te_attributes :: "span_attributes option"

record time_events =
  ts_events :: "time_event list"
  ts_dropped :: int

record trace_link =
  tl_trace_id :: string
  tl_span_id :: string
  tl_attributes :: "span_attributes option"

record trace_links =
  tk_links :: "trace_link list"
  tk_dropped :: int

datatype trace_kind = TK_INTERNAL | TK_SERVER | TK_CLIENT | TK_PRODUCER | TK_CONSUMER

record trace_status =
  tt_code :: int
  tt_message :: string

record trace_span =
  sp_name :: string
  sp_span_id :: string
  sp_parent_id :: string
  sp_display_name :: truncatable
  sp_start_time :: pb_timestamp
  sp_end_time :: pb_timestamp
  sp_same_process :: bool
  sp_kind :: trace_kind
  sp_status :: "trace_status option"
  sp_attributes :: span_attributes
  sp_time_events :: "time_events option"
  sp_links :: "trace_links option"

record trace_config =
  tg_project :: string
  tg_map :: "string \<Rightarrow> string"
  tg_quota :: bool
  tg_timeout :: int

definition maxAnnotationEventsPerSpan :: nat where
  "maxAnnotationEventsPerSpan = 256"

definition maxDisplayNameLength :: nat where
  "maxDisplayNameLength = 1024"

definition maxAnnotationDescriptionLength :: nat where
  "maxAnnotationDescriptionLength = 1024"

definition maxAttributeKeyLength :: nat where
  "maxAttributeKeyLength = 512"

definition maxAttributeStringValue :: nat where
  "maxAttributeStringValue = 65536"

definition maxNumLinks :: nat where
  "maxNumLinks = 128"

definition agentLabel :: string where
  "agentLabel = ''g.co/agent''"

text \<open>\<open>ToValidUTF8\<close> with the empty replacement.\<close>

definition trace_sanitizeUTF8 :: "string \<Rightarrow> string" where
  "trace_sanitizeUTF8 s = to_valid_utf8 s []"

definition clip32 :: "int \<Rightarrow> int" where
  "clip32 x = (if x < - (2 ^ 31) then - (2 ^ 31) else if 2 ^ 31 - 1 < x then 2 ^ 31 - 1 else x)"

definition trunc :: "string \<Rightarrow> nat \<Rightarrow> truncatable" where
  "trunc s limit =
     (if limit < length s
      then let b = drop_broken (take limit s)
        in \<lparr>tr_value = b, tr_truncated = clip32 (int (length s) - int (length b))\<rparr>
      else \<lparr>tr_value = s, tr_truncated = 0\<rparr>)"

definition attributeValue :: "trace_env \<Rightarrow> attr_value \<Rightarrow> trace_value option" where
  "attributeValue env v = (case v of
     ABool b \<Rightarrow> Some (TBool b)
   | AInt i \<Rightarrow> Some (TInt i)
   | AFloat d \<Rightarrow> Some (TString (trunc (tv_format_float env d) maxAttributeStringValue))
   | AString s \<Rightarrow> Some (TString (trunc (trace_sanitizeUTF8 s) maxAttributeStringValue))
   | ASlice \<Rightarrow> None)"

definition defaultAttributeMapping :: "string \<Rightarrow> string" where
  "defaultAttributeMapping k =
     (if k = ''http.path'' then ''/http/path''
      else if k = ''http.host'' then ''/http/host''
      else if k = ''http.method'' then ''/http/method''
      else if k = ''http.user_agent'' then ''/http/user_agent''
      else if k = ''http.status_code'' then ''/http/status_code''
      else k)"

definition mappingFuncFromAKM :: "(string \<times> string) list \<Rightarrow> string \<Rightarrow> string" where
  "mappingFuncFromAKM akm k = (case put_all Map.empty akm k of Some r \<Rightarrow> r | None \<Rightarrow> k)"

fun copy_loop :: "trace_env \<Rightarrow> trace_config \<Rightarrow> key_value list \<Rightarrow> span_attributes \<Rightarrow> span_attributes" where
  "copy_loop env cfg [] out = out"
| "copy_loop env cfg ((k, v) # kvs) out = (case attributeValue env v of
     None \<Rightarrow> copy_loop env cfg kvs out
   | Some av \<Rightarrow>
       let key = tg_map cfg k in
       if maxAttributeKeyLength < length key then copy_loop env cfg kvs (out\<lparr>sa_dropped := sa_dropped out + 1\<rparr>)
       else copy_loop env cfg kvs (out\<lparr>sa_map := (sa_map out)(key \<mapsto> av)\<rparr>))"

definition copyAttributes :: "trace_env \<Rightarrow> trace_config \<Rightarrow> span_attributes option \<Rightarrow> key_value list \<Rightarrow> span_attributes option" where
  "copyAttributes env cfg out kvs =
     (if kvs = [] then out
      else Some (copy_loop env cfg kvs
        \<lparr>sa_map = (case out of Some a \<Rightarrow> sa_map a | None \<Rightarrow> Map.empty), sa_dropped = 0\<rparr>))"

fun resource_loop :: "key_value list \<Rightarrow> string set \<Rightarrow> key_value list \<Rightarrow> key_value list \<times> string set" where
  "resource_loop [] unique acc = (acc, unique)"
| "resource_loop ((k, v) # kvs) unique acc =
     (if k \<in> unique then resource_loop kvs unique acc
      else resource_loop kvs (insert k unique) (acc @ [(k, v)]))"

text \<open>\<open>attrs.GetString\<close> takes the first attribute with the key.\<close>

definition attrs_of :: "key_value list \<Rightarrow> attrs" where
  "attrs_of kvs k = map_option attr_as_string (map_of kvs k)"

definition attributeWithLabelsFromResources :: "trace_env \<Rightarrow> spanSnapshot \<Rightarrow> key_value list" where
  "attributeWithLabelsFromResources env sd =
     (if sn_resource sd = [] then sn_attrs sd
      else
        let (acc, unique) = resource_loop (sn_resource sd) (fst ` set (sn_attrs sd)) (sn_attrs sd);
            acc = (if ''otel.scope.name'' \<notin> unique then acc @ [(''otel.scope.name'', AString (sn_scope_name sd))] else acc);
            acc = (if ''otel.scope.version'' \<notin> unique \<and> sn_scope_version sd \<noteq> []
              then acc @ [(''otel.scope.version'', AString (sn_scope_version sd))] else acc);
            mr = ResourceAttributesToMonitoringMonitoredResource (attrs_of (sn_resource sd))
        in acc @ List.map (\<lambda>k. (''g.co/r/'' @ mr_type mr @ ''/'' @ k,
             AString (case mr_labels mr k of Some v \<Rightarrow> v | None \<Rightarrow> []))) (tv_order env (mr_labels mr)))"

definition linksProtoFromLinks :: "trace_env \<Rightarrow> trace_config \<Rightarrow> span_link list \<Rightarrow> trace_links option" where
  "linksProtoFromLinks env cfg links =
     (if links = [] then None
      else Some \<lparr>tk_links = List.map (\<lambda>l. \<lparr>tl_trace_id = hex_encode (sc_trace_id (ln_context l)),
             tl_span_id = hex_encode (sc_span_id (ln_context l)),
             tl_attributes = copyAttributes env cfg None (ln_attrs l)\<rparr>) (take maxNumLinks links),
           tk_dropped = clip32 (int (length links) - int (min (length links) maxNumLinks))\<rparr>)"

fun convertSpanKind :: "span_kind \<Rightarrow> trace_kind" where
  "convertSpanKind KServer = TK_SERVER"
| "convertSpanKind KClient = TK_CLIENT"
| "convertSpanKind KProducer = TK_PRODUCER"
| "convertSpanKind KConsumer = TK_CONSUMER"
| "convertSpanKind KUnspecified = TK_INTERNAL"
| "convertSpanKind KInternal = TK_INTERNAL"
| "convertSpanKind KOther = TK_INTERNAL"

text \<open>Codes of \<open>google.rpc.Code\<close>: \<open>OK\<close> is 0 and \<open>UNKNOWN\<close> is 2.\<close>

definition status_proto :: "status_code \<times> string \<Rightarrow> trace_status option" where
  "status_proto st = (case fst st of
     COk \<Rightarrow> Some \<lparr>tt_code = 0, tt_message = []\<rparr>
   | CUnset \<Rightarrow> None
   | CError \<Rightarrow> Some \<lparr>tt_code = 2, tt_message = trace_sanitizeUTF8 (snd st)\<rparr>
   | COther \<Rightarrow> Some \<lparr>tt_code = 2, tt_message = []\<rparr>)"

definition time_events_of :: "trace_env \<Rightarrow> trace_config \<Rightarrow> span_event list \<Rightarrow> time_events option" where
  "time_events_of env cfg es =
     (if es = [] then None
      else Some \<lparr>ts_events = List.map (\<lambda>e. \<lparr>te_time = timestamp_new (ev_time e),
             te_description = trunc (trace_sanitizeUTF8 (ev_name e)) maxAnnotationDescriptionLength,
             te_attributes = copyAttributes env cfg None (ev_attrs e)\<rparr>) (take maxAnnotationEventsPerSpan es),
           ts_dropped = clip32 (int (length es - maxAnnotationEventsPerSpan))\<rparr>)"

definition span_project :: "trace_config \<Rightarrow> spanSnapshot \<Rightarrow> string" where
  "span_project cfg s = (case map_of (sn_resource s) ''gcp.project.id'' of
     Some v \<Rightarrow> attr_as_string v | None \<Rightarrow> tg_project cfg)"

definition with_agent :: "trace_env \<Rightarrow> span_attributes \<Rightarrow> span_attributes" where
  "with_agent env a = (if sa_map a agentLabel = None
     then a\<lparr>sa_map := (sa_map a)(agentLabel \<mapsto> TString (trunc (tv_agent env) maxAttributeStringValue))\<rparr> else a)"

definition protoFromReadOnlySpan :: "trace_env \<Rightarrow> trace_config \<Rightarrow> spanSnapshot \<Rightarrow> trace_span \<times> string" where
  "protoFromReadOnlySpan env cfg s =
     (let traceID = hex_encode (sc_trace_id (sn_context s)); spanID = hex_encode (sc_span_id (sn_context s));
          projectID = span_project cfg s; parent = sc_span_id (sn_parent s)
      in (\<lparr>sp_name = ''projects/'' @ projectID @ ''/traces/'' @ traceID @ ''/spans/'' @ spanID,
        sp_span_id = spanID,
        sp_parent_id = (if parent \<noteq> sc_span_id (sn_context s) \<and> (\<exists>c \<in> set parent. byte c \<noteq> 0)
          then hex_encode parent else []),
        sp_display_name = trunc (trace_sanitizeUTF8 (sn_name s)) maxDisplayNameLength,
        sp_start_time = timestamp_new (sn_start s),
        sp_end_time = timestamp_new (sn_end s),
        sp_same_process = (\<not> sc_remote (sn_parent s)),
        sp_kind = convertSpanKind (sn_kind s),
        sp_status = status_proto (sn_status s),
        sp_attributes = with_agent env
          (case copyAttributes env cfg None (attributeWithLabelsFromResources env s) of
             Some a \<Rightarrow> a | None \<Rightarrow> \<lparr>sa_map = Map.empty, sa_dropped = 0\<rparr>),
        sp_time_events = time_events_of env cfg (sn_events s),
        sp_links = linksProtoFromLinks env cfg (sn_links s)\<rparr>, projectID))"

subsection \<open>Sending\<close>

record write_request =
  wr_name :: string
  wr_spans :: "trace_span list"

text \<open>The trace client: quota project, timeout, request and its own state to an error message.\<close>

type_synonym 'c trace_client = "string option \<Rightarrow> int \<Rightarrow> write_request \<Rightarrow> 'c \<Rightarrow> string option \<times> 'c"

text \<open>The client's state and the errors the error handler was given.\<close>

record 'c tracer =
  tx_client :: 'c
  tx_handled :: "string list"

definition trace_defaultTimeout :: int where
  "trace_defaultTimeout = 12 * 10 ^ 9"

definition call_timeout :: "int \<Rightarrow> int" where
  "call_timeout t = (if t \<le> 0 then trace_defaultTimeout else t)"

definition uploadSpans :: "trace_config \<Rightarrow> 'c trace_client \<Rightarrow> write_request \<Rightarrow> 'c tracer \<Rightarrow> string option \<times> 'c tracer" where
  "uploadSpans cfg cl req st =
     (let quota = (if tg_quota cfg then Some (trim_prefix (wr_name req) ''projects/'') else None);
          (e, c) = cl quota (call_timeout (tg_timeout cfg)) req (tx_client st)
      in (e, st\<lparr>tx_client := c, tx_handled := tx_handled st @
           (case e of None \<Rightarrow> [] | Some m \<Rightarrow> [''failed to export to Google Cloud Trace: '' @ m])\<rparr>))"

type_synonym span_groups = "string \<rightharpoonup> trace_span list"

definition add_span :: "trace_env \<Rightarrow> trace_config \<Rightarrow> spanSnapshot \<Rightarrow> span_groups \<Rightarrow> span_groups" where
  "add_span env cfg sd g = (let (span, project) = protoFromReadOnlySpan env cfg sd in
     g(project \<mapsto> (case g project of Some ss \<Rightarrow> ss | None \<Rightarrow> []) @ [span]))"

fun upload_all :: "trace_config \<Rightarrow> 'c trace_client \<Rightarrow> span_groups \<Rightarrow> string list \<Rightarrow> 'c tracer \<Rightarrow> string option list \<times> 'c tracer" where
  "upload_all cfg cl g [] st = ([], st)"
| "upload_all cfg cl g (p # ps) st =
     (let req = \<lparr>wr_name = ''projects/'' @ p, wr_spans = (case g p of Some ss \<Rightarrow> ss | None \<Rightarrow> [])\<rparr>;
          (e, st) = uploadSpans cfg cl req st;
          (es, st) = upload_all cfg cl g ps st
      in (e # es, st))"

text \<open>\<open>errors.Join\<close> drops the nil errors and is nil when none is left.\<close>

definition join_errors :: "string option list \<Rightarrow> string list option" where
  "join_errors es = (let ms = List.map_filter id es in if ms = [] then None else Some ms)"

text \<open>\<open>order\<close> is the order in which the map of the results is ranged over.\<close>

definition ExportSpans :: "trace_env \<Rightarrow> trace_config \<Rightarrow> 'c trace_client \<Rightarrow> (span_groups \<Rightarrow> string list) \<Rightarrow>
    spanSnapshot list \<Rightarrow> 'c tracer \<Rightarrow> string list option \<times> 'c tracer" where
  "ExportSpans env cfg cl order sds st =
     (let g = fold (add_span env cfg) sds Map.empty;
          (es, st) = upload_all cfg cl g (order g) st
      in (join_errors es, st))"

definition ConvertSpan :: "trace_env \<Rightarrow> trace_config \<Rightarrow> spanSnapshot \<Rightarrow> trace_span" where
  "ConvertSpan env cfg sd = fst (protoFromReadOnlySpan env cfg sd)"

text \<open>
  \<open>newExporterWithOptions\<close>: \<open>creds\<close> is the outcome of looking up the default credentials, \<open>made\<close> the
  error of creating the client.
\<close>

definition newExporterWithOptions :: "string + string \<Rightarrow> string option \<Rightarrow> trace_config \<Rightarrow> string + trace_config" where
  "newExporterWithOptions creds made o1 =
     (case (if tg_project o1 = []
        then (case creds of Inl e \<Rightarrow> Inl (''stackdriver: '' @ e)
          | Inr p \<Rightarrow> if p = [] then Inl ''stackdriver: no project found with application default credentials''
              else Inr (o1\<lparr>tg_project := p\<rparr>))
        else Inr o1) of
       Inl e \<Rightarrow> Inl e
     | Inr o2 \<Rightarrow> (case made of
         Some e \<Rightarrow> Inl (''stackdriver: couldn't initiate trace client: '' @ e)
       | None \<Rightarrow> Inr o2))"

text \<open>The options of the package and \<open>New\<close>, which applies them in their order to the defaults.\<close>

definition trace_WithProjectID :: "string \<Rightarrow> trace_config \<Rightarrow> trace_config" where
  "trace_WithProjectID projectID o1 = o1\<lparr>tg_project := projectID\<rparr>"

definition trace_WithDestinationProjectQuota :: "trace_config \<Rightarrow> trace_config" where
  "trace_WithDestinationProjectQuota o1 = o1\<lparr>tg_quota := True\<rparr>"

definition WithTimeout :: "int \<Rightarrow> trace_config \<Rightarrow> trace_config" where
  "WithTimeout t o1 = o1\<lparr>tg_timeout := t\<rparr>"

definition WithAttributeMapping :: "(string \<Rightarrow> string) \<Rightarrow> trace_config \<Rightarrow> trace_config" where
  "WithAttributeMapping mapping o1 = o1\<lparr>tg_map := mapping\<rparr>"

definition trace_default_options :: trace_config where
  "trace_default_options = \<lparr>tg_project = [], tg_map = defaultAttributeMapping, tg_quota = False, tg_timeout = 0\<rparr>"

definition applied_options :: "(trace_config \<Rightarrow> trace_config) list \<Rightarrow> trace_config" where
  "applied_options opts = fold (\<lambda>opt o1. opt o1) opts trace_default_options"

definition trace_New :: "string + string \<Rightarrow> string option \<Rightarrow> (trace_config \<Rightarrow> trace_config) list \<Rightarrow> string + trace_config" where
  "trace_New creds made opts = newExporterWithOptions creds made (applied_options opts)"

text \<open>The options that \<open>Start\<close> of the collector's exporter makes from its configuration.\<close>

definition start_options :: "string \<Rightarrow> int \<Rightarrow> bool \<Rightarrow> (string \<times> string) list option \<Rightarrow> (trace_config \<Rightarrow> trace_config) list" where
  "start_options project timeout quota mappings =
     [trace_WithProjectID project, WithTimeout timeout] @
     (if quota then [trace_WithDestinationProjectQuota] else []) @
     (case mappings of Some akm \<Rightarrow> [WithAttributeMapping (mappingFuncFromAKM akm)] | None \<Rightarrow> [])"

definition start_config :: "string \<Rightarrow> int \<Rightarrow> bool \<Rightarrow> (string \<times> string) list option \<Rightarrow> trace_config" where
  "start_config project timeout quota mappings =
     \<lparr>tg_project = project,
      tg_map = (case mappings of Some akm \<Rightarrow> mappingFuncFromAKM akm | None \<Rightarrow> defaultAttributeMapping),
      tg_quota = quota, tg_timeout = timeout\<rparr>"

lemma applied_start_options: "applied_options (start_options project timeout quota mappings) = start_config project timeout quota mappings"
  by (simp add: applied_options_def start_options_def start_config_def trace_default_options_def trace_WithProjectID_def WithTimeout_def
      trace_WithDestinationProjectQuota_def WithAttributeMapping_def split: option.split)

definition PushTraces :: "trace_env \<Rightarrow> trace_config option \<Rightarrow> 'c trace_client \<Rightarrow> (span_groups \<Rightarrow> string list) \<Rightarrow>
    resource_spans list \<Rightarrow> 'c tracer \<Rightarrow> string list option \<times> 'c tracer" where
  "PushTraces env texporter cl order td st = (case texporter of
     None \<Rightarrow> (Some [''not started''], st)
   | Some cfg \<Rightarrow> ExportSpans env cfg cl order (concat (List.map (pdataResourceSpansToOTSpanData env) td)) st)"

subsection \<open>Limits on strings\<close>

lemma trunc_cases:
  assumes "valid_utf8 s"
  obtains t where "s = tr_value (trunc s limit) @ t" "valid_utf8 (tr_value (trunc s limit))"
    "length (tr_value (trunc s limit)) \<le> limit" "length s \<le> limit \<longleftrightarrow> t = []"
    "t = [] \<or> limit < length (tr_value (trunc s limit)) + 4"
    "tr_truncated (trunc s limit) = min (2 ^ 31 - 1) (int (length t))"
proof (cases "limit < length s")
  case True
  obtain p t where p: "drop_broken (take limit s) = p" "s = p @ t" "valid_utf8 p" "length p \<le> limit"
    "limit < length p + 4 \<or> t = []" using drop_broken_take [OF assms] .
  have "trunc s limit = \<lparr>tr_value = p, tr_truncated = clip32 (int (length s) - int (length p))\<rparr>"
    using True by (simp add: trunc_def p(1))
  moreover have "length s = length p + length t" using p(2) by simp
  moreover have "t \<noteq> []" using p(2,4) True by auto
  ultimately show thesis by (intro that [of t]) (use p True in \<open>auto simp: clip32_def\<close>)
next
  case False
  then show thesis by (intro that [of "[]"]) (use assms in \<open>auto simp: trunc_def\<close>)
qed

text \<open>Truncation of a valid UTF-8 string keeps a valid prefix of at most the limit, which falls short of it by
at most three bytes when anything is cut, and reports the number of bytes cut, clipped to 32 bits.\<close>

theorem trunc_keeps_valid_prefix:
  assumes "valid_utf8 s"
  shows "\<exists>t. s = tr_value (trunc s limit) @ t \<and> valid_utf8 (tr_value (trunc s limit)) \<and>
    length (tr_value (trunc s limit)) \<le> limit \<and> (length s \<le> limit \<longleftrightarrow> t = []) \<and>
    (t = [] \<or> limit < length (tr_value (trunc s limit)) + 4) \<and>
    tr_truncated (trunc s limit) = min (2 ^ 31 - 1) (int (length t))"
  using trunc_cases [OF assms] by metis

lemma trunc_keeps_valid_prefix_witness:
  "\<exists>t. ''a'' @ [chr 195, chr 169] = tr_value (trunc (''a'' @ [chr 195, chr 169]) 2) @ t \<and>
    length (tr_value (trunc (''a'' @ [chr 195, chr 169]) 2)) \<le> 2"
proof -
  have "valid_utf8 (''a'' @ [chr 195, chr 169])" by code_simp
  from trunc_keeps_valid_prefix [OF this, of 2] show ?thesis by blast
qed

definition good_text :: "nat \<Rightarrow> truncatable \<Rightarrow> bool" where
  "good_text limit t \<longleftrightarrow> valid_utf8 (tr_value t) \<and> length (tr_value t) \<le> limit"

lemma good_trunc: "valid_utf8 s \<Longrightarrow> good_text limit (trunc s limit)"
  by (rule trunc_cases [of s limit]) (simp_all add: good_text_def)

lemma sanitized_valid: "valid_utf8 (trace_sanitizeUTF8 s)"
  unfolding trace_sanitizeUTF8_def by (rule to_valid_utf8_valid) code_simp

definition good_trace_value :: "trace_value \<Rightarrow> bool" where
  "good_trace_value v \<longleftrightarrow> (case v of TString t \<Rightarrow> good_text maxAttributeStringValue t | _ \<Rightarrow> True)"

definition good_attributes :: "span_attributes \<Rightarrow> bool" where
  "good_attributes a \<longleftrightarrow> (\<forall>k v. sa_map a k = Some v \<longrightarrow> length k \<le> maxAttributeKeyLength \<and> good_trace_value v)"

lemma good_attributeValue:
  assumes "\<And>d. valid_utf8 (tv_format_float env d)" "attributeValue env v = Some av"
  shows "good_trace_value av"
  using assms(2) by (auto simp: attributeValue_def good_trace_value_def assms(1) good_trunc sanitized_valid split: attr_value.splits)

lemma good_copy_loop:
  assumes "\<And>d. valid_utf8 (tv_format_float env d)" "good_attributes out"
  shows "good_attributes (copy_loop env cfg kvs out)"
  using assms(2)
proof (induction kvs arbitrary: out)
  case (Cons kv kvs)
  obtain k v where kv: "kv = (k, v)" by (cases kv)
  show ?case
  proof (cases "attributeValue env v")
    case None
    then show ?thesis using Cons by (simp add: kv)
  next
    case (Some av)
    then have av: "good_trace_value av" using good_attributeValue [OF assms(1)] by blast
    show ?thesis
    proof (cases "maxAttributeKeyLength < length (tg_map cfg k)")
      case True
      have "good_attributes (out\<lparr>sa_dropped := sa_dropped out + 1\<rparr>)" using Cons.prems by (simp add: good_attributes_def)
      from Cons.IH [OF this] show ?thesis by (simp add: kv Some True)
    next
      case False
      then have "good_attributes (out\<lparr>sa_map := (sa_map out)(tg_map cfg k \<mapsto> av)\<rparr>)"
        using Cons.prems av by (simp add: good_attributes_def)
      from Cons.IH [OF this] show ?thesis by (simp add: kv Some False)
    qed
  qed
qed simp

lemma good_copyAttributes:
  assumes "\<And>d. valid_utf8 (tv_format_float env d)"
  shows "case copyAttributes env cfg None kvs of None \<Rightarrow> True | Some a \<Rightarrow> good_attributes a"
proof -
  have "good_attributes \<lparr>sa_map = Map.empty, sa_dropped = 0\<rparr>" by (simp add: good_attributes_def)
  from good_copy_loop [OF assms this] show ?thesis by (simp add: copyAttributes_def)
qed

definition good_optional :: "span_attributes option \<Rightarrow> bool" where
  "good_optional a \<longleftrightarrow> (case a of None \<Rightarrow> True | Some a \<Rightarrow> good_attributes a)"

lemma good_with_agent:
  assumes "valid_utf8 (tv_agent env)" "good_attributes a"
  shows "good_attributes (with_agent env a)"
proof -
  have "length agentLabel \<le> maxAttributeKeyLength" by (simp add: agentLabel_def maxAttributeKeyLength_def)
  then show ?thesis using assms good_trunc [OF assms(1), of maxAttributeStringValue]
    by (simp add: with_agent_def good_attributes_def good_trace_value_def)
qed

definition good_events :: "span_event list \<Rightarrow> time_events option \<Rightarrow> bool" where
  "good_events es te \<longleftrightarrow> (case te of
     None \<Rightarrow> es = []
   | Some te \<Rightarrow> list_all (\<lambda>e. good_text maxAnnotationDescriptionLength (te_description e) \<and> good_optional (te_attributes e)) (ts_events te) \<and>
       length (ts_events te) = min (length es) maxAnnotationEventsPerSpan \<and>
       ts_dropped te = min (2 ^ 31 - 1) (int (length es) - int (length (ts_events te))))"

definition good_links :: "span_link list \<Rightarrow> trace_links option \<Rightarrow> bool" where
  "good_links ls kept \<longleftrightarrow> (case kept of
     None \<Rightarrow> ls = []
   | Some kept \<Rightarrow> list_all (\<lambda>l. good_optional (tl_attributes l)) (tk_links kept) \<and>
       length (tk_links kept) = min (length ls) maxNumLinks \<and>
       tk_dropped kept = min (2 ^ 31 - 1) (int (length ls) - int (length (tk_links kept))))"

lemma good_time_events_of:
  assumes "\<And>d. valid_utf8 (tv_format_float env d)"
  shows "good_events es (time_events_of env cfg es)"
proof (cases "es = []")
  case False
  have "int (length es - maxAnnotationEventsPerSpan) = int (length es) - int (min (length es) maxAnnotationEventsPerSpan)"
    by linarith
  then show ?thesis using False good_copyAttributes [OF assms]
    by (simp add: good_events_def good_optional_def time_events_of_def list_all_iff good_trunc sanitized_valid clip32_def)
qed (simp add: good_events_def time_events_of_def)

lemma good_linksProtoFromLinks:
  assumes "\<And>d. valid_utf8 (tv_format_float env d)"
  shows "good_links ls (linksProtoFromLinks env cfg ls)"
  using good_copyAttributes [OF assms]
  by (cases "ls = []") (auto simp: good_links_def good_optional_def linksProtoFromLinks_def list_all_iff clip32_def min_def)

text \<open>C27. Every exported span is within the limits of Cloud Trace: display name and event descriptions are valid
UTF-8 of at most 1024 bytes, attribute keys have at most 512 bytes, string values are valid UTF-8 of at
most 65536 bytes, at most 256 events and 128 links are kept, and kept and dropped ones add up.\<close>

theorem exported_spans_are_within_limits:
  assumes "\<And>d. valid_utf8 (tv_format_float env d)" "valid_utf8 (tv_agent env)"
  shows "good_text maxDisplayNameLength (sp_display_name (fst (protoFromReadOnlySpan env cfg s))) \<and>
    good_attributes (sp_attributes (fst (protoFromReadOnlySpan env cfg s))) \<and>
    good_events (sn_events s) (sp_time_events (fst (protoFromReadOnlySpan env cfg s))) \<and>
    good_links (sn_links s) (sp_links (fst (protoFromReadOnlySpan env cfg s)))"
proof (intro conjI)
  let ?a = "copyAttributes env cfg None (attributeWithLabelsFromResources env s)"
  have "good_attributes (case ?a of Some a \<Rightarrow> a | None \<Rightarrow> \<lparr>sa_map = Map.empty, sa_dropped = 0\<rparr>)"
    using good_copyAttributes [OF assms(1), of cfg "attributeWithLabelsFromResources env s"]
    by (cases ?a) (simp_all add: good_attributes_def)
  from good_with_agent [OF assms(2) this]
  show "good_attributes (sp_attributes (fst (protoFromReadOnlySpan env cfg s)))"
    by (simp only: protoFromReadOnlySpan_def Let_def fst_conv trace_span.select_convs)
qed (simp_all only: protoFromReadOnlySpan_def Let_def fst_conv trace_span.select_convs
  good_trunc sanitized_valid good_time_events_of [OF assms(1)] good_linksProtoFromLinks [OF assms(1)])

definition example_trace_env :: trace_env where
  "example_trace_env = \<lparr>tv_as_string = val_str, tv_resource = id, tv_format_float = (\<lambda>d. ''1.5''),
     tv_order = (\<lambda>m. filter (\<lambda>k. m k \<noteq> None) [''location'', ''namespace'', ''node_id'']), tv_agent = ''opentelemetry-go''\<rparr>"

definition example_trace_config :: trace_config where
  "example_trace_config = start_config ''p'' 0 True None"

definition example_pdata_span :: pdata_span where
  "example_pdata_span =
     \<lparr>pn_trace_id = replicate 16 (chr 1), pn_span_id = replicate 8 (chr 2), pn_parent_id = replicate 8 (chr 0),
      pn_kind = PKServer, pn_start = 5, pn_end = 7, pn_name = ''GET'',
      pn_attrs = [(''http.path'', VStr ''/a''), (''http.path'', VStr ''/b'')], pn_links = [], pn_events = [],
      pn_dropped_attributes = 0, pn_dropped_events = 3, pn_dropped_links = 0, pn_status = (PSOk, [])\<rparr>"

definition example_scope :: scope where
  "example_scope = \<lparr>scope_name = ''s'', scope_version = [], scope_attrs = []\<rparr>"

definition example_span :: spanSnapshot where
  "example_span = pdataSpanToOTSpanData example_trace_env example_pdata_span
     [(''gcp.project.id'', VStr ''q'')] example_scope"

lemma exported_spans_are_within_limits_witness:
  "good_text maxDisplayNameLength (sp_display_name (fst (protoFromReadOnlySpan example_trace_env example_trace_config example_span))) \<and>
   good_attributes (sp_attributes (fst (protoFromReadOnlySpan example_trace_env example_trace_config example_span)))"
proof -
  have "valid_utf8 (tv_format_float example_trace_env d)" for d
    unfolding example_trace_env_def trace_env.select_convs by code_simp
  moreover have "valid_utf8 (tv_agent example_trace_env)" by code_simp
  ultimately show ?thesis
    using exported_spans_are_within_limits [of example_trace_env example_trace_config example_span] by blast
qed

subsection \<open>Which value of an attribute is exported\<close>

definition copied :: "trace_env \<Rightarrow> trace_config \<Rightarrow> key_value list \<Rightarrow> (string \<times> trace_value) list" where
  "copied env cfg kvs = List.map_filter (\<lambda>(k, v). case attributeValue env v of
     None \<Rightarrow> None
   | Some av \<Rightarrow> if maxAttributeKeyLength < length (tg_map cfg k) then None else Some (tg_map cfg k, av)) kvs"

lemma copied_simps [simp]:
  "copied env cfg [] = []"
  "copied env cfg ((k, v) # kvs) = (case attributeValue env v of
     None \<Rightarrow> copied env cfg kvs
   | Some av \<Rightarrow> if maxAttributeKeyLength < length (tg_map cfg k) then copied env cfg kvs
       else (tg_map cfg k, av) # copied env cfg kvs)"
  by (simp_all add: copied_def List.map_filter_def split: option.split)

lemma copied_append [simp]: "copied env cfg (xs @ ys) = copied env cfg xs @ copied env cfg ys"
  by (simp add: copied_def List.map_filter_def)

lemma copied_keys: "fst ` set (copied env cfg kvs) \<subseteq> tg_map cfg ` fst ` set kvs"
  by (force simp: copied_def List.map_filter_def split: option.splits if_splits)

lemma copy_loop_map: "sa_map (copy_loop env cfg kvs out) = put_all (sa_map out) (copied env cfg kvs)"
  by (induction env cfg kvs out rule: copy_loop.induct) (simp_all add: Let_def fun_upd_def split: option.split)

lemma resource_loop_extends:
  "\<exists>new u. resource_loop kvs unique acc = (acc @ new, unique \<union> u) \<and> fst ` set new \<inter> unique = {}"
proof (induction kvs unique acc rule: resource_loop.induct)
  case (2 k v kvs unique acc)
  then show ?case
  proof (cases "k \<in> unique")
    case False
    obtain new u where IH: "resource_loop kvs (insert k unique) (acc @ [(k, v)]) = ((acc @ [(k, v)]) @ new, insert k unique \<union> u)"
      "fst ` set new \<inter> insert k unique = {}" using 2(2) [OF False] by blast
    then show ?thesis using False
      by (intro exI [of _ "(k, v) # new"] exI [of _ "insert k u"]) auto
  qed simp
qed (auto intro: exI [of _ "[]"])

lemma disjointD: "x \<in> A \<Longrightarrow> A \<inter> B = {} \<Longrightarrow> x \<notin> B"
  by blast

lemma added_once: "k \<in> fst ` set (if a \<notin> U \<union> u then [(a, x)] else []) \<Longrightarrow> k \<notin> U"
  "k \<in> fst ` set (if a \<notin> U \<union> u \<and> P then [(a, x)] else []) \<Longrightarrow> k \<notin> U"
  by (auto split: if_splits)

text \<open>What is added to the attributes of a span has other keys than they, unless it is a monitored resource label.\<close>

lemma labels_added:
  obtains new where "attributeWithLabelsFromResources env sd = sn_attrs sd @ new"
    "\<And>k. k \<in> fst ` set new \<Longrightarrow> k \<notin> fst ` set (sn_attrs sd) \<or> has_prefix k ''g.co/r/''"
proof (cases "sn_resource sd = []")
  case False
  let ?unique = "fst ` set (sn_attrs sd)"
  obtain new u where loop: "resource_loop (sn_resource sd) ?unique (sn_attrs sd) = (sn_attrs sd @ new, ?unique \<union> u)"
    "fst ` set new \<inter> ?unique = {}" using resource_loop_extends by blast
  let ?mr = "ResourceAttributesToMonitoringMonitoredResource (attrs_of (sn_resource sd))"
  let ?name = "if ''otel.scope.name'' \<notin> ?unique \<union> u then [(''otel.scope.name'', AString (sn_scope_name sd))] else []"
  let ?version = "if ''otel.scope.version'' \<notin> ?unique \<union> u \<and> sn_scope_version sd \<noteq> []
    then [(''otel.scope.version'', AString (sn_scope_version sd))] else []"
  let ?labels = "List.map (\<lambda>k. (''g.co/r/'' @ mr_type ?mr @ ''/'' @ k,
    AString (case mr_labels ?mr k of Some v \<Rightarrow> v | None \<Rightarrow> []))) (tv_order env (mr_labels ?mr))"
  have whole: "attributeWithLabelsFromResources env sd = sn_attrs sd @ new @ ?name @ ?version @ ?labels"
    using False by (simp add: attributeWithLabelsFromResources_def loop(1) Let_def)
  have name: "k \<notin> ?unique" if "k \<in> fst ` set ?name" for k by (rule added_once(1) [OF that])
  have version: "k \<notin> ?unique" if "k \<in> fst ` set ?version" for k by (rule added_once(2) [OF that])
  have label: "has_prefix k ''g.co/r/''" if "k \<in> fst ` set ?labels" for k
  proof -
    have "k \<in> (\<lambda>l. ''g.co/r/'' @ mr_type ?mr @ ''/'' @ l) ` set (tv_order env (mr_labels ?mr))"
      using that by (simp only: set_map image_image fst_conv)
    then obtain l where "k = ''g.co/r/'' @ mr_type ?mr @ ''/'' @ l" by (rule imageE)
    then show ?thesis by (simp add: has_prefix_def)
  qed
  show thesis
  proof (rule that [OF whole])
    fix k assume "k \<in> fst ` set (new @ ?name @ ?version @ ?labels)"
    then have "k \<in> fst ` set new \<or> k \<in> fst ` set ?name \<or> k \<in> fst ` set ?version \<or> k \<in> fst ` set ?labels"
      by (simp only: set_append image_Un Un_iff)
    then show "k \<notin> ?unique \<or> has_prefix k ''g.co/r/''"
    proof (elim disjE)
      assume "k \<in> fst ` set new"
      then show ?thesis using loop(2) by (intro disjI1) (rule disjointD)
    next
      assume "k \<in> fst ` set ?name"
      then show ?thesis by (intro disjI1) (rule name)
    next
      assume "k \<in> fst ` set ?version"
      then show ?thesis by (intro disjI1) (rule version)
    next
      assume "k \<in> fst ` set ?labels"
      then show ?thesis by (intro disjI2) (rule label)
    qed
  qed
qed (simp add: that [of "[]"] attributeWithLabelsFromResources_def)

lemma last_copied:
  assumes "k \<notin> fst ` set ys" "attributeValue env v = Some av" "length (tg_map cfg k) \<le> maxAttributeKeyLength"
    and "\<And>k'. k' \<in> fst ` set ys \<Longrightarrow> tg_map cfg k' = tg_map cfg k \<Longrightarrow> k' = k"
  shows "put_all m (copied env cfg (xs @ (k, v) # ys)) (tg_map cfg k) = Some av"
proof -
  have "tg_map cfg k \<notin> tg_map cfg ` fst ` set ys"
  proof
    assume "tg_map cfg k \<in> tg_map cfg ` fst ` set ys"
    then obtain k' where k': "tg_map cfg k = tg_map cfg k'" "k' \<in> fst ` set ys" by (rule imageE)
    from assms(4) [OF k'(2) k'(1) [symmetric]] k'(2) assms(1) show False by (simp only:)
  qed
  then have fresh: "tg_map cfg k \<notin> fst ` set (copied env cfg ys)"
    by (rule contra_subsetD [OF copied_keys])
  have "copied env cfg (xs @ (k, v) # ys) = copied env cfg xs @ (tg_map cfg k, av) # copied env cfg ys"
    using assms(2,3) by simp
  then show ?thesis by (simp only: put_all_append put_all.simps put_all_notin [OF fresh] fun_upd_same)
qed

lemma with_agent_keeps: "sa_map a k = Some av \<Longrightarrow> sa_map (with_agent env a) k = Some av"
  by (auto simp: with_agent_def)

text \<open>When a key occurs more than once among the attributes of a span, the value of its last occurrence is
exported, and no resource attribute or scope label overrides it.\<close>

theorem last_span_attribute_is_exported:
  assumes "sn_attrs s = xs @ (k, v) # ys" "k \<notin> fst ` set ys"
    and "attributeValue env v = Some av" "length (tg_map cfg k) \<le> maxAttributeKeyLength"
    and "\<And>k'. k' \<in> fst ` set (attributeWithLabelsFromResources env s) \<Longrightarrow> tg_map cfg k' = tg_map cfg k \<Longrightarrow> k' = k"
    and "\<not> has_prefix k ''g.co/r/''"
  shows "sa_map (sp_attributes (fst (protoFromReadOnlySpan env cfg s))) (tg_map cfg k) = Some av"
proof -
  obtain new where new: "attributeWithLabelsFromResources env s = sn_attrs s @ new"
    "\<And>k. k \<in> fst ` set new \<Longrightarrow> k \<notin> fst ` set (sn_attrs s) \<or> has_prefix k ''g.co/r/''"
    using labels_added by blast
  have all: "attributeWithLabelsFromResources env s = xs @ (k, v) # ys @ new" using new(1) assms(1) by simp
  have "k \<in> fst ` set (sn_attrs s)" by (simp add: assms(1))
  then have "k \<notin> fst ` set new" using assms(6) new(2) by blast
  then have fresh: "k \<notin> fst ` set (ys @ new)" using assms(2) by (simp add: image_Un)
  have "put_all Map.empty (copied env cfg (xs @ (k, v) # ys @ new)) (tg_map cfg k) = Some av"
  proof (rule last_copied [OF fresh assms(3,4)])
    show "k' = k" if "k' \<in> fst ` set (ys @ new)" "tg_map cfg k' = tg_map cfg k" for k'
    proof (rule assms(5) [OF _ that(2)])
      show "k' \<in> fst ` set (attributeWithLabelsFromResources env s)"
        using that(1) by (simp add: all image_Un) 
    qed
  qed
  then have "put_all Map.empty (copied env cfg (attributeWithLabelsFromResources env s)) (tg_map cfg k) = Some av"
    by (simp only: all)
  moreover have "attributeWithLabelsFromResources env s \<noteq> []" by (simp add: all)
  ultimately have "sa_map (case copyAttributes env cfg None (attributeWithLabelsFromResources env s) of
      Some a \<Rightarrow> a | None \<Rightarrow> \<lparr>sa_map = Map.empty, sa_dropped = 0\<rparr>) (tg_map cfg k) = Some av"
    by (simp add: copyAttributes_def copy_loop_map)
  from with_agent_keeps [OF this]
  show ?thesis by (simp only: protoFromReadOnlySpan_def Let_def fst_conv trace_span.select_convs)
qed

lemma last_span_attribute_is_exported_witness:
  "sa_map (sp_attributes (fst (protoFromReadOnlySpan example_trace_env example_trace_config example_span)))
     ''/http/path'' = Some (TString (trunc ''/b'' maxAttributeStringValue))"
proof -
  have attrs: "sn_attrs example_span =
      [(''gcp.project.id'', AString ''q''), (''http.path'', AString ''/a'')] @ (''http.path'', AString ''/b'') # []"
    by code_simp
  have keys: "List.map fst (attributeWithLabelsFromResources example_trace_env example_span) =
    [''gcp.project.id'', ''http.path'', ''http.path'', ''otel.scope.name'',
     ''g.co/r/generic_node/location'', ''g.co/r/generic_node/namespace'', ''g.co/r/generic_node/node_id'']"
    by code_simp
  have to: "tg_map example_trace_config ''http.path'' = ''/http/path''" by code_simp
  have "list_all (\<lambda>k. tg_map example_trace_config k = ''/http/path'' \<longrightarrow> k = ''http.path'')
    (List.map fst (attributeWithLabelsFromResources example_trace_env example_span))"
    unfolding keys by code_simp
  then have unique: "k' = ''http.path''"
    if "k' \<in> fst ` set (attributeWithLabelsFromResources example_trace_env example_span)"
      "tg_map example_trace_config k' = tg_map example_trace_config ''http.path''" for k'
    using that unfolding list_all_iff set_map to by blast
  have none: "''http.path'' \<notin> fst ` set ([] :: key_value list)" by (simp only: list.set image_empty empty_iff not_False_eq_True)
  have av: "attributeValue example_trace_env (AString ''/b'') = Some (TString (trunc ''/b'' maxAttributeStringValue))"
    by code_simp
  have len: "length (tg_map example_trace_config ''http.path'') \<le> maxAttributeKeyLength" by code_simp
  have pre: "\<not> has_prefix ''http.path'' ''g.co/r/''" by code_simp
  from last_span_attribute_is_exported [OF attrs none av len unique pre] show ?thesis by (simp only: to)
qed

subsection \<open>Exporting\<close>

definition recording_trace :: "'c trace_client \<Rightarrow> ('c \<times> (string option \<times> write_request) list) trace_client" where
  "recording_trace cl q t req c = (let (e, d) = cl q t req (fst c) in (e, d, snd c @ [(q, req)]))"

definition spans_of :: "trace_env \<Rightarrow> trace_config \<Rightarrow> spanSnapshot list \<Rightarrow> string \<Rightarrow> trace_span list" where
  "spans_of env cfg sds p = List.map (\<lambda>s. fst (protoFromReadOnlySpan env cfg s)) (filter (\<lambda>s. span_project cfg s = p) sds)"

definition trace_call :: "trace_config \<Rightarrow> string \<Rightarrow> trace_span list \<Rightarrow> string option \<times> write_request" where
  "trace_call cfg p ss = (if tg_quota cfg then Some p else None, \<lparr>wr_name = ''projects/'' @ p, wr_spans = ss\<rparr>)"

lemma span_project_snd [simp]: "snd (protoFromReadOnlySpan env cfg s) = span_project cfg s"
  by (simp only: protoFromReadOnlySpan_def Let_def snd_conv)

lemma add_span_apply:
  "add_span env cfg sd g = g(span_project cfg sd \<mapsto>
     (case g (span_project cfg sd) of Some ss \<Rightarrow> ss | None \<Rightarrow> []) @ [fst (protoFromReadOnlySpan env cfg sd)])"
  by (simp only: add_span_def Let_def case_prod_beta span_project_snd)

lemma span_groups_of:
  "(case fold (add_span env cfg) sds g p of Some ss \<Rightarrow> ss | None \<Rightarrow> []) =
     (case g p of Some ss \<Rightarrow> ss | None \<Rightarrow> []) @ spans_of env cfg sds p"
proof (induction sds arbitrary: g)
  case (Cons sd sds)
  have "(case fold (add_span env cfg) (sd # sds) g p of Some ss \<Rightarrow> ss | None \<Rightarrow> []) =
      (case add_span env cfg sd g p of Some ss \<Rightarrow> ss | None \<Rightarrow> []) @ spans_of env cfg sds p"
    by (simp only: fold_simps comp_apply Cons.IH)
  also have "\<dots> = (case g p of Some ss \<Rightarrow> ss | None \<Rightarrow> []) @ spans_of env cfg (sd # sds) p"
    by (auto simp: add_span_apply spans_of_def)
  finally show ?case .
qed (simp add: spans_of_def)

lemma span_groups_dom: "dom (fold (add_span env cfg) sds g) = dom g \<union> span_project cfg ` set sds"
proof (induction sds arbitrary: g)
  case (Cons sd sds)
  have "dom (fold (add_span env cfg) (sd # sds) g) = dom (add_span env cfg sd g) \<union> span_project cfg ` set sds"
    by (simp only: fold_simps comp_apply Cons.IH)
  also have "\<dots> = dom g \<union> span_project cfg ` set (sd # sds)" by (simp add: add_span_apply)
  finally show ?case .
qed simp

lemma upload_recorded:
  "snd (tx_client (snd (uploadSpans cfg (recording_trace cl) \<lparr>wr_name = ''projects/'' @ p, wr_spans = ss\<rparr> st))) =
     snd (tx_client st) @ [trace_call cfg p ss]"
  by (simp add: uploadSpans_def recording_trace_def trace_call_def trim_prefix_def has_prefix_def Let_def case_prod_beta)

lemma upload_all_recorded:
  "snd (tx_client (snd (upload_all cfg (recording_trace cl) g ps st))) =
     snd (tx_client st) @ List.map (\<lambda>p. trace_call cfg p (case g p of Some ss \<Rightarrow> ss | None \<Rightarrow> [])) ps"
  by (induction ps arbitrary: st) (simp_all add: Let_def case_prod_beta upload_recorded del: append.simps)

lemma upload_handles:
  "length (tx_handled (snd (uploadSpans cfg cl req st))) =
     length (tx_handled st) + (if fst (uploadSpans cfg cl req st) = None then 0 else 1)"
  by (simp add: uploadSpans_def Let_def case_prod_beta split: option.split)

lemma upload_all_handles:
  "length (tx_handled (snd (upload_all cfg cl g ps st))) =
     length (tx_handled st) + length (List.map_filter id (fst (upload_all cfg cl g ps st)))"
  by (induction ps arbitrary: st)
    (simp_all add: Let_def case_prod_beta upload_handles List.map_filter_def del: append.simps split: if_splits)

text \<open>C26. Pushing traces makes exactly one request per project that has spans, charged to the project when so
configured, with all spans of the project in order and each exactly once, whatever requests fail; it
reports as many errors as the error handler gets.\<close>

theorem push_traces_exports_every_span_once:
  assumes "sds = concat (List.map (pdataResourceSpansToOTSpanData env) td)"
    and "ranges_over (order (fold (add_span env cfg) sds Map.empty)) (fold (add_span env cfg) sds Map.empty)"
    and "PushTraces env (Some cfg) (recording_trace cl) order td st = (errs, st')"
  shows "\<exists>ps. distinct ps \<and> set ps = span_project cfg ` set sds \<and>
    snd (tx_client st') = snd (tx_client st) @ List.map (\<lambda>p. trace_call cfg p (spans_of env cfg sds p)) ps \<and>
    length (tx_handled st') = length (tx_handled st) + length (case errs of None \<Rightarrow> [] | Some ms \<Rightarrow> ms)"
proof -
  let ?g = "fold (add_span env cfg) sds Map.empty"
  have out: "errs = join_errors (fst (upload_all cfg (recording_trace cl) ?g (order ?g) st))"
    "st' = snd (upload_all cfg (recording_trace cl) ?g (order ?g) st)"
    using assms(3) by (simp_all add: PushTraces_def ExportSpans_def Let_def case_prod_beta flip: assms(1))
  have "(case ?g p of Some ss \<Rightarrow> ss | None \<Rightarrow> []) = spans_of env cfg sds p" for p
    by (simp add: span_groups_of)
  then have calls: "snd (tx_client st') = snd (tx_client st) @
      List.map (\<lambda>p. trace_call cfg p (spans_of env cfg sds p)) (order ?g)"
    by (simp add: out(2) upload_all_recorded)
  have "length (tx_handled st') = length (tx_handled st) + length (case errs of None \<Rightarrow> [] | Some ms \<Rightarrow> ms)"
    by (simp add: out upload_all_handles join_errors_def Let_def)
  with calls assms(2) show ?thesis
    by (intro exI [of _ "order ?g"]) (simp add: ranges_over_def span_groups_dom)
qed

definition example_traces :: "resource_spans list" where
  "example_traces = [\<lparr>pr_resource = [(''gcp.project.id'', VStr ''q'')],
     pr_scopes = [\<lparr>pc_scope = example_scope, pc_spans = [example_pdata_span, example_pdata_span]\<rparr>]\<rparr>]"

definition ok_trace_client :: "unit trace_client" where
  "ok_trace_client q t req c = (None, c)"

lemma push_traces_exports_every_span_once_witness:
  "\<exists>ps errs st'. PushTraces example_trace_env (Some example_trace_config) (recording_trace ok_trace_client)
      (\<lambda>g. [''q'']) example_traces \<lparr>tx_client = ((), []), tx_handled = []\<rparr> = (errs, st') \<and>
    set ps = {''q''} \<and>
    snd (tx_client st') = List.map (\<lambda>p. trace_call example_trace_config p
      (spans_of example_trace_env example_trace_config [example_span, example_span] p)) ps"
proof -
  let ?st = "\<lparr>tx_client = ((), [] :: (string option \<times> write_request) list), tx_handled = []\<rparr>"
  let ?sds = "[example_span, example_span]"
  have sds: "?sds = concat (List.map (pdataResourceSpansToOTSpanData example_trace_env) example_traces)"
    by (simp add: example_traces_def pdataResourceSpansToOTSpanData_def example_span_def)
  have q: "span_project example_trace_config example_span = ''q''" by code_simp
  have order: "ranges_over [''q''] (fold (add_span example_trace_env example_trace_config) ?sds Map.empty)"
    unfolding ranges_over_def span_groups_dom by (simp add: q)
  obtain errs st' where push: "PushTraces example_trace_env (Some example_trace_config) (recording_trace ok_trace_client)
      (\<lambda>g. [''q'']) example_traces ?st = (errs, st')" by fastforce
  obtain ps where "set ps = span_project example_trace_config ` set ?sds"
    "snd (tx_client st') = snd (tx_client ?st) @ List.map (\<lambda>p. trace_call example_trace_config p
      (spans_of example_trace_env example_trace_config ?sds p)) ps"
    using push_traces_exports_every_span_once [OF sds order push] by blast
  with push show ?thesis by (intro exI [of _ ps] exI [of _ errs] exI [of _ st']) (simp add: q)
qed

end
