(* ===== verification/Propagator.thy ===== *)
theory Propagator
  imports Traces
begin

text \<open>
  The propagators of the Cloud Trace header (propagator/propagator.go): writing a span context into a
  carrier, reading it back through the header's regular expression, and the one-way propagator. A
  carrier is an argument: what it gets and sets. A context is seen through the span context of its
  current span.
\<close>

record 'c carrier =
  cr_get :: "'c \<Rightarrow> string \<Rightarrow> string"
  cr_set :: "'c \<Rightarrow> string \<Rightarrow> string \<Rightarrow> 'c"

definition TraceContextHeaderName :: string where
  "TraceContextHeaderName = ''x-cloud-trace-context''"

subsection \<open>Numbers in the header\<close>

definition is_dec_char :: "char \<Rightarrow> bool" where
  "is_dec_char c \<longleftrightarrow> 48 \<le> byte c \<and> byte c \<le> 57"

definition is_hex_char :: "char \<Rightarrow> bool" where
  "is_hex_char c \<longleftrightarrow> is_dec_char c \<or> 97 \<le> byte c \<and> byte c \<le> 102"

definition dec_value :: "string \<Rightarrow> nat" where
  "dec_value s = foldl (\<lambda>a c. 10 * a + (byte c - 48)) 0 s"

text \<open>\<open>strconv.ParseUint\<close> and \<open>strconv.Atoi\<close> on digits; they fail on anything else here.\<close>

definition parse_uint64 :: "string \<Rightarrow> nat option" where
  "parse_uint64 s = (if s \<noteq> [] \<and> list_all is_dec_char s \<and> dec_value s < 2 ^ 64 then Some (dec_value s) else None)"

definition atoi :: "string \<Rightarrow> nat option" where
  "atoi s = (if s \<noteq> [] \<and> list_all is_dec_char s then Some (dec_value s) else None)"

definition hex_value :: "char \<Rightarrow> nat" where
  "hex_value c = (if is_dec_char c then byte c - 48 else byte c - 87)"

fun hex_decode :: "string \<Rightarrow> string" where
  "hex_decode (a # b # s) = chr (16 * hex_value a + hex_value b) # hex_decode s"
| "hex_decode _ = []"

text \<open>\<open>binary.BigEndian.Uint64\<close> and \<open>PutUint64\<close>.\<close>

definition be_uint :: "string \<Rightarrow> nat" where
  "be_uint s = foldl (\<lambda>a c. 256 * a + byte c) 0 s"

primrec put_be :: "nat \<Rightarrow> nat \<Rightarrow> string" where
  "put_be 0 n = []"
| "put_be (Suc k) n = put_be k (n div 256) @ [chr (n mod 256)]"

subsection \<open>The propagators\<close>

definition flags_string :: "8 word \<Rightarrow> string" where
  "flags_string f = hex_encode [chr (unat f)]"

definition xctc_header :: "span_context \<Rightarrow> nat \<Rightarrow> string" where
  "xctc_header sc flag = hex_encode (sc_trace_id sc) @ ''/'' @ show_nat (be_uint (sc_span_id sc)) @ '';o='' @ show_nat flag"

definition Inject :: "'c carrier \<Rightarrow> span_context \<Rightarrow> 'c \<Rightarrow> 'c" where
  "Inject cr sc c = (case atoi (flags_string (sc_flags sc)) of
     None \<Rightarrow> c
   | Some flag \<Rightarrow> cr_set cr c TraceContextHeaderName (xctc_header sc flag))"

text \<open>
  The regular expression: 32 hexadecimal digits, a slash, one to twenty decimal digits and an optional
  option of one digit, with nothing behind. The groups are the trace, the span and the flags.
\<close>

definition match_option :: "string \<Rightarrow> string option" where
  "match_option s = (if s = [] then Some []
     else if take 3 s = '';o='' \<and> length s = 4 \<and> is_dec_char (s ! 3) then Some [s ! 3] else None)"

definition traceContextHeaderRe :: "string \<Rightarrow> (string \<times> string \<times> string) option" where
  "traceContextHeaderRe h =
     (let tid = take 32 h in
      if length tid = 32 \<and> list_all is_hex_char tid then
        (case drop 32 h of
           c # r \<Rightarrow>
             let sid = takeWhile is_dec_char r
             in if c = slash \<and> 1 \<le> length sid \<and> length sid \<le> 20
                then map_option (\<lambda>fl. (tid, sid, fl)) (match_option (dropWhile is_dec_char r)) else None
         | [] \<Rightarrow> None)
      else None)"

text \<open>\<open>TraceIDFromHex\<close>: the length and the digits are checked, and zero is refused.\<close>

definition TraceIDFromHex :: "string \<Rightarrow> string option" where
  "TraceIDFromHex h = (if length h = 32 \<and> list_all is_hex_char h \<and> (\<exists>c \<in> set (hex_decode h). byte c \<noteq> 0)
     then Some (hex_decode h) else None)"

datatype header_error = InvalidHeader string

definition spanContextFromXCTCHeader :: "string \<Rightarrow> header_error + span_context" where
  "spanContextFromXCTCHeader header = (case traceContextHeaderRe header of
     None \<Rightarrow> Inl (InvalidHeader header)
   | Some (traceID, spanID, traceFlags) \<Rightarrow>
       if traceID = replicate 32 (chr 48) \<or> spanID = ''0'' then Inl (InvalidHeader header)
       else (case TraceIDFromHex traceID of
         None \<Rightarrow> Inl (InvalidHeader header)
       | Some tid \<Rightarrow> (case parse_uint64 spanID of
           None \<Rightarrow> Inl (InvalidHeader header)
         | Some sid \<Rightarrow> Inr \<lparr>sc_trace_id = tid, sc_span_id = put_be 8 sid,
             sc_flags = (if traceFlags = ''0'' \<or> traceFlags = [] then 0 else 1), sc_state = [], sc_remote = True\<rparr>)))"

text \<open>\<open>ContextWithRemoteSpanContext\<close> marks the span context as remote.\<close>

definition Extract :: "'c carrier \<Rightarrow> span_context \<Rightarrow> 'c \<Rightarrow> span_context" where
  "Extract cr ctx c =
     (let header = cr_get cr c TraceContextHeaderName in
      if header = [] then ctx
      else (case spanContextFromXCTCHeader header of Inl _ \<Rightarrow> ctx | Inr sc \<Rightarrow> sc\<lparr>sc_remote := True\<rparr>))"

definition SpanContextFromRequest :: "'c carrier \<Rightarrow> 'c \<Rightarrow> header_error + span_context" where
  "SpanContextFromRequest cr req = spanContextFromXCTCHeader (cr_get cr req TraceContextHeaderName)"

definition Fields :: "string list" where
  "Fields = [TraceContextHeaderName]"

definition OneWayInject :: "'c carrier \<Rightarrow> span_context \<Rightarrow> 'c \<Rightarrow> 'c" where
  "OneWayInject cr sc c = c"

definition OneWayFields :: "string list" where
  "OneWayFields = []"

subsection \<open>Digits\<close>

lemma is_dec_digit [simp]: "n < 10 \<Longrightarrow> is_dec_char (chr (48 + n))"
  by (simp add: is_dec_char_def)

lemma dec_value_snoc [simp]: "dec_value (s @ [c]) = 10 * dec_value s + (byte c - 48)"
  by (simp add: dec_value_def)

lemma show_digits_parse:
  "n < 10 ^ fuel \<Longrightarrow> list_all is_dec_char (show_digits fuel n) \<and> dec_value (show_digits fuel n) = n \<and>
     length (show_digits fuel n) \<le> fuel \<and> (0 < fuel \<longrightarrow> show_digits fuel n \<noteq> [])"
proof (induction fuel arbitrary: n)
  case (Suc fuel)
  show ?case
  proof (cases "n < 10")
    case True
    then show ?thesis by (simp add: dec_value_def)
  next
    case False
    have "n div 10 < 10 ^ fuel" using Suc.prems by (simp add: less_mult_imp_div_less)
    from Suc.IH [OF this] False show ?thesis by simp
  qed
qed (simp add: dec_value_def)

lemma show_nat_parse:
  assumes "n < 2 ^ 64"
  shows "list_all is_dec_char (show_nat n)" "dec_value (show_nat n) = n" "length (show_nat n) \<le> 20" "show_nat n \<noteq> []"
proof -
  have "n < 10 ^ 20" using assms by simp
  from show_digits_parse [OF this]
  show "list_all is_dec_char (show_nat n)" "dec_value (show_nat n) = n" "length (show_nat n) \<le> 20" "show_nat n \<noteq> []"
    by (simp_all add: show_nat_def)
qed

lemma nibbles: "list_all (\<lambda>n. is_hex_char (hex_char False n) \<and> hex_value (hex_char False n) = n) [0..<16]"
  by code_simp

lemma hex_nibble:
  assumes "n < 16"
  shows "is_hex_char (hex_char False n)" "hex_value (hex_char False n) = n"
  using nibbles assms by (simp_all add: list_all_iff)

lemma hex_encode_simps [simp]:
  "hex_encode [] = []"
  "hex_encode (c # s) = hex_char False (byte c div 16) # hex_char False (byte c mod 16) # hex_encode s"
  by (simp_all add: hex_encode_def)

lemma nibble_bounds: "byte c div 16 < 16" "byte c mod 16 < 16"
proof -
  have "byte c < 256" by (rule byte_less_256)
  then show "byte c div 16 < 16" "byte c mod 16 < 16" by linarith+
qed

lemma hex_decode_encode [simp]: "hex_decode (hex_encode s) = s"
  by (induction s) (simp_all add: hex_nibble nibble_bounds)

lemma hex_encode_chars [simp]: "list_all is_hex_char (hex_encode s)" "length (hex_encode s) = 2 * length s"
  by (induction s) (simp_all add: hex_nibble nibble_bounds)

lemma be_uint_snoc [simp]: "be_uint (s @ [c]) = 256 * be_uint s + byte c"
  by (simp add: be_uint_def)

lemma put_be_be_uint: "put_be (length s) (be_uint s) = s"
  by (induction s rule: rev_induct) simp_all

lemma be_uint_less: "be_uint s < 256 ^ length s"
proof (induction s rule: rev_induct)
  case (snoc c s)
  have "256 * be_uint s + byte c < 256 * 256 ^ length s" using byte_less_256 [of c] snoc by linarith
  then show ?case by simp
qed (simp add: be_uint_def)

lemma be_uint_zero: "be_uint s = 0 \<longleftrightarrow> (\<forall>c \<in> set s. byte c = 0)"
  by (induction s rule: rev_induct) (auto simp: be_uint_def)

subsection \<open>Writing and reading a header\<close>

lemma takeWhile_digits:
  assumes "list_all is_dec_char ds" "r = [] \<or> \<not> is_dec_char (hd r)"
  shows "takeWhile is_dec_char (ds @ r) = ds" "dropWhile is_dec_char (ds @ r) = r"
  using assms by (induction ds) (cases r; auto)+

lemma header_match:
  assumes "length (sc_trace_id sc) = 16" "length (sc_span_id sc) = 8"
  shows "traceContextHeaderRe (xctc_header sc flag) =
    map_option (\<lambda>fl. (hex_encode (sc_trace_id sc), show_nat (be_uint (sc_span_id sc)), fl)) (match_option ('';o='' @ show_nat flag))"
proof -
  have sid: "be_uint (sc_span_id sc) < 2 ^ 64" using be_uint_less [of "sc_span_id sc"] assms(2) by simp
  note digits = show_nat_parse [OF sid]
  have stop: "'';o='' @ show_nat flag = [] \<or> \<not> is_dec_char (hd ('';o='' @ show_nat flag))"
    by (simp add: is_dec_char_def)
  have split: "take 32 (xctc_header sc flag) = hex_encode (sc_trace_id sc)"
    "drop 32 (xctc_header sc flag) = slash # show_nat (be_uint (sc_span_id sc)) @ '';o='' @ show_nat flag"
    using assms(1) by (simp_all add: xctc_header_def slash_def)
  have "1 \<le> length (show_nat (be_uint (sc_span_id sc)))" using digits(4) by (simp add: Suc_le_eq)
  then show ?thesis
    unfolding traceContextHeaderRe_def Let_def split
    by (simp only: list.case takeWhile_digits [OF digits(1) stop] hex_encode_chars assms(1) digits(3) if_True simp_thms) simp
qed

lemma dec_nibbles: "list_all (\<lambda>n. is_dec_char (hex_char False n) = (n < 10)) [0..<16]"
  by code_simp

lemma dec_nibble: "n < 16 \<Longrightarrow> is_dec_char (hex_char False n) \<longleftrightarrow> n < 10"
  using dec_nibbles by (simp add: list_all_iff)

lemma flag_cases:
  obtains (digit) "unat f < 10" "atoi (flags_string f) = Some (unat f)"
  | (letter) "10 \<le> unat f" "atoi (flags_string f) = None"
  | (number) v where "10 \<le> unat f" "atoi (flags_string f) = Some v" "10 \<le> v" "v < 100"
proof -
  define hi lo where "hi = unat f div 16" and "lo = unat f mod 16"
  have f: "unat f < 256" using unsigned_less [of f] by simp
  then have bounds: "hi < 16" "lo < 16" "unat f = 16 * hi + lo"
    unfolding hi_def lo_def by (linarith, simp_all)
  have string: "flags_string f = [hex_char False hi, hex_char False lo]"
    using f by (simp add: flags_string_def hi_def lo_def)
  have "byte (hex_char False n) - 48 = n" if "n < 10" for n
    using that by (simp add: hex_char_def)
  then have atoi: "atoi (flags_string f) = (if hi < 10 \<and> lo < 10 then Some (10 * hi + lo) else None)"
    by (simp add: string atoi_def dec_nibble bounds dec_value_def)
  show thesis
  proof (cases "hi < 10 \<and> lo < 10")
    case True
    then show thesis using digit number [of "10 * hi + lo"] atoi bounds(3) by (cases "hi = 0") simp_all
  next
    case False
    then show thesis using letter atoi bounds(3) by (cases "hi = 0") simp_all
  qed
qed

lemma show_digits_one: "v < 10 \<Longrightarrow> show_digits (Suc fuel) v = [chr (48 + v)]"
  by simp

lemma show_nat_one: "v < 10 \<Longrightarrow> show_nat v = [chr (48 + v)]"
  using show_digits_one [of v 19] by (simp add: show_nat_def)

lemma show_nat_two:
  assumes "10 \<le> v" "v < 100"
  shows "length (show_nat v) = 2"
proof -
  have "(20 :: nat) = Suc (Suc 18)" by simp
  then have "show_nat v = show_digits (Suc (Suc 18)) v" by (simp only: show_nat_def)
  also have "\<dots> = show_digits (Suc 18) (v div 10) @ [chr (48 + v mod 10)]"
    by (simp only: show_digits.simps(2) [of "Suc 18"] if_not_P [OF leD [OF assms(1)]])
  also have "\<dots> = [chr (48 + v div 10)] @ [chr (48 + v mod 10)]"
    using assms(2) by (simp only: show_digits_one [of "v div 10" 18] less_mult_imp_div_less [of v 10 10])
  finally show ?thesis by (simp only: length_append list.size)
qed

lemma match_option_one: "v < 10 \<Longrightarrow> match_option ('';o='' @ show_nat v) = Some [chr (48 + v)]"
  by (simp add: match_option_def show_nat_one)

lemma match_option_two: "10 \<le> v \<Longrightarrow> v < 100 \<Longrightarrow> match_option ('';o='' @ show_nat v) = None"
  by (simp add: match_option_def show_nat_two)

lemma trace_id_nonzero:
  assumes "length tid = 16" "\<exists>c \<in> set tid. byte c \<noteq> 0"
  shows "hex_encode tid \<noteq> replicate 32 (chr 48)" "TraceIDFromHex (hex_encode tid) = Some tid"
proof -
  show "hex_encode tid \<noteq> replicate 32 (chr 48)"
  proof
    assume zero: "hex_encode tid = replicate 32 (chr 48)"
    have "tid = hex_decode (hex_encode tid)" by simp
    also have "\<dots> = hex_decode (replicate 32 (chr 48))" by (simp only: zero)
    also have "\<dots> = replicate 16 (chr 0)" by code_simp
    finally have "byte c = 0" if "c \<in> set tid" for c using that by simp
    then show False using assms(2) by metis
  qed
  show "TraceIDFromHex (hex_encode tid) = Some tid" using assms by (simp add: TraceIDFromHex_def)
qed

lemma span_id_nonzero:
  assumes "length sid = 8" "\<exists>c \<in> set sid. byte c \<noteq> 0"
  shows "show_nat (be_uint sid) \<noteq> ''0''" "parse_uint64 (show_nat (be_uint sid)) = Some (be_uint sid)"
    "put_be 8 (be_uint sid) = sid"
proof -
  have sid: "be_uint sid < 2 ^ 64" using be_uint_less [of sid] assms(1) by simp
  have "be_uint sid \<noteq> 0" using assms(2) by (simp add: be_uint_zero)
  moreover have "dec_value ''0'' = 0" by code_simp
  ultimately show "show_nat (be_uint sid) \<noteq> ''0''" using show_nat_parse(2) [OF sid] by metis
  show "parse_uint64 (show_nat (be_uint sid)) = Some (be_uint sid)"
    using show_nat_parse [OF sid] sid by (simp add: parse_uint64_def)
  show "put_be 8 (be_uint sid) = sid" using put_be_be_uint [of sid] assms(1) by simp
qed

text \<open>Valid identifiers, as \<open>IsValid\<close> and the array types require.\<close>

definition valid_context :: "span_context \<Rightarrow> bool" where
  "valid_context sc \<longleftrightarrow> length (sc_trace_id sc) = 16 \<and> (\<exists>c \<in> set (sc_trace_id sc). byte c \<noteq> 0) \<and>
     length (sc_span_id sc) = 8 \<and> (\<exists>c \<in> set (sc_span_id sc). byte c \<noteq> 0)"

lemma parse_header:
  assumes "valid_context sc" "v < 10"
  shows "spanContextFromXCTCHeader (xctc_header sc v) =
    Inr (sc\<lparr>sc_flags := if v = 0 then 0 else 1, sc_state := [], sc_remote := True\<rparr>)"
proof -
  have lens: "length (sc_trace_id sc) = 16" "length (sc_span_id sc) = 8"
    and nz: "\<exists>c \<in> set (sc_trace_id sc). byte c \<noteq> 0" "\<exists>c \<in> set (sc_span_id sc). byte c \<noteq> 0"
    using assms(1) by (simp_all add: valid_context_def)
  have m: "traceContextHeaderRe (xctc_header sc v) =
      Some (hex_encode (sc_trace_id sc), show_nat (be_uint (sc_span_id sc)), [chr (48 + v)])"
    by (simp only: header_match [OF lens] match_option_one [OF assms(2)] option.map)
  have "[chr (48 + v)] = ''0'' \<longleftrightarrow> v = 0"
  proof -
    have "byte (chr (48 + v)) = 48 + v" using assms(2) by simp
    moreover have "byte (CHR ''0'') = 48" by code_simp
    ultimately have "chr (48 + v) = CHR ''0'' \<longleftrightarrow> v = 0"
      by (metis add.right_neutral add_left_cancel char_of_char)
    then show ?thesis by simp
  qed
  then show ?thesis
    unfolding spanContextFromXCTCHeader_def m
    by (simp add: trace_id_nonzero [OF lens(1) nz(1)] span_id_nonzero [OF lens(2) nz(2)])
qed

text \<open>C28. Injecting a valid span context with flags below ten and extracting it again gives back its trace and span,
marked as remote. Of the flags only whether they are zero survives, and the trace state is lost.\<close>

theorem extract_after_inject:
  assumes "\<And>c k v. cr_get cr (cr_set cr c k v) k = v"
    and "valid_context sc" "unat (sc_flags sc) < 10"
  shows "Extract cr ctx (Inject cr sc c) = sc\<lparr>sc_flags := if sc_flags sc = 0 then 0 else 1, sc_state := [], sc_remote := True\<rparr>"
proof -
  have flag: "atoi (flags_string (sc_flags sc)) = Some (unat (sc_flags sc))"
    using assms(3) by (cases rule: flag_cases [of "sc_flags sc"]) simp_all
  have "unat (sc_flags sc) = 0 \<longleftrightarrow> sc_flags sc = 0" by (simp add: unat_eq_zero)
  moreover have "xctc_header sc v \<noteq> []" for v by (simp add: xctc_header_def)
  ultimately show ?thesis
    by (simp add: Inject_def flag Extract_def assms(1) parse_header [OF assms(2,3)])
qed

text \<open>A span context whose flags are ten or more is lost: nothing can be extracted after it was injected
into a carrier without a header, since the hexadecimal flags are read as decimal.\<close>

theorem large_flags_lose_the_context:
  assumes "\<And>c k v. cr_get cr (cr_set cr c k v) k = v" "cr_get cr c TraceContextHeaderName = []"
    and "length (sc_trace_id sc) = 16" "length (sc_span_id sc) = 8" "10 \<le> unat (sc_flags sc)"
  shows "Extract cr ctx (Inject cr sc c) = ctx"
proof (cases rule: flag_cases [of "sc_flags sc"])
  case letter
  then show ?thesis by (simp add: Inject_def Extract_def assms(2))
next
  case (number v)
  have "traceContextHeaderRe (xctc_header sc v) = None"
    by (simp only: header_match [OF assms(3,4)] match_option_two [OF number(3,4)] option.map)
  then have "spanContextFromXCTCHeader (xctc_header sc v) = Inl (InvalidHeader (xctc_header sc v))"
    by (simp add: spanContextFromXCTCHeader_def)
  then show ?thesis by (simp add: Inject_def number(2) Extract_def assms(1) Let_def)
qed (use assms(5) in simp)

definition map_carrier :: "(string \<rightharpoonup> string) carrier" where
  "map_carrier = \<lparr>cr_get = (\<lambda>m k. case m k of Some v \<Rightarrow> v | None \<Rightarrow> []), cr_set = (\<lambda>m k v. m(k \<mapsto> v))\<rparr>"

definition example_context :: "8 word \<Rightarrow> span_context" where
  "example_context f = \<lparr>sc_trace_id = replicate 16 (chr 1), sc_span_id = replicate 8 (chr 255), sc_flags = f, sc_state = [(''k'', ''v'')], sc_remote = False\<rparr>"

lemma map_carrier_law: "cr_get map_carrier (cr_set map_carrier c k v) k = v"
  by (simp add: map_carrier_def)

lemma extract_after_inject_witness:
  "Extract map_carrier (example_context 0) (Inject map_carrier (example_context 2) Map.empty) =
     (example_context 2)\<lparr>sc_flags := 1, sc_state := [], sc_remote := True\<rparr>"
proof -
  have "valid_context (example_context 2)" by code_simp
  moreover have "unat (sc_flags (example_context 2)) < 10" by code_simp
  moreover have "sc_flags (example_context 2) \<noteq> 0" by (simp add: example_context_def)
  ultimately show ?thesis using extract_after_inject [of map_carrier "example_context 2" "example_context 0" Map.empty, OF map_carrier_law] by simp
qed

lemma large_flags_lose_the_context_witness:
  "Extract map_carrier (example_context 0) (Inject map_carrier (example_context 255) Map.empty) = example_context 0"
proof -
  have "cr_get map_carrier Map.empty TraceContextHeaderName = []" by (simp add: map_carrier_def)
  moreover have "length (sc_trace_id (example_context 255)) = 16" "length (sc_span_id (example_context 255)) = 8"
    by (simp_all add: example_context_def)
  moreover have "10 \<le> unat (sc_flags (example_context 255))" by code_simp
  ultimately show ?thesis by (rule large_flags_lose_the_context [of map_carrier, OF map_carrier_law])
qed

end
