(* ===== verification/SdkMetrics.thy ===== *)
theory SdkMetrics
  imports Traces
begin

text \<open>
  The metric exporter of the Go SDK, values (exporter/metric/metric.go): from the SDK's aggregations to
  Cloud Monitoring time series and descriptors. Generic functions over \<open>int64\<close> and \<open>float64\<close> take the
  conversions of the number type as arguments. An attribute set is the list of its attributes in key
  order, an instant is in nanoseconds since 1970. Arguments are, beside those of \<open>mapper_env\<close>, the
  rendering of attribute values.
\<close>

subsection \<open>Aggregations\<close>

record 'n sdk_exemplar =
  se_filtered :: "key_value list"
  se_time :: int
  se_value :: 'n
  se_span_id :: string
  se_trace_id :: string

record 'n sdk_point =
  sd_attrs :: "key_value list"
  sd_start :: int
  sd_time :: int
  sd_value :: 'n

record 'n sdk_histogram =
  sh_attrs :: "key_value list"
  sh_start :: int
  sh_time :: int
  sh_count :: u64
  sh_sum :: 'n
  sh_bounds :: "f64 list"
  sh_buckets :: "u64 list"
  sh_exemplars :: "'n sdk_exemplar list"

record 'n sdk_exp_histogram =
  sx_attrs :: "key_value list"
  sx_start :: int
  sx_time :: int
  sx_count :: u64
  sx_sum :: 'n
  sx_scale :: i32
  sx_zero_count :: u64
  sx_offset :: i32
  sx_positive :: "u64 list"
  sx_negative :: "u64 list"
  sx_exemplars :: "'n sdk_exemplar list"

text \<open>\<open>NilData\<close> is a nil interface, \<open>OtherData\<close> any other aggregation with the name of its type.\<close>

datatype sdk_data = IntGauge "i64 sdk_point list" | FloatGauge "f64 sdk_point list"
  | IntSum bool "i64 sdk_point list" | FloatSum bool "f64 sdk_point list"
  | IntHistogram "i64 sdk_histogram list" | FloatHistogram "f64 sdk_histogram list"
  | IntExpHistogram "i64 sdk_exp_histogram list" | FloatExpHistogram "f64 sdk_exp_histogram list"
  | NilData | OtherData string

record sdk_metric =
  sm_name :: string
  sm_description :: string
  sm_unit :: string
  sm_data :: sdk_data

record sdk_scope_metrics =
  sk_library :: string
  sk_metrics :: "sdk_metric list"

record sdk_resource_metrics =
  sr_resource :: "key_value list"
  sr_scopes :: "sdk_scope_metrics list"

record sdk_env = mapper_env +
  me_emit :: "attr_value \<Rightarrow> string"

record sdk_options =
  so_project :: string
  so_formatter :: "(sdk_metric \<Rightarrow> string) option"
  so_filter :: "(key_value \<Rightarrow> bool) option"
  so_mr_type :: string
  so_mr_labels :: "string set"
  so_quota :: bool
  so_disable_descriptors :: bool
  so_deviation :: bool
  so_service_series :: bool

datatype sdk_error = ShutdownError | InvalidTimestamp pb_timestamp | UnexpectedAggregation string | CallError string

subsection \<open>Labels and names\<close>

definition normalizeLabelKey :: "unicode_tables \<Rightarrow> string \<Rightarrow> string" where
  "normalizeLabelKey u s =
     (if s = [] then s
      else let t = str_map (sanitizeRune u) s in
        if is_digit u (byte (hd t)) then ''key_'' @ t else t)"

definition sdk_sanitizeUTF8 :: "string \<Rightarrow> string" where
  "sdk_sanitizeUTF8 s = to_valid_utf8 s replacement_char"

definition label_pairs :: "sdk_env \<Rightarrow> key_value list \<Rightarrow> (string \<times> string) list" where
  "label_pairs env attrs =
     List.map (\<lambda>(k, v). (normalizeLabelKey (me_unicode env) k, sdk_sanitizeUTF8 (me_emit env v))) attrs"

definition sdk_attributesToLabels :: "sdk_env \<Rightarrow> key_value list \<Rightarrow> labels" where
  "sdk_attributesToLabels env attrs = put_all Map.empty (label_pairs env attrs)"

definition DefaultResourceAttributesFilter :: "key_value \<Rightarrow> bool" where
  "DefaultResourceAttributesFilter kv \<longleftrightarrow>
     fst kv \<in> {''service.name'', ''service.namespace'', ''service.instance.id''} \<and> attr_as_string (snd kv) \<noteq> []"

definition NoAttributes :: "key_value \<Rightarrow> bool" where
  "NoAttributes kv = False"

definition extraLabelsFromResource :: "sdk_options \<Rightarrow> key_value list \<Rightarrow> key_value list" where
  "extraLabelsFromResource opts res = (case so_filter opts of None \<Rightarrow> res | Some f \<Rightarrow> filter f res)"

definition descToMetricType :: "sdk_options \<Rightarrow> sdk_metric \<Rightarrow> string" where
  "descToMetricType opts m = (case so_formatter opts of
     Some f \<Rightarrow> f m | None \<Rightarrow> ''workload.googleapis.com/'' @ sm_name m)"

definition sdk_metricTypeToDisplayName :: "sdk_env \<Rightarrow> string \<Rightarrow> string" where
  "sdk_metricTypeToDisplayName env t = (case me_url_path env (''metrics://'' @ t) of
     None \<Rightarrow> t
   | Some path \<Rightarrow> if path = [] then t else trim_left_char path slash)"

subsection \<open>Descriptors\<close>

fun recordToMdpbKindType :: "sdk_data \<Rightarrow> metric_kind \<times> value_type" where
  "recordToMdpbKindType (IntGauge ps) = (GAUGE, INT64)"
| "recordToMdpbKindType (FloatGauge ps) = (GAUGE, DOUBLE)"
| "recordToMdpbKindType (IntSum monotonic ps) = (if monotonic then (CUMULATIVE, INT64) else (GAUGE, INT64))"
| "recordToMdpbKindType (FloatSum monotonic ps) = (if monotonic then (CUMULATIVE, DOUBLE) else (GAUGE, DOUBLE))"
| "recordToMdpbKindType (IntHistogram ps) = (CUMULATIVE, DISTRIBUTION)"
| "recordToMdpbKindType (FloatHistogram ps) = (CUMULATIVE, DISTRIBUTION)"
| "recordToMdpbKindType (IntExpHistogram ps) = (KIND_UNSPECIFIED, TYPE_UNSPECIFIED)"
| "recordToMdpbKindType (FloatExpHistogram ps) = (KIND_UNSPECIFIED, TYPE_UNSPECIFIED)"
| "recordToMdpbKindType NilData = (KIND_UNSPECIFIED, TYPE_UNSPECIFIED)"
| "recordToMdpbKindType (OtherData t) = (KIND_UNSPECIFIED, TYPE_UNSPECIFIED)"

text \<open>The attribute sets whose keys become labels.\<close>

fun described_attributes :: "sdk_data \<Rightarrow> key_value list list" where
  "described_attributes (IntGauge ps) = List.map sd_attrs ps"
| "described_attributes (FloatGauge ps) = List.map sd_attrs ps"
| "described_attributes (IntSum monotonic ps) = List.map sd_attrs ps"
| "described_attributes (FloatSum monotonic ps) = List.map sd_attrs ps"
| "described_attributes (IntHistogram ps) = List.map sh_attrs ps"
| "described_attributes (FloatHistogram ps) = List.map sh_attrs ps"
| "described_attributes _ = []"

fun sdk_addAttributes :: "unicode_tables \<Rightarrow> key_value list \<Rightarrow> label_descriptor list \<Rightarrow> string set \<Rightarrow>
    label_descriptor list \<times> string set" where
  "sdk_addAttributes u [] ls seen = (ls, seen)"
| "sdk_addAttributes u ((k, v) # kvs) ls seen =
     (if normalizeLabelKey u k \<in> seen then sdk_addAttributes u kvs ls seen
      else sdk_addAttributes u kvs (ls @ [plain_label (normalizeLabelKey u k)]) (insert (normalizeLabelKey u k) seen))"

definition sdk_labelDescriptors :: "sdk_env \<Rightarrow> sdk_metric \<Rightarrow> key_value list \<Rightarrow> label_descriptor list" where
  "sdk_labelDescriptors env m extra =
     fst (foldl (\<lambda>(ls, seen) attrs. sdk_addAttributes (me_unicode env) attrs ls seen) ([], {})
       (extra # described_attributes (sm_data m)))"

definition recordToMdpb :: "sdk_env \<Rightarrow> sdk_options \<Rightarrow> sdk_metric \<Rightarrow> key_value list \<Rightarrow> metric_descriptor" where
  "recordToMdpb env opts m extra =
     (let t = descToMetricType opts m; (kind, vt) = recordToMdpbKindType (sm_data m) in
      \<lparr>md_name = sm_name m, md_type = t, md_labels = sdk_labelDescriptors env m extra,
       md_kind = kind, md_value_type = vt, md_unit = sm_unit m, md_description = sm_description m,
       md_display_name = sdk_metricTypeToDisplayName env t\<rparr>)"

subsection \<open>Intervals\<close>

text \<open>\<open>Time.Sub\<close> saturates at the range of a duration, and \<open>Milliseconds\<close> truncates.\<close>

definition time_sub :: "int \<Rightarrow> int \<Rightarrow> int" where
  "time_sub a b = max (- (2 ^ 63)) (min (2 ^ 63 - 1) (a - b))"

definition go_quot :: "int \<Rightarrow> int \<Rightarrow> int" where
  "go_quot a b = (if (a < 0) = (b < 0) then \<bar>a\<bar> div \<bar>b\<bar> else - (\<bar>a\<bar> div \<bar>b\<bar>))"

text \<open>\<open>CheckValid\<close> of a timestamp: years 1 to 9999.\<close>

definition check_valid :: "pb_timestamp \<Rightarrow> sdk_error list" where
  "check_valid t = (if -62135596800 \<le> pb_seconds t \<and> pb_seconds t \<le> 253402300799 then [] else [InvalidTimestamp t])"

definition toNonemptyTimeIntervalpb :: "int \<Rightarrow> int \<Rightarrow> (sdk_error list, pb_timestamp \<times> pb_timestamp) res" where
  "toNonemptyTimeIntervalpb start fin =
     (let fin = (if go_quot (time_sub fin start) 1000000 \<le> 1 then start + 1000000 else fin);
          startpb = timestamp_new start; endpb = timestamp_new fin;
          errs = check_valid startpb @ check_valid endpb
      in if errs \<noteq> [] then Inl errs else Inr (startpb, endpb))"

subsection \<open>Distributions\<close>

definition hasValidSpanContext :: "'n sdk_exemplar \<Rightarrow> bool" where
  "hasValidSpanContext e \<longleftrightarrow> \<not> id_empty (se_trace_id e) \<and> \<not> id_empty (se_span_id e)"

definition toDistributionExemplar :: "sdk_env \<Rightarrow> ('n \<Rightarrow> f64) \<Rightarrow> 'n sdk_exemplar list \<Rightarrow> string \<Rightarrow> dist_exemplar list" where
  "toDistributionExemplar env to_float es projectID = me_sort_slice env exemplar_less (List.map (\<lambda>e.
     let sc = SpanContext (''projects/'' @ projectID @ ''/traces/'' @ hex_string (se_trace_id e) @
                ''/spans/'' @ hex_string (se_span_id e));
         dl = DroppedLabels (sdk_attributesToLabels env (se_filtered e))
     in \<lparr>de_value = to_float (se_value e), de_time = timestamp_new (se_time e),
         de_attachments = (if hasValidSpanContext e \<and> me_any_ok env sc then [sc] else []) @
           (if se_filtered e \<noteq> [] \<and> me_any_ok env dl then [dl] else [])\<rparr>) es)"

definition histToDistribution :: "sdk_env \<Rightarrow> ('n \<Rightarrow> f64) \<Rightarrow> 'n sdk_histogram \<Rightarrow> string \<Rightarrow> distribution" where
  "histToDistribution env to_float h projectID =
     \<lparr>di_count = sh_count h, di_mean = point_mean (to_float (sh_sum h)) (sh_count h), di_deviation = f_zero,
      di_buckets = sh_buckets h, di_options = ExplicitBuckets (sh_bounds h),
      di_exemplars = toDistributionExemplar env to_float (sh_exemplars h) projectID\<rparr>"

definition expHistToDistribution :: "sdk_env \<Rightarrow> ('n \<Rightarrow> f64) \<Rightarrow> 'n sdk_exp_histogram \<Rightarrow> string \<Rightarrow> distribution" where
  "expHistToDistribution env to_float h projectID =
     (let underflow = foldl (+) (sx_zero_count h) (sx_negative h);
          growth = me_exp2 env (me_exp2 env (f_neg (f_of_int (sint (sx_scale h)))));
          scale = me_pow env growth (f_of_int (sint (sx_offset h)))
      in \<lparr>di_count = sx_count h, di_mean = point_mean (to_float (sx_sum h)) (sx_count h), di_deviation = f_zero,
          di_buckets = underflow # sx_positive h @ [0],
          di_options = (if sx_positive h = [] then ExplicitBuckets [f_zero]
            else ExponentialBuckets (word_of_int (int (length (sx_positive h)))) growth scale),
          di_exemplars = toDistributionExemplar env to_float (sx_exemplars h) projectID\<rparr>)"

text \<open>The buckets are indexed by the bounds, so fewer buckets than bounds are a panic.\<close>

definition setSumOfSquaredDeviation :: "'n sdk_histogram \<Rightarrow> distribution \<Rightarrow> (go_panic, distribution) res" where
  "setSumOfSquaredDeviation h d =
     res_bind (deviation_loop (di_mean d) (sh_bounds h) (di_buckets d) f_zero (di_deviation d)) (\<lambda>(prev, dev).
       Inr (d\<lparr>di_deviation := (if di_buckets d = [] then dev
         else f_add dev (deviation_term (di_mean d) prev (last (di_buckets d))))\<rparr>))"

subsection \<open>Points to time series\<close>

text \<open>A number and its value type; \<open>float64(x)\<close> of a number.\<close>

definition int_value :: "i64 \<Rightarrow> typed_value \<times> value_type" where
  "int_value i = (Int64Value i, INT64)"

definition float_value :: "f64 \<Rightarrow> typed_value \<times> value_type" where
  "float_value d = (DoubleValue d, DOUBLE)"

definition int_to_float :: "i64 \<Rightarrow> f64" where
  "int_to_float i = f_of_int (sint i)"

definition one_point :: "sdk_metric \<Rightarrow> monitored_resource \<Rightarrow> metric_kind \<Rightarrow> value_type \<Rightarrow>
    pb_timestamp option \<Rightarrow> pb_timestamp \<Rightarrow> typed_value \<Rightarrow> time_series" where
  "one_point m mr kind vt start fin v =
     \<lparr>ts_resource = mr, ts_unit = sm_unit m, ts_description = sm_description m, ts_kind = kind, ts_value_type = vt,
      ts_points = [\<lparr>tp_start = start, tp_end = fin, tp_value = v\<rparr>], ts_metric_type = [], ts_labels = Map.empty\<rparr>"

definition gaugeToTimeSeries :: "('n \<Rightarrow> typed_value \<times> value_type) \<Rightarrow> 'n sdk_point \<Rightarrow> sdk_metric \<Rightarrow>
    monitored_resource \<Rightarrow> (sdk_error list, time_series) res" where
  "gaugeToTimeSeries value_of p m mr =
     (let (v, vt) = value_of (sd_value p); timestamp = timestamp_new (sd_time p) in
      if check_valid timestamp \<noteq> [] then Inl (check_valid timestamp)
      else Inr (one_point m mr GAUGE vt None timestamp v))"

definition sumToTimeSeries :: "('n \<Rightarrow> typed_value \<times> value_type) \<Rightarrow> 'n sdk_point \<Rightarrow> sdk_metric \<Rightarrow>
    monitored_resource \<Rightarrow> (sdk_error list, time_series) res" where
  "sumToTimeSeries value_of p m mr =
     res_bind (toNonemptyTimeIntervalpb (sd_start p) (sd_time p)) (\<lambda>(start, fin).
       let (v, vt) = value_of (sd_value p) in Inr (one_point m mr CUMULATIVE vt (Some start) fin v))"

definition sdk_histogramToTimeSeries :: "sdk_env \<Rightarrow> ('n \<Rightarrow> f64) \<Rightarrow> 'n sdk_histogram \<Rightarrow> sdk_metric \<Rightarrow>
    monitored_resource \<Rightarrow> bool \<Rightarrow> string \<Rightarrow> (go_panic, (sdk_error list, time_series) res) res" where
  "sdk_histogramToTimeSeries env to_float p m mr enableSOSD projectID =
     (case toNonemptyTimeIntervalpb (sh_start p) (sh_time p) of
        Inl e \<Rightarrow> Inr (Inl e)
      | Inr (start, fin) \<Rightarrow>
          let d = histToDistribution env to_float p projectID in
          res_bind (if enableSOSD then setSumOfSquaredDeviation p d else Inr d) (\<lambda>d.
            Inr (Inr (one_point m mr CUMULATIVE DISTRIBUTION (Some start) fin (DistributionValue d)))))"

definition expHistogramToTimeSeries :: "sdk_env \<Rightarrow> ('n \<Rightarrow> f64) \<Rightarrow> 'n sdk_exp_histogram \<Rightarrow> sdk_metric \<Rightarrow>
    monitored_resource \<Rightarrow> string \<Rightarrow> (sdk_error list, time_series) res" where
  "expHistogramToTimeSeries env to_float p m mr projectID =
     res_bind (toNonemptyTimeIntervalpb (sx_start p) (sx_time p)) (\<lambda>(start, fin).
       Inr (one_point m mr CUMULATIVE DISTRIBUTION (Some start) fin
         (DistributionValue (expHistToDistribution env to_float p projectID))))"

text \<open>The loop over the points: errors are collected, series get the metric of their point.\<close>

fun sdk_points :: "('p \<Rightarrow> (go_panic, (sdk_error list, time_series) res) res) \<Rightarrow> ('p \<Rightarrow> time_series \<Rightarrow> time_series) \<Rightarrow>
    'p list \<Rightarrow> (go_panic, time_series list \<times> sdk_error list) res" where
  "sdk_points conv label [] = Inr ([], [])"
| "sdk_points conv label (p # ps) = res_bind (conv p) (\<lambda>r.
     res_bind (sdk_points conv label ps) (\<lambda>(tss, errs).
       case r of Inl e \<Rightarrow> Inr (tss, e @ errs) | Inr ts \<Rightarrow> Inr (label p ts # tss, errs)))"

end
