(* ===== verification/SdkExporter.thy ===== *)
theory SdkExporter
  imports SdkMetrics "HOL-Library.Product_Lexorder"
begin

text \<open>
  The metric exporter of the Go SDK, state and calls (exporter/metric/metric.go, option.go,
  cloudmonitoring.go): options, the cache of metric descriptors, the export of descriptors and of time
  series in batches, and shutdown. The client threads its own state; a call gets the project to charge.
\<close>

subsection \<open>Metrics to time series\<close>

text \<open>A descriptor is cached under the names of metric and library.\<close>

type_synonym metric_key = "string \<times> string"

type_synonym descriptor_cache = "metric_key \<rightharpoonup> metric_descriptor"

definition keyOf :: "sdk_metric \<Rightarrow> string \<Rightarrow> metric_key" where
  "keyOf m library = (sm_name m, library)"

definition metric_type_of :: "sdk_options \<Rightarrow> descriptor_cache \<Rightarrow> sdk_metric \<Rightarrow> string \<Rightarrow> string" where
  "metric_type_of opts cache m library =
     (let cached = (case cache (keyOf m library) of Some md \<Rightarrow> md_type md | None \<Rightarrow> []) in
      if cached = [] then descToMetricType opts m else cached)"

definition recordToMpb :: "sdk_env \<Rightarrow> sdk_options \<Rightarrow> descriptor_cache \<Rightarrow> sdk_metric \<Rightarrow> key_value list \<Rightarrow> string \<Rightarrow>
    key_value list \<Rightarrow> string \<times> labels" where
  "recordToMpb env opts cache m attrs library extra =
     (metric_type_of opts cache m library, put_all (put_all Map.empty (label_pairs env extra)) (label_pairs env attrs))"

definition with_metric :: "string \<times> labels \<Rightarrow> time_series \<Rightarrow> time_series" where
  "with_metric m ts = ts\<lparr>ts_metric_type := fst m, ts_labels := snd m\<rparr>"

definition recordToTspb :: "sdk_env \<Rightarrow> sdk_options \<Rightarrow> descriptor_cache \<Rightarrow> sdk_metric \<Rightarrow> monitored_resource \<Rightarrow> string \<Rightarrow>
    key_value list \<Rightarrow> (go_panic, time_series list \<times> sdk_error list) res" where
  "recordToTspb env opts cache m mr library extra =
     (let label = (\<lambda>attrs. with_metric (recordToMpb env opts cache m attrs library extra));
          pid = so_project opts; dev = so_deviation opts
      in case sm_data m of
        NilData \<Rightarrow> Inr ([], [])
      | IntGauge ps \<Rightarrow> sdk_points (\<lambda>p. Inr (gaugeToTimeSeries int_value p m mr)) (\<lambda>p. label (sd_attrs p)) ps
      | FloatGauge ps \<Rightarrow> sdk_points (\<lambda>p. Inr (gaugeToTimeSeries float_value p m mr)) (\<lambda>p. label (sd_attrs p)) ps
      | IntSum monotonic ps \<Rightarrow> sdk_points (\<lambda>p. Inr (if monotonic then sumToTimeSeries int_value p m mr
            else gaugeToTimeSeries int_value p m mr)) (\<lambda>p. label (sd_attrs p)) ps
      | FloatSum monotonic ps \<Rightarrow> sdk_points (\<lambda>p. Inr (if monotonic then sumToTimeSeries float_value p m mr
            else gaugeToTimeSeries float_value p m mr)) (\<lambda>p. label (sd_attrs p)) ps
      | IntHistogram ps \<Rightarrow> sdk_points (\<lambda>p. sdk_histogramToTimeSeries env int_to_float p m mr dev pid) (\<lambda>p. label (sh_attrs p)) ps
      | FloatHistogram ps \<Rightarrow> sdk_points (\<lambda>p. sdk_histogramToTimeSeries env id p m mr dev pid) (\<lambda>p. label (sh_attrs p)) ps
      | IntExpHistogram ps \<Rightarrow> sdk_points (\<lambda>p. Inr (expHistogramToTimeSeries env int_to_float p m mr pid)) (\<lambda>p. label (sx_attrs p)) ps
      | FloatExpHistogram ps \<Rightarrow> sdk_points (\<lambda>p. Inr (expHistogramToTimeSeries env id p m mr pid)) (\<lambda>p. label (sx_attrs p)) ps
      | OtherData t \<Rightarrow> Inr ([], [UnexpectedAggregation t]))"

text \<open>
  The resource: the configured platform type when the attribute asks for it, otherwise the shared
  mapping. \<open>sdk_attrs\<close> is the adapter for the shared mapping.
\<close>

definition resourceToMonitoredResourcepb :: "sdk_options \<Rightarrow> key_value list \<Rightarrow> monitored_resource" where
  "resourceToMonitoredResourcepb opts res =
     (let attrs = attrs_of res in
      if attrs ''gcp.resource_type'' = Some (so_mr_type opts)
      then \<lparr>mr_type = so_mr_type opts, mr_labels = (\<lambda>k. if k \<in> so_mr_labels opts then attrs k else None)\<rparr>
      else let gmr = ResourceAttributesToMonitoringMonitoredResource attrs in
        \<lparr>mr_type = mr_type gmr, mr_labels = (\<lambda>k. map_option sdk_sanitizeUTF8 (mr_labels gmr k))\<rparr>)"

definition sdk_metrics :: "sdk_resource_metrics \<Rightarrow> (string \<times> sdk_metric) list" where
  "sdk_metrics rm = concat (List.map (\<lambda>s. List.map (\<lambda>m. (sk_library s, m)) (sk_metrics s)) (sr_scopes rm))"

fun records_loop :: "(string \<times> sdk_metric \<Rightarrow> (go_panic, time_series list \<times> sdk_error list) res) \<Rightarrow>
    (string \<times> sdk_metric) list \<Rightarrow> (go_panic, time_series list \<times> sdk_error list) res" where
  "records_loop f [] = Inr ([], [])"
| "records_loop f (x # xs) = res_bind (f x) (\<lambda>(ts, e).
     res_bind (records_loop f xs) (\<lambda>(tss, errs). Inr (ts @ tss, e @ errs)))"

definition recordsToTspbs :: "sdk_env \<Rightarrow> sdk_options \<Rightarrow> descriptor_cache \<Rightarrow> sdk_resource_metrics \<Rightarrow>
    (go_panic, time_series list \<times> sdk_error list) res" where
  "recordsToTspbs env opts cache rm =
     (let mr = resourceToMonitoredResourcepb opts (sr_resource rm); extra = extraLabelsFromResource opts (sr_resource rm)
      in records_loop (\<lambda>(library, m). recordToTspb env opts cache m mr library extra) (sdk_metrics rm))"

subsection \<open>Calls\<close>

text \<open>A call returns an error message or nothing.\<close>

record 'c sdk_client =
  sc_get :: "string option \<Rightarrow> string \<Rightarrow> 'c \<Rightarrow> string option \<times> 'c"
  sc_create :: "string option \<Rightarrow> md_request \<Rightarrow> 'c \<Rightarrow> string option \<times> 'c"
  sc_series :: "series_call \<Rightarrow> string option \<Rightarrow> ts_request \<Rightarrow> 'c \<Rightarrow> string option \<times> 'c"

record 'c sdk_exporter =
  ss_client :: 'c
  ss_cache :: descriptor_cache
  ss_shutdown :: bool

definition sdk_quota :: "sdk_options \<Rightarrow> string option" where
  "sdk_quota opts = (if so_quota opts then Some (trim_prefix (so_project opts) ''projects/'') else None)"

definition call_errors :: "string option \<Rightarrow> sdk_error list" where
  "call_errors e = (case e of None \<Rightarrow> [] | Some m \<Rightarrow> [CallError m])"

definition createMetricDescriptorIfNeeded :: "sdk_options \<Rightarrow> 'c sdk_client \<Rightarrow> metric_descriptor \<Rightarrow> 'c \<Rightarrow>
    string option \<times> 'c" where
  "createMetricDescriptorIfNeeded opts cl md c =
     (let (e, c) = sc_get cl (sdk_quota opts) (''projects/'' @ so_project opts @ ''/metricDescriptors/'' @ md_type md) c in
      if e = None then (None, c)
      else sc_create cl (sdk_quota opts) \<lparr>mq_name = ''projects/'' @ so_project opts, mq_descriptor = md\<rparr> c)"

text \<open>The descriptors that are not cached, one for each key.\<close>

fun new_descriptors :: "sdk_env \<Rightarrow> sdk_options \<Rightarrow> descriptor_cache \<Rightarrow> key_value list \<Rightarrow> (string \<times> sdk_metric) list \<Rightarrow>
    descriptor_cache \<Rightarrow> descriptor_cache" where
  "new_descriptors env opts cache extra [] mds = mds"
| "new_descriptors env opts cache extra ((library, m) # ms) mds =
     (let k = keyOf m library in
      if cache k \<noteq> None \<or> mds k \<noteq> None then new_descriptors env opts cache extra ms mds
      else new_descriptors env opts cache extra ms (mds(k \<mapsto> recordToMdpb env opts m extra)))"

fun offer_all :: "sdk_options \<Rightarrow> 'c sdk_client \<Rightarrow> (metric_key \<times> metric_descriptor) list \<Rightarrow> 'c sdk_exporter \<Rightarrow>
    sdk_error list \<times> 'c sdk_exporter" where
  "offer_all opts cl [] st = ([], st)"
| "offer_all opts cl ((k, md) # mds) st =
     (let (e, c) = createMetricDescriptorIfNeeded opts cl md (ss_client st);
          st = st\<lparr>ss_client := c, ss_cache := (if e = None then (ss_cache st)(k \<mapsto> md) else ss_cache st)\<rparr>;
          (errs, st) = offer_all opts cl mds st
      in (call_errors e @ errs, st))"

text \<open>\<open>order\<close> lists the new descriptors in the order in which their map is ranged over.\<close>

definition sdk_exportMetricDescriptor :: "sdk_env \<Rightarrow> sdk_options \<Rightarrow> 'c sdk_client \<Rightarrow>
    (descriptor_cache \<Rightarrow> (metric_key \<times> metric_descriptor) list) \<Rightarrow> sdk_resource_metrics \<Rightarrow> 'c sdk_exporter \<Rightarrow>
    sdk_error list \<times> 'c sdk_exporter" where
  "sdk_exportMetricDescriptor env opts cl order rm st =
     (if so_disable_descriptors opts then ([], st)
      else offer_all opts cl (order (new_descriptors env opts (ss_cache st)
        (extraLabelsFromResource opts (sr_resource rm)) (sdk_metrics rm) Map.empty)) st)"

definition sdk_sendBatchSize :: nat where
  "sdk_sendBatchSize = 200"

fun send_batches :: "sdk_options \<Rightarrow> 'c sdk_client \<Rightarrow> time_series list list \<Rightarrow> 'c sdk_exporter \<Rightarrow>
    sdk_error list \<times> 'c sdk_exporter" where
  "send_batches opts cl [] st = ([], st)"
| "send_batches opts cl (b # bs) st =
     (let (e, c) = sc_series cl (if so_service_series opts then CreateServiceTimeSeries else CreateTimeSeries)
            (sdk_quota opts) \<lparr>rq_name = ''projects/'' @ so_project opts, rq_series = b\<rparr> (ss_client st);
          (errs, st) = send_batches opts cl bs (st\<lparr>ss_client := c\<rparr>)
      in (call_errors e @ errs, st))"

definition sdk_exportTimeSeries :: "sdk_env \<Rightarrow> sdk_options \<Rightarrow> 'c sdk_client \<Rightarrow> sdk_resource_metrics \<Rightarrow> 'c sdk_exporter \<Rightarrow>
    (go_panic, sdk_error list \<times> 'c sdk_exporter) res" where
  "sdk_exportTimeSeries env opts cl rm st =
     res_bind (recordsToTspbs env opts (ss_cache st) rm) (\<lambda>(tss, errs).
       if tss = [] then Inr (errs, st)
       else let (es, st) = send_batches opts cl (chunks sdk_sendBatchSize tss) st in Inr (errs @ es, st))"

text \<open>\<open>Export\<close>: no error is the empty list.\<close>

definition Export :: "sdk_env \<Rightarrow> sdk_options \<Rightarrow> 'c sdk_client \<Rightarrow>
    (descriptor_cache \<Rightarrow> (metric_key \<times> metric_descriptor) list) \<Rightarrow> sdk_resource_metrics \<Rightarrow> 'c sdk_exporter \<Rightarrow>
    (go_panic, sdk_error list \<times> 'c sdk_exporter) res" where
  "Export env opts cl order rm st =
     (if ss_shutdown st then Inr ([ShutdownError], st)
      else let (e1, st) = sdk_exportMetricDescriptor env opts cl order rm st in
        res_bind (sdk_exportTimeSeries env opts cl rm st) (\<lambda>(e2, st). Inr (e1 @ e2, st)))"

text \<open>\<open>Shutdown\<close> closes the client once; \<open>closing\<close> are the errors of the context and of closing.\<close>

definition sdk_Shutdown :: "sdk_error list \<Rightarrow> 'c sdk_exporter \<Rightarrow> sdk_error list \<times> 'c sdk_exporter" where
  "sdk_Shutdown closing st = (if ss_shutdown st then ([ShutdownError], st) else (closing, st\<lparr>ss_shutdown := True\<rparr>))"

subsection \<open>Options\<close>

definition WithProjectID :: "string \<Rightarrow> sdk_options \<Rightarrow> sdk_options" where
  "WithProjectID i opts = opts\<lparr>so_project := i\<rparr>"

definition WithDestinationProjectQuota :: "sdk_options \<Rightarrow> sdk_options" where
  "WithDestinationProjectQuota opts = opts\<lparr>so_quota := True\<rparr>"

definition WithMetricDescriptorTypeFormatter :: "(sdk_metric \<Rightarrow> string) \<Rightarrow> sdk_options \<Rightarrow> sdk_options" where
  "WithMetricDescriptorTypeFormatter f opts = opts\<lparr>so_formatter := Some f\<rparr>"

definition WithFilteredResourceAttributes :: "(key_value \<Rightarrow> bool) option \<Rightarrow> sdk_options \<Rightarrow> sdk_options" where
  "WithFilteredResourceAttributes f opts = opts\<lparr>so_filter := f\<rparr>"

definition WithDisableCreateMetricDescriptors :: "sdk_options \<Rightarrow> sdk_options" where
  "WithDisableCreateMetricDescriptors opts = opts\<lparr>so_disable_descriptors := True\<rparr>"

definition WithSumOfSquaredDeviation :: "sdk_options \<Rightarrow> sdk_options" where
  "WithSumOfSquaredDeviation opts = opts\<lparr>so_deviation := True\<rparr>"

definition WithCreateServiceTimeSeries :: "sdk_options \<Rightarrow> sdk_options" where
  "WithCreateServiceTimeSeries opts = opts\<lparr>so_service_series := True, so_disable_descriptors := True\<rparr>"

definition WithMonitoredResourceDescription :: "string \<Rightarrow> string list \<Rightarrow> sdk_options \<Rightarrow> sdk_options" where
  "WithMonitoredResourceDescription t ls opts = opts\<lparr>so_mr_type := t, so_mr_labels := set ls\<rparr>"

definition default_options :: sdk_options where
  "default_options = \<lparr>so_project = [], so_formatter = None, so_filter = Some DefaultResourceAttributesFilter,
     so_mr_type = [], so_mr_labels = {}, so_quota = False, so_disable_descriptors = False, so_deviation = False,
     so_service_series = False\<rparr>"

text \<open>\<open>client\<close> is the error of creating the client and \<open>c\<close> its first state.\<close>

definition newMetricExporter :: "string option \<Rightarrow> 'c \<Rightarrow> sdk_options \<Rightarrow> string + 'c sdk_exporter" where
  "newMetricExporter client c opts =
     (if trim_space (so_project opts) = [] then Inl ''expecting a non-blank ProjectID''
      else (case client of Some e \<Rightarrow> Inl e
        | None \<Rightarrow> Inr \<lparr>ss_client = c, ss_cache = Map.empty, ss_shutdown = False\<rparr>))"

text \<open>\<open>New\<close>: \<open>creds\<close> is the outcome of looking up the default credentials.\<close>

definition New :: "string + string \<Rightarrow> string option \<Rightarrow> 'c \<Rightarrow> (sdk_options \<Rightarrow> sdk_options) list \<Rightarrow>
    string + sdk_options \<times> 'c sdk_exporter" where
  "New creds client c options =
     (let o1 = fold (\<lambda>f. f) options default_options in
      case (if so_project o1 = []
        then (case creds of Inl e \<Rightarrow> Inl (''failed to find Google Cloud credentials: '' @ e)
          | Inr p \<Rightarrow> if p = [] then Inl ''google cloud monitoring: no project found with application default credentials''
              else Inr (o1\<lparr>so_project := p\<rparr>))
        else Inr o1) of
        Inl e \<Rightarrow> Inl e
      | Inr o2 \<Rightarrow> (case newMetricExporter client c o2 of Inl e \<Rightarrow> Inl e | Inr st \<Rightarrow> Inr (o2, st)))"

subsection \<open>Series and their descriptors\<close>

lemma sdk_points_all:
  assumes "sdk_points conv label ps = Inr (tss, errs)"
    and "\<And>p ts. p \<in> set ps \<Longrightarrow> conv p = Inr (Inr ts) \<Longrightarrow> P (label p ts)"
  shows "list_all P tss"
  using assms
proof (induction ps arbitrary: tss errs)
  case (Cons p ps)
  obtain r rest es where r: "conv p = Inr r" "sdk_points conv label ps = Inr (rest, es)"
    "(case r of Inl e \<Rightarrow> Inr (rest, e @ es) | Inr ts \<Rightarrow> Inr (label p ts # rest, es)) = (Inr (tss, errs) :: (go_panic, _) res)"
    using Cons.prems(1) by (auto simp: res_bind_Inr_iff)
  have "list_all P rest" using Cons.IH [OF r(2)] Cons.prems(2) by simp
  with r Cons.prems(2) [of p] show ?case by (auto split: sum.splits)
qed simp

definition normal_keys :: "sdk_env \<Rightarrow> key_value list \<Rightarrow> string set" where
  "normal_keys env attrs = (\<lambda>kv. normalizeLabelKey (me_unicode env) (fst kv)) ` set attrs"

lemma label_pairs_keys: "fst ` set (label_pairs env attrs) = normal_keys env attrs"
  by (auto simp: label_pairs_def normal_keys_def image_image case_prod_beta)

lemma metric_labels_dom:
  "dom (snd (recordToMpb env opts cache m attrs library extra)) = normal_keys env extra \<union> normal_keys env attrs"
  by (simp add: recordToMpb_def dom_put_all label_pairs_keys)

lemma sdk_addAttributes_keys:
  assumes "seen = ld_key ` set ls" "sdk_addAttributes (me_unicode env) attrs ls seen = (ls', seen')"
  shows "seen' = ld_key ` set ls' \<and> ld_key ` set ls' = ld_key ` set ls \<union> normal_keys env attrs"
  using assms
proof (induction attrs arbitrary: ls seen)
  case (Cons kv attrs)
  obtain k v where kv: "kv = (k, v)" by (cases kv)
  let ?n = "normalizeLabelKey (me_unicode env) k"
  have keys: "normal_keys env (kv # attrs) = insert ?n (normal_keys env attrs)" by (simp add: normal_keys_def kv)
  show ?case
  proof (cases "?n \<in> seen")
    case True
    then have "sdk_addAttributes (me_unicode env) attrs ls seen = (ls', seen')" using Cons.prems(2) by (simp add: kv)
    from Cons.IH [OF Cons.prems(1) this]
    have rest: "seen' = ld_key ` set ls'" "ld_key ` set ls' = ld_key ` set ls \<union> normal_keys env attrs" by simp_all
    have "?n \<in> ld_key ` set ls" using True by (simp only: Cons.prems(1))
    then have "ld_key ` set ls \<union> insert ?n (normal_keys env attrs) = ld_key ` set ls \<union> normal_keys env attrs"
      by (simp only: Un_insert_right insert_absorb Un_iff simp_thms)
    with rest show ?thesis by (simp only: keys)
  next
    case False
    let ?ls = "ls @ [plain_label ?n]"
    have "sdk_addAttributes (me_unicode env) attrs ?ls (insert ?n seen) = (ls', seen')"
      using Cons.prems(2) False by (simp add: kv)
    moreover have new: "insert ?n seen = ld_key ` set ?ls" using Cons.prems(1) by (simp add: plain_label_def)
    ultimately have rest: "seen' = ld_key ` set ls'" "ld_key ` set ls' = ld_key ` set ?ls \<union> normal_keys env attrs"
      using Cons.IH [of "insert ?n seen" ?ls] by simp_all
    have "ld_key ` set ?ls = insert ?n (ld_key ` set ls)" by (simp add: plain_label_def)
    with rest show ?thesis by (simp only: keys Un_insert_left Un_insert_right)
  qed
qed (simp add: normal_keys_def)

lemma fold_addAttributes_keys:
  assumes "seen = ld_key ` set ls"
  shows "ld_key ` set (fst (foldl (\<lambda>(ls, seen) attrs. sdk_addAttributes (me_unicode env) attrs ls seen) (ls, seen) ass)) =
    ld_key ` set ls \<union> (\<Union>attrs \<in> set ass. normal_keys env attrs)"
  using assms
proof (induction ass arbitrary: ls seen)
  case (Cons attrs ass)
  obtain ls' seen' where step: "sdk_addAttributes (me_unicode env) attrs ls seen = (ls', seen')" by fastforce
  have next_step: "seen' = ld_key ` set ls'" "ld_key ` set ls' = ld_key ` set ls \<union> normal_keys env attrs"
    using sdk_addAttributes_keys [OF Cons.prems step] by simp_all
  from Cons.IH [OF next_step(1)] show ?case by (simp add: step next_step(2) Un_assoc)
qed simp

lemma descriptor_keys_of:
  "ld_key ` set (sdk_labelDescriptors env m extra) =
     normal_keys env extra \<union> (\<Union>attrs \<in> set (described_attributes (sm_data m)). normal_keys env attrs)"
  unfolding sdk_labelDescriptors_def by (subst fold_addAttributes_keys) simp_all

lemma interval_result:
  assumes "toNonemptyTimeIntervalpb start fin = Inr (s, e)"
  obtains t where "s = timestamp_new start" "e = timestamp_new t" "start + 1000000 \<le> t"
    "check_valid s = []" "check_valid e = []"
proof -
  let ?t = "if go_quot (time_sub fin start) 1000000 \<le> 1 then start + 1000000 else fin"
  have parts: "s = timestamp_new start" "e = timestamp_new ?t" "check_valid s = []" "check_valid e = []"
    using assms by (auto simp: toNonemptyTimeIntervalpb_def Let_def split: if_splits)
  have late: "start + 1000000 \<le> ?t"
    by (auto simp: go_quot_def time_sub_def split: if_splits)
  show thesis by (rule that [OF parts(1,2) late parts(3,4)])
qed

definition has_kind :: "metric_kind \<times> value_type \<Rightarrow> time_series \<Rightarrow> bool" where
  "has_kind kv ts \<longleftrightarrow> ts_kind ts = fst kv \<and> ts_value_type ts = snd kv"

text \<open>One point whose interval is at least a millisecond long when the series is cumulative.\<close>

definition good_interval :: "ts_point \<Rightarrow> bool" where
  "good_interval p \<longleftrightarrow> check_valid (tp_end p) = [] \<and> (case tp_start p of
     None \<Rightarrow> True
   | Some s \<Rightarrow> check_valid s = [] \<and> (\<exists>a b. s = timestamp_new a \<and> tp_end p = timestamp_new b \<and> a + 1000000 \<le> b))"

definition good_points :: "time_series \<Rightarrow> bool" where
  "good_points ts \<longleftrightarrow> (case ts_points ts of
     [p] \<Rightarrow> good_interval p \<and> (tp_start p = None \<longleftrightarrow> ts_kind ts = GAUGE) | _ \<Rightarrow> False)"

lemma with_metric_same [simp]:
  "ts_kind (with_metric mt ts) = ts_kind ts" "ts_value_type (with_metric mt ts) = ts_value_type ts"
  "ts_unit (with_metric mt ts) = ts_unit ts" "ts_points (with_metric mt ts) = ts_points ts"
  "ts_resource (with_metric mt ts) = ts_resource ts"
  "ts_metric_type (with_metric mt ts) = fst mt" "ts_labels (with_metric mt ts) = snd mt"
  by (simp_all add: with_metric_def)

lemma gauge_series:
  assumes "gaugeToTimeSeries value_of p m mr = Inr ts" "\<And>x. snd (value_of x) = vt"
  shows "has_kind (GAUGE, vt) ts \<and> good_points ts \<and> ts_unit ts = sm_unit m \<and> ts_resource ts = mr"
  using assms by (auto simp: gaugeToTimeSeries_def has_kind_def good_points_def good_interval_def one_point_def
      Let_def case_prod_beta split: if_splits)

lemma interval_points:
  assumes "toNonemptyTimeIntervalpb a b = Inr (s, e)"
  shows "has_kind (CUMULATIVE, vt) (one_point m mr CUMULATIVE vt (Some s) e v) \<and>
    good_points (one_point m mr CUMULATIVE vt (Some s) e v) \<and>
    ts_unit (one_point m mr CUMULATIVE vt (Some s) e v) = sm_unit m \<and> ts_resource (one_point m mr CUMULATIVE vt (Some s) e v) = mr"
  by (rule interval_result [OF assms])
    (auto simp: has_kind_def good_points_def good_interval_def one_point_def)

lemma sum_series:
  assumes "sumToTimeSeries value_of p m mr = Inr ts" "\<And>x. snd (value_of x) = vt"
  shows "has_kind (CUMULATIVE, vt) ts \<and> good_points ts \<and> ts_unit ts = sm_unit m \<and> ts_resource ts = mr"
proof -
  obtain s e where se: "toNonemptyTimeIntervalpb (sd_start p) (sd_time p) = Inr (s, e)"
    "ts = one_point m mr CUMULATIVE vt (Some s) e (fst (value_of (sd_value p)))"
    using assms by (auto simp: sumToTimeSeries_def res_bind_Inr_iff Let_def case_prod_beta)
  from interval_points [OF se(1)] show ?thesis by (simp only: se(2))
qed

lemma histogram_series:
  assumes "sdk_histogramToTimeSeries env to_float p m mr dev pid = Inr (Inr ts)"
  shows "has_kind (CUMULATIVE, DISTRIBUTION) ts \<and> good_points ts \<and> ts_unit ts = sm_unit m \<and> ts_resource ts = mr"
proof -
  obtain s e d where se: "toNonemptyTimeIntervalpb (sh_start p) (sh_time p) = Inr (s, e)"
    "ts = one_point m mr CUMULATIVE DISTRIBUTION (Some s) e (DistributionValue d)"
    using assms by (auto simp: sdk_histogramToTimeSeries_def res_bind_Inr_iff Let_def split: sum.splits prod.splits)
  from interval_points [OF se(1)] show ?thesis by (simp only: se(2))
qed

lemma exp_series:
  assumes "expHistogramToTimeSeries env to_float p m mr pid = Inr ts"
  shows "has_kind (CUMULATIVE, DISTRIBUTION) ts \<and> good_points ts \<and> ts_unit ts = sm_unit m \<and> ts_resource ts = mr"
proof -
  obtain s e d where se: "toNonemptyTimeIntervalpb (sx_start p) (sx_time p) = Inr (s, e)"
    "ts = one_point m mr CUMULATIVE DISTRIBUTION (Some s) e (DistributionValue d)"
    using assms by (auto simp: expHistogramToTimeSeries_def res_bind_Inr_iff)
  from interval_points [OF se(1)] show ?thesis by (simp only: se(2))
qed

text \<open>Kind and attributes of the series, exponential histograms included.\<close>

fun series_kind :: "sdk_data \<Rightarrow> metric_kind \<times> value_type" where
  "series_kind (IntExpHistogram ps) = (CUMULATIVE, DISTRIBUTION)"
| "series_kind (FloatExpHistogram ps) = (CUMULATIVE, DISTRIBUTION)"
| "series_kind d = recordToMdpbKindType d"

fun series_attributes :: "sdk_data \<Rightarrow> key_value list list" where
  "series_attributes (IntExpHistogram ps) = List.map sx_attrs ps"
| "series_attributes (FloatExpHistogram ps) = List.map sx_attrs ps"
| "series_attributes d = described_attributes d"

definition sdk_series_ok :: "sdk_env \<Rightarrow> sdk_options \<Rightarrow> descriptor_cache \<Rightarrow> sdk_metric \<Rightarrow> monitored_resource \<Rightarrow> string \<Rightarrow>
    key_value list \<Rightarrow> time_series \<Rightarrow> bool" where
  "sdk_series_ok env opts cache m mr library extra ts \<longleftrightarrow>
     has_kind (series_kind (sm_data m)) ts \<and> good_points ts \<and> ts_unit ts = sm_unit m \<and> ts_resource ts = mr \<and>
     ts_metric_type ts = metric_type_of opts cache m library \<and>
     (\<exists>attrs \<in> set (series_attributes (sm_data m)). dom (ts_labels ts) = normal_keys env extra \<union> normal_keys env attrs)"

lemma labelled_ok:
  assumes "has_kind kind ts \<and> good_points ts \<and> ts_unit ts = sm_unit m \<and> ts_resource ts = mr"
    and "kind = series_kind (sm_data m)" "attrs \<in> set (series_attributes (sm_data m))"
  shows "sdk_series_ok env opts cache m mr library extra (with_metric (recordToMpb env opts cache m attrs library extra) ts)"
  unfolding sdk_series_ok_def with_metric_same metric_labels_dom has_kind_def good_points_def
  using assms by (auto simp: has_kind_def good_points_def recordToMpb_def)

lemma number_kinds: "snd (int_value i) = INT64" "snd (float_value d) = DOUBLE"
  by (simp_all add: int_value_def float_value_def)

lemma record_series_ok:
  assumes "recordToTspb env opts cache m mr library extra = Inr (tss, errs)"
  shows "list_all (sdk_series_ok env opts cache m mr library extra) tss"
proof (cases "sm_data m")
  case (IntGauge ps)
  with assms show ?thesis unfolding recordToTspb_def Let_def IntGauge sdk_data.case
    by (elim sdk_points_all) (rule labelled_ok [OF gauge_series [OF _ number_kinds(1)]], simp_all add: IntGauge)
next
  case (FloatGauge ps)
  with assms show ?thesis unfolding recordToTspb_def Let_def FloatGauge sdk_data.case
    by (elim sdk_points_all) (rule labelled_ok [OF gauge_series [OF _ number_kinds(2)]], simp_all add: FloatGauge)
next
  case (IntSum mono ps)
  with assms show ?thesis unfolding recordToTspb_def Let_def IntSum sdk_data.case
  proof (elim sdk_points_all)
    fix p ts
    assume p: "p \<in> set ps" and ts: "Inr (if mono then sumToTimeSeries int_value p m mr else gaugeToTimeSeries int_value p m mr) = Inr (Inr ts)"
    show "sdk_series_ok env opts cache m mr library extra (with_metric (recordToMpb env opts cache m (sd_attrs p) library extra) ts)"
    proof (cases mono)
      case True
      show ?thesis by (rule labelled_ok [OF sum_series [OF _ number_kinds(1)]]) (use ts p True IntSum in simp_all)
    next
      case False
      show ?thesis by (rule labelled_ok [OF gauge_series [OF _ number_kinds(1)]]) (use ts p False IntSum in simp_all)
    qed
  qed
next
  case (FloatSum mono ps)
  with assms show ?thesis unfolding recordToTspb_def Let_def FloatSum sdk_data.case
  proof (elim sdk_points_all)
    fix p ts
    assume p: "p \<in> set ps" and ts: "Inr (if mono then sumToTimeSeries float_value p m mr else gaugeToTimeSeries float_value p m mr) = Inr (Inr ts)"
    show "sdk_series_ok env opts cache m mr library extra (with_metric (recordToMpb env opts cache m (sd_attrs p) library extra) ts)"
    proof (cases mono)
      case True
      show ?thesis by (rule labelled_ok [OF sum_series [OF _ number_kinds(2)]]) (use ts p True FloatSum in simp_all)
    next
      case False
      show ?thesis by (rule labelled_ok [OF gauge_series [OF _ number_kinds(2)]]) (use ts p False FloatSum in simp_all)
    qed
  qed
next
  case (IntHistogram ps)
  with assms show ?thesis unfolding recordToTspb_def Let_def IntHistogram sdk_data.case
    by (elim sdk_points_all) (rule labelled_ok [OF histogram_series], simp_all add: IntHistogram)
next
  case (FloatHistogram ps)
  with assms show ?thesis unfolding recordToTspb_def Let_def FloatHistogram sdk_data.case
    by (elim sdk_points_all) (rule labelled_ok [OF histogram_series], simp_all add: FloatHistogram)
next
  case (IntExpHistogram ps)
  with assms show ?thesis unfolding recordToTspb_def Let_def IntExpHistogram sdk_data.case
    by (elim sdk_points_all) (rule labelled_ok [OF exp_series], simp_all add: IntExpHistogram)
next
  case (FloatExpHistogram ps)
  with assms show ?thesis unfolding recordToTspb_def Let_def FloatExpHistogram sdk_data.case
    by (elim sdk_points_all) (rule labelled_ok [OF exp_series], simp_all add: FloatExpHistogram)
qed (use assms in \<open>simp_all add: recordToTspb_def\<close>)

definition exponential :: "sdk_data \<Rightarrow> bool" where
  "exponential d \<longleftrightarrow> (case d of IntExpHistogram _ \<Rightarrow> True | FloatExpHistogram _ \<Rightarrow> True | _ \<Rightarrow> False)"

lemma described_when_plain:
  assumes "\<not> exponential d"
  shows "series_kind d = recordToMdpbKindType d" "series_attributes d = described_attributes d"
  using assms by (cases d; simp add: exponential_def)+

lemma record_series_member:
  assumes "recordToTspb env opts cache m mr library extra = Inr (tss, errs)" "ts \<in> set tss"
  shows "sdk_series_ok env opts cache m mr library extra ts"
  using record_series_ok [OF assms(1)] assms(2) by (simp add: list_all_iff)

text \<open>C30. Except for exponential histograms, each time series made from a metric agrees with the metric's descriptor
in kind, value type, unit and, while no descriptor is cached, in type, and each of its labels is described.\<close>

theorem sdk_series_match_descriptor:
  assumes "recordToTspb env opts cache m mr library extra = Inr (tss, errs)" "ts \<in> set tss"
    and "\<not> exponential (sm_data m)"
  shows "ts_kind ts = md_kind (recordToMdpb env opts m extra) \<and>
    ts_value_type ts = md_value_type (recordToMdpb env opts m extra) \<and>
    ts_unit ts = md_unit (recordToMdpb env opts m extra) \<and>
    (cache (keyOf m library) = None \<longrightarrow> ts_metric_type ts = md_type (recordToMdpb env opts m extra)) \<and>
    dom (ts_labels ts) \<subseteq> ld_key ` set (md_labels (recordToMdpb env opts m extra))"
proof -
  note ok = record_series_member [OF assms(1,2), unfolded sdk_series_ok_def described_when_plain [OF assms(3)]]
  have "dom (ts_labels ts) \<subseteq> ld_key ` set (sdk_labelDescriptors env m extra)"
    using ok unfolding descriptor_keys_of by blast
  with ok show ?thesis
    by (simp add: recordToMdpb_def Let_def case_prod_beta has_kind_def metric_type_of_def)
qed

text \<open>The descriptor of an exponential histogram has neither kind nor value type and describes none of the
attributes of its points, although its time series are cumulative distributions labelled with them.\<close>

theorem exponential_histogram_is_not_described:
  assumes "exponential (sm_data m)"
    and "recordToTspb env opts cache m mr library extra = Inr (tss, errs)" "ts \<in> set tss"
  shows "md_kind (recordToMdpb env opts m extra) = KIND_UNSPECIFIED \<and>
    md_value_type (recordToMdpb env opts m extra) = TYPE_UNSPECIFIED \<and>
    ld_key ` set (md_labels (recordToMdpb env opts m extra)) = normal_keys env extra \<and>
    ts_kind ts = CUMULATIVE \<and> ts_value_type ts = DISTRIBUTION \<and>
    (\<exists>attrs \<in> set (series_attributes (sm_data m)). normal_keys env attrs \<subseteq> dom (ts_labels ts))"
proof -
  note ok = record_series_member [OF assms(2,3), unfolded sdk_series_ok_def]
  have kinds: "series_kind (sm_data m) = (CUMULATIVE, DISTRIBUTION)" "described_attributes (sm_data m) = []"
    "recordToMdpbKindType (sm_data m) = (KIND_UNSPECIFIED, TYPE_UNSPECIFIED)"
    using assms(1) by (cases "sm_data m"; simp add: exponential_def)+
  have "ld_key ` set (sdk_labelDescriptors env m extra) = normal_keys env extra"
    by (simp add: descriptor_keys_of kinds(2))
  moreover have "\<exists>attrs \<in> set (series_attributes (sm_data m)). normal_keys env attrs \<subseteq> dom (ts_labels ts)"
    using ok by blast
  ultimately show ?thesis using ok by (simp add: recordToMdpb_def Let_def kinds has_kind_def)
qed

lemma records_loop_all:
  assumes "records_loop f xs = Inr (tss, errs)"
    and "\<And>x ts es. x \<in> set xs \<Longrightarrow> f x = Inr (ts, es) \<Longrightarrow> list_all P ts"
  shows "list_all P tss"
  using assms
proof (induction xs arbitrary: tss errs)
  case (Cons x xs)
  obtain ts e rest es where x: "f x = Inr (ts, e)" "records_loop f xs = Inr (rest, es)" "tss = ts @ rest"
    using Cons.prems(1) by (auto simp: res_bind_Inr_iff)
  have "list_all P rest" by (rule Cons.IH [OF x(2)]) (use Cons.prems(2) in \<open>meson list.set_intros(2)\<close>)
  moreover have "list_all P ts" using Cons.prems(2) [OF _ x(1)] by simp
  ultimately show ?case by (simp add: x(3))
qed simp

text \<open>C31. Every time series of a batch carries the resource of the batch and exactly one point with valid timestamps;
it has a start exactly when it is not a gauge, and then its interval lasts at least a millisecond.\<close>

theorem sdk_points_have_valid_intervals:
  assumes "recordsToTspbs env opts cache rm = Inr (tss, errs)" "ts \<in> set tss"
  shows "good_points ts \<and> ts_resource ts = resourceToMonitoredResourcepb opts (sr_resource rm)"
proof -
  let ?mr = "resourceToMonitoredResourcepb opts (sr_resource rm)"
  have "list_all (\<lambda>ts. good_points ts \<and> ts_resource ts = ?mr) tss"
    using assms(1) unfolding recordsToTspbs_def Let_def
  proof (rule records_loop_all)
    fix x ts es
    assume "(case x of (library, m) \<Rightarrow> recordToTspb env opts cache m ?mr library (extraLabelsFromResource opts (sr_resource rm))) = Inr (ts, es)"
    then have "list_all (sdk_series_ok env opts cache (snd x) ?mr (fst x) (extraLabelsFromResource opts (sr_resource rm))) ts"
      by (intro record_series_ok) (simp add: case_prod_beta)
    then show "list_all (\<lambda>ts. good_points ts \<and> ts_resource ts = ?mr) ts"
      by (simp add: list_all_iff sdk_series_ok_def)
  qed
  with assms(2) show ?thesis by (simp add: list_all_iff)
qed

subsection \<open>Exporting\<close>

datatype sdk_call = GetCall "string option" string | CreateCall "string option" md_request
  | SeriesCall series_call "string option" ts_request

definition recording_sdk :: "'c sdk_client \<Rightarrow> ('c \<times> sdk_call list) sdk_client" where
  "recording_sdk cl = \<lparr>
     sc_get = (\<lambda>q n c. let (e, d) = sc_get cl q n (fst c) in (e, d, snd c @ [GetCall q n])),
     sc_create = (\<lambda>q r c. let (e, d) = sc_create cl q r (fst c) in (e, d, snd c @ [CreateCall q r])),
     sc_series = (\<lambda>k q r c. let (e, d) = sc_series cl k q r (fst c) in (e, d, snd c @ [SeriesCall k q r]))\<rparr>"

fun series_of_call :: "sdk_call \<Rightarrow> (series_call \<times> string option \<times> ts_request) option" where
  "series_of_call (SeriesCall k q r) = Some (k, q, r)"
| "series_of_call _ = None"

definition series_calls :: "('c \<times> sdk_call list) sdk_exporter \<Rightarrow> (series_call \<times> string option \<times> ts_request) list" where
  "series_calls st = List.map_filter series_of_call (snd (ss_client st))"

lemma map_filter_append: "List.map_filter f (xs @ ys) = List.map_filter f xs @ List.map_filter f ys"
  by (simp add: List.map_filter_def)

lemma create_no_series:
  "List.map_filter series_of_call (snd (snd (createMetricDescriptorIfNeeded opts (recording_sdk cl) md c))) =
     List.map_filter series_of_call (snd c)"
  by (simp add: createMetricDescriptorIfNeeded_def recording_sdk_def Let_def case_prod_beta map_filter_append List.map_filter_def)

lemma offer_no_series: "series_calls (snd (offer_all opts (recording_sdk cl) mds st)) = series_calls st"
  by (induction opts "recording_sdk cl" mds st rule: offer_all.induct)
    (simp_all add: Let_def case_prod_beta series_calls_def create_no_series)

definition series_request :: "sdk_options \<Rightarrow> time_series list \<Rightarrow> series_call \<times> string option \<times> ts_request" where
  "series_request opts b = (if so_service_series opts then CreateServiceTimeSeries else CreateTimeSeries,
     sdk_quota opts, \<lparr>rq_name = ''projects/'' @ so_project opts, rq_series = b\<rparr>)"

lemma send_batches_calls:
  "series_calls (snd (send_batches opts (recording_sdk cl) bs st)) = series_calls st @ List.map (series_request opts) bs"
  by (induction bs arbitrary: st)
    (simp_all add: Let_def case_prod_beta series_calls_def recording_sdk_def map_filter_append series_request_def
      List.map_filter_simps del: append.simps)

lemma send_batches_cache [frame]: "ss_cache (snd (send_batches opts cl bs st)) = ss_cache st"
  by (induction bs arbitrary: st) (simp_all add: Let_def case_prod_beta)

text \<open>Histograms as the SDK makes them: one bucket more than bounds.\<close>

definition shaped_hist :: "'n sdk_histogram \<Rightarrow> bool" where
  "shaped_hist h \<longleftrightarrow> length (sh_buckets h) = Suc (length (sh_bounds h))"

fun shaped_data :: "sdk_data \<Rightarrow> bool" where
  "shaped_data (IntHistogram ps) = list_all shaped_hist ps"
| "shaped_data (FloatHistogram ps) = list_all shaped_hist ps"
| "shaped_data _ = True"

lemma sdk_points_total:
  assumes "\<And>p. p \<in> set ps \<Longrightarrow> \<exists>r. conv p = Inr r"
  shows "\<exists>tss errs. sdk_points conv label ps = Inr (tss, errs)"
  using assms
proof (induction ps)
  case (Cons p ps)
  obtain r where r: "conv p = Inr r" using Cons.prems [of p] by auto
  obtain tss errs where "sdk_points conv label ps = Inr (tss, errs)"
    using Cons.IH Cons.prems by (meson list.set_intros(2))
  with r show ?case by (cases r) simp_all
qed simp

lemma histogram_total:
  assumes "shaped_hist p"
  shows "\<exists>r. sdk_histogramToTimeSeries env to_float p m mr dev pid = Inr r"
proof -
  let ?d = "histToDistribution env to_float p pid"
  have "length (sh_bounds p) \<le> length (di_buckets ?d)"
    using assms by (simp add: shaped_hist_def histToDistribution_def)
  then obtain r where "deviation_loop (di_mean ?d) (sh_bounds p) (di_buckets ?d) f_zero (di_deviation ?d) = Inr r"
    using deviation_loop_ok by blast
  then have "\<exists>d. setSumOfSquaredDeviation p ?d = Inr d"
    by (cases r) (simp add: setSumOfSquaredDeviation_def)
  then show ?thesis
    by (auto simp: sdk_histogramToTimeSeries_def Let_def split: sum.split)
qed

lemma record_total:
  assumes "shaped_data (sm_data m)"
  shows "\<exists>tss errs. recordToTspb env opts cache m mr library extra = Inr (tss, errs)"
  using assms
  by (cases "sm_data m") (auto simp: recordToTspb_def Let_def list_all_iff intro!: sdk_points_total histogram_total)

lemma records_loop_total:
  assumes "\<And>x. x \<in> set xs \<Longrightarrow> \<exists>ts es. f x = Inr (ts, es)"
  shows "\<exists>tss errs. records_loop f xs = Inr (tss, errs)"
  using assms
proof (induction xs)
  case (Cons x xs)
  obtain ts es where x: "f x = Inr (ts, es)" using Cons.prems [of x] by auto
  obtain tss errs where "records_loop f xs = Inr (tss, errs)" using Cons.IH Cons.prems by (meson list.set_intros(2))
  with x show ?case by simp
qed simp

lemma records_total:
  assumes "list_all (\<lambda>(library, m). shaped_data (sm_data m)) (sdk_metrics rm)"
  shows "\<exists>tss errs. recordsToTspbs env opts cache rm = Inr (tss, errs)"
  unfolding recordsToTspbs_def Let_def
  using assms by (intro records_loop_total) (auto simp: list_all_iff intro!: record_total)

text \<open>C29. On well-formed histograms an export before shutdown never panics and sends every time series made from the
batch exactly once, in order, in requests of one to two hundred series to the configured project.\<close>

theorem sdk_export_sends_every_series_once:
  assumes "\<not> ss_shutdown st" "list_all (\<lambda>(library, m). shaped_data (sm_data m)) (sdk_metrics rm)"
  shows "\<exists>es st' cache tss errs bs. Export env opts (recording_sdk cl) order rm st = Inr (es, st') \<and>
    recordsToTspbs env opts cache rm = Inr (tss, errs) \<and> ss_cache st' = cache \<and> concat bs = tss \<and>
    list_all (\<lambda>b. 0 < length b \<and> length b \<le> sdk_sendBatchSize) bs \<and>
    series_calls st' = series_calls st @ List.map (series_request opts) bs"
proof -
  obtain e1 st1 where offered: "sdk_exportMetricDescriptor env opts (recording_sdk cl) order rm st = (e1, st1)" by fastforce
  have calls1: "series_calls st1 = series_calls st"
  proof (cases "so_disable_descriptors opts")
    case True
    then show ?thesis using offered by (simp add: sdk_exportMetricDescriptor_def)
  next
    case False
    then have "st1 = snd (offer_all opts (recording_sdk cl) (order (new_descriptors env opts (ss_cache st)
        (extraLabelsFromResource opts (sr_resource rm)) (sdk_metrics rm) Map.empty)) st)"
      using offered by (simp add: sdk_exportMetricDescriptor_def)
    then show ?thesis by (simp only: offer_no_series)
  qed
  obtain tss errs where records: "recordsToTspbs env opts (ss_cache st1) rm = Inr (tss, errs)"
    using records_total [OF assms(2)] by blast
  let ?bs = "chunks sdk_sendBatchSize tss"
  obtain e2 st2 where sent: "send_batches opts (recording_sdk cl) ?bs st1 = (e2, st2)" by fastforce
  have calls2: "series_calls st2 = series_calls st1 @ List.map (series_request opts) ?bs"
    using send_batches_calls [of opts cl ?bs st1] by (simp add: sent)
  have cache2: "ss_cache st2 = ss_cache st1" using send_batches_cache [of opts "recording_sdk cl" ?bs st1] by (simp add: sent)
  have "sdk_exportTimeSeries env opts (recording_sdk cl) rm st1 = Inr (errs @ e2, st2)"
  proof (cases "tss = []")
    case True
    then have "[] = e2" "st1 = st2" using sent by simp_all
    then have "Inr (errs, st1) = (Inr (errs @ e2, st2) :: (go_panic, _) res)" by auto
    with True show ?thesis by (simp only: sdk_exportTimeSeries_def records res_bind_simps prod.case simp_thms if_True)
  next
    case False
    then show ?thesis by (simp add: sdk_exportTimeSeries_def records sent)
  qed
  then have "\<exists>es. Export env opts (recording_sdk cl) order rm st = Inr (es, st2)"
    by (simp add: Export_def assms(1) offered)
  then obtain es where "Export env opts (recording_sdk cl) order rm st = Inr (es, st2)" ..
  moreover have "concat ?bs = tss" by (rule concat_chunks) (simp add: sdk_sendBatchSize_def)
  moreover have "list_all (\<lambda>b. 0 < length b \<and> length b \<le> sdk_sendBatchSize) ?bs"
    using chunks_size by (auto simp: list_all_iff)
  ultimately show ?thesis using records cache2 calls1 calls2
    by (intro exI [of _ es] exI [of _ st2] exI [of _ "ss_cache st1"] exI [of _ tss] exI [of _ errs] exI [of _ ?bs]) simp
qed

subsection \<open>Descriptors\<close>

lemma new_descriptors_dom:
  "dom (new_descriptors env opts cache extra ms mds) = dom mds \<union> ((\<lambda>(library, m). keyOf m library) ` set ms - dom cache)"
proof (induction ms arbitrary: mds)
  case (Cons x ms)
  obtain library m where x: "x = (library, m)" by (cases x)
  let ?k = "keyOf m library"
  have keys: "(\<lambda>(library, m). keyOf m library) ` set (x # ms) = insert ?k ((\<lambda>(library, m). keyOf m library) ` set ms)"
    by (simp add: x)
  show ?case
  proof (cases "cache ?k \<noteq> None \<or> mds ?k \<noteq> None")
    case True
    then have "?k \<in> dom cache \<or> ?k \<in> dom mds" by blast
    moreover have "new_descriptors env opts cache extra (x # ms) mds = new_descriptors env opts cache extra ms mds"
      using True by (simp only: x new_descriptors.simps Let_def if_True)
    ultimately show ?thesis unfolding keys by (simp only: Cons.IH) blast
  next
    case False
    let ?mds = "mds(?k \<mapsto> recordToMdpb env opts m extra)"
    have "new_descriptors env opts cache extra (x # ms) mds = new_descriptors env opts cache extra ms ?mds"
      using False by (simp only: x new_descriptors.simps Let_def if_False)
    moreover have "dom ?mds = insert ?k (dom mds)" by simp
    moreover have "?k \<notin> dom cache" using False by blast
    ultimately show ?thesis unfolding keys by (simp only: Cons.IH) blast
  qed
qed simp

lemma offer_all_cached:
  assumes "fst (offer_all opts cl mds st) = []"
  shows "dom (ss_cache (snd (offer_all opts cl mds st))) = dom (ss_cache st) \<union> fst ` set mds"
  using assms
  by (induction opts cl mds st rule: offer_all.induct)
    (auto simp: Let_def case_prod_beta call_errors_def split: option.splits)

lemma offer_all_keeps:
  assumes "ss_cache st k = Some md" "k \<notin> fst ` set mds"
  shows "ss_cache (snd (offer_all opts cl mds st)) k = Some md"
  using assms by (induction opts cl mds st rule: offer_all.induct) (auto simp: Let_def case_prod_beta)

text \<open>After descriptors were exported without error, every metric of the batch has a cached descriptor, what was
cached before is unchanged, and exporting the descriptors of the same metrics again calls nothing.\<close>

theorem sdk_descriptors_settle:
  assumes "sdk_exportMetricDescriptor env opts cl order rm st = ([], st')" "\<not> so_disable_descriptors opts"
    and "\<And>mds. finite (dom mds) \<Longrightarrow> fst ` set (order mds) = dom mds"
  shows "(\<lambda>(library, m). keyOf m library) ` set (sdk_metrics rm) \<subseteq> dom (ss_cache st') \<and>
    ss_cache st \<subseteq>\<^sub>m ss_cache st' \<and> sdk_exportMetricDescriptor env opts cl order rm st' = ([], st')"
proof -
  let ?new = "\<lambda>cache. new_descriptors env opts cache (extraLabelsFromResource opts (sr_resource rm)) (sdk_metrics rm) Map.empty"
  let ?keys = "(\<lambda>(library, m). keyOf m library) ` set (sdk_metrics rm)"
  have offered: "offer_all opts cl (order (?new (ss_cache st))) st = ([], st')"
    using assms(1,2) by (simp add: sdk_exportMetricDescriptor_def)
  have listed: "fst ` set (order (?new cache)) = ?keys - dom cache" for cache
    using assms(3) [of "?new cache"] by (simp add: new_descriptors_dom)
  have cached: "?keys \<subseteq> dom (ss_cache st')"
    using offer_all_cached [of opts cl "order (?new (ss_cache st))" st] by (simp add: offered listed)
  have kept: "ss_cache st \<subseteq>\<^sub>m ss_cache st'"
    unfolding map_le_def
  proof
    fix k assume "k \<in> dom (ss_cache st)"
    then obtain md where k: "ss_cache st k = Some md" by blast
    then have "k \<notin> fst ` set (order (?new (ss_cache st)))" unfolding listed by blast
    from offer_all_keeps [OF k this, of opts cl] show "ss_cache st k = ss_cache st' k" by (simp add: offered k)
  qed
  have "fst ` set (order (?new (ss_cache st'))) = {}" unfolding listed using cached by blast
  then have "order (?new (ss_cache st')) = []" by simp
  then have "sdk_exportMetricDescriptor env opts cl order rm st' = ([], st')"
    by (simp add: sdk_exportMetricDescriptor_def)
  with cached kept show ?thesis by blast
qed

subsection \<open>Examples\<close>

definition sdk_example_env :: sdk_env where
  "sdk_example_env = mapper_env.extend example_env \<lparr>me_emit = attr_as_string\<rparr>"

definition sdk_example_options :: sdk_options where
  "sdk_example_options = WithProjectID ''p'' default_options"

definition sdk_counter :: sdk_metric where
  "sdk_counter = \<lparr>sm_name = ''hits'', sm_description = [], sm_unit = ''1'', sm_data = IntSum True
     [\<lparr>sd_attrs = [(''code'', AString ''200'')], sd_start = 0, sd_time = 5000000000, sd_value = 7\<rparr>]\<rparr>"

definition sdk_latency :: sdk_metric where
  "sdk_latency = \<lparr>sm_name = ''latency'', sm_description = [], sm_unit = ''ms'', sm_data = FloatExpHistogram
     [\<lparr>sx_attrs = [(''code'', AString ''200'')], sx_start = 0, sx_time = 5000000000, sx_count = 3, sx_sum = f_of_int 9,
       sx_scale = 0, sx_zero_count = 1, sx_offset = 0, sx_positive = [2], sx_negative = [], sx_exemplars = []\<rparr>]\<rparr>"

definition sdk_example_batch :: sdk_resource_metrics where
  "sdk_example_batch = \<lparr>sr_resource = [(''service.name'', AString ''shop'')],
     sr_scopes = [\<lparr>sk_library = ''lib'', sk_metrics = [sdk_counter]\<rparr>]\<rparr>"

lemma example_interval: "toNonemptyTimeIntervalpb 0 5000000000 = Inr (timestamp_new 0, timestamp_new 5000000000)"
  by code_simp

lemma sdk_counter_series:
  obtains ts where "recordToTspb sdk_example_env sdk_example_options cache sdk_counter mr library extra = Inr ([ts], [])"
  by (simp add: recordToTspb_def sdk_counter_def sumToTimeSeries_def example_interval int_value_def)

lemma sdk_latency_series:
  obtains ts where "recordToTspb sdk_example_env sdk_example_options cache sdk_latency mr library extra = Inr ([ts], [])"
  by (simp add: recordToTspb_def sdk_latency_def expHistogramToTimeSeries_def example_interval)

lemma sdk_series_match_descriptor_witness:
  "\<exists>ts. recordToTspb sdk_example_env sdk_example_options Map.empty sdk_counter example_resource ''lib'' [] = Inr ([ts], []) \<and>
     ts_kind ts = md_kind (recordToMdpb sdk_example_env sdk_example_options sdk_counter [])"
proof -
  obtain ts where ts: "recordToTspb sdk_example_env sdk_example_options Map.empty sdk_counter example_resource ''lib'' [] = Inr ([ts], [])"
    using sdk_counter_series .
  have "ts \<in> set [ts]" by simp
  moreover have "\<not> exponential (sm_data sdk_counter)" by (simp add: sdk_counter_def exponential_def)
  ultimately show ?thesis using sdk_series_match_descriptor [OF ts] ts by blast
qed

lemma exponential_histogram_is_not_described_witness:
  "\<exists>ts. recordToTspb sdk_example_env sdk_example_options Map.empty sdk_latency example_resource ''lib'' [] = Inr ([ts], []) \<and>
     md_kind (recordToMdpb sdk_example_env sdk_example_options sdk_latency []) = KIND_UNSPECIFIED \<and> ts_kind ts = CUMULATIVE"
proof -
  obtain ts where ts: "recordToTspb sdk_example_env sdk_example_options Map.empty sdk_latency example_resource ''lib'' [] = Inr ([ts], [])"
    using sdk_latency_series .
  have "ts \<in> set [ts]" by simp
  moreover have "exponential (sm_data sdk_latency)" by (simp add: sdk_latency_def exponential_def)
  ultimately show ?thesis using exponential_histogram_is_not_described [OF _ ts] ts by blast
qed

lemma sdk_example_records:
  obtains ts where "recordsToTspbs sdk_example_env sdk_example_options cache sdk_example_batch = Inr ([ts], [])"
proof -
  obtain ts where "recordToTspb sdk_example_env sdk_example_options cache sdk_counter
      (resourceToMonitoredResourcepb sdk_example_options (sr_resource sdk_example_batch)) ''lib''
      (extraLabelsFromResource sdk_example_options (sr_resource sdk_example_batch)) = Inr ([ts], [])"
    using sdk_counter_series .
  then show thesis
    by (intro that [of ts]) (simp add: recordsToTspbs_def Let_def sdk_metrics_def sdk_example_batch_def)
qed

lemma sdk_points_have_valid_intervals_witness:
  "\<exists>ts. recordsToTspbs sdk_example_env sdk_example_options Map.empty sdk_example_batch = Inr ([ts], []) \<and> good_points ts"
proof -
  obtain ts where ts: "recordsToTspbs sdk_example_env sdk_example_options Map.empty sdk_example_batch = Inr ([ts], [])"
    using sdk_example_records .
  have "ts \<in> set [ts]" by simp
  from sdk_points_have_valid_intervals [OF ts this] ts show ?thesis by blast
qed

definition sdk_accepting :: "unit sdk_client" where
  "sdk_accepting = \<lparr>sc_get = (\<lambda>q n c. (Some ''not found'', c)), sc_create = (\<lambda>q r c. (None, c)),
     sc_series = (\<lambda>k q r c. (None, c))\<rparr>"

definition descriptor_order :: "descriptor_cache \<Rightarrow> (metric_key \<times> metric_descriptor) list" where
  "descriptor_order mds = List.map (\<lambda>k. (k, the (mds k))) (sorted_list_of_set (dom mds))"

lemma descriptor_order_ok: "finite (dom mds) \<Longrightarrow> fst ` set (descriptor_order mds) = dom mds"
  by (simp add: descriptor_order_def image_image)

lemma sdk_export_sends_every_series_once_witness:
  "\<exists>es st' cache tss errs bs.
     Export sdk_example_env sdk_example_options (recording_sdk sdk_accepting) descriptor_order sdk_example_batch
       \<lparr>ss_client = ((), []), ss_cache = Map.empty, ss_shutdown = False\<rparr> = Inr (es, st') \<and>
     recordsToTspbs sdk_example_env sdk_example_options cache sdk_example_batch = Inr (tss, errs) \<and> concat bs = tss"
proof -
  let ?st = "\<lparr>ss_client = ((), []), ss_cache = Map.empty, ss_shutdown = False\<rparr> :: (unit \<times> sdk_call list) sdk_exporter"
  have "\<not> ss_shutdown ?st" by simp
  moreover have "list_all (\<lambda>(library, m). shaped_data (sm_data m)) (sdk_metrics sdk_example_batch)"
    by (simp add: sdk_metrics_def sdk_example_batch_def sdk_counter_def)
  ultimately show ?thesis
    using sdk_export_sends_every_series_once [of ?st sdk_example_batch sdk_example_env sdk_example_options sdk_accepting descriptor_order]
    by blast
qed

lemma sdk_descriptors_settle_witness:
  "\<exists>st'. sdk_exportMetricDescriptor sdk_example_env sdk_example_options sdk_accepting descriptor_order sdk_example_batch
      \<lparr>ss_client = (), ss_cache = Map.empty, ss_shutdown = False\<rparr> = ([], st') \<and>
    (\<lambda>(library, m). keyOf m library) ` set (sdk_metrics sdk_example_batch) \<subseteq> dom (ss_cache st')"
proof -
  let ?st = "\<lparr>ss_client = (), ss_cache = Map.empty, ss_shutdown = False\<rparr> :: unit sdk_exporter"
  have errs: "fst (offer_all sdk_example_options sdk_accepting mds st) = []" for mds st
    by (induction sdk_example_options sdk_accepting mds st rule: offer_all.induct)
      (simp_all add: Let_def case_prod_beta createMetricDescriptorIfNeeded_def sdk_accepting_def call_errors_def)
  have enabled: "\<not> so_disable_descriptors sdk_example_options"
    by (simp add: sdk_example_options_def WithProjectID_def default_options_def)
  obtain st' where st': "sdk_exportMetricDescriptor sdk_example_env sdk_example_options sdk_accepting descriptor_order sdk_example_batch ?st = ([], st')"
    by (simp add: sdk_exportMetricDescriptor_def enabled prod_eq_iff errs)
  from sdk_descriptors_settle [OF st' enabled descriptor_order_ok] st' show ?thesis by blast
qed

end
