(* ===== verification/Detector.thy ===== *)
theory Detector
  imports LogEntries
begin

text \<open>
  The resource detector (detectors/gcp): which Google Cloud platform the program runs on, and the
  attributes of each platform. Arguments (\<open>detector\<close>) are the environment variables and the operations
  of the metadata client, whose errors are either that an attribute is not defined or any other; for
  the machine type of a GKE node also the HTTP client and the decoder of its answers.
\<close>

subsection \<open>The detector\<close>

datatype detect_error = NotDefined string | MetadataError string | EnvVarNotFound | NoZone | BadZone string
  | BadClusterLocation string | HttpError string | HttpStatus int | NoMachineType

type_synonym 'a detected = "(detect_error, 'a) res"

record http_answer =
  ha_status :: int
  ha_machine_type :: "string detected"

record detector =
  dt_env :: "string \<rightharpoonup> string"
  dt_get :: "string \<Rightarrow> string detected"
  dt_attribute :: "string \<Rightarrow> string detected"
  dt_zone :: "string detected"
  dt_instance_name :: "string detected"
  dt_hostname :: "string detected"
  dt_fetch :: "string \<Rightarrow> http_answer detected"
  dt_base_url :: string

datatype platform = UnknownPlatform | GKE | GCE | CloudRun | CloudRunJob | CloudRunWorkerPool | CloudFunctions
  | AppEngineStandard | AppEngineFlex | BareMetalSolution

definition env_value :: "detector \<Rightarrow> string \<Rightarrow> string detected" where
  "env_value d k = (case dt_env d k of Some v \<Rightarrow> Inr v | None \<Rightarrow> Inl EnvVarNotFound)"

subsection \<open>Platforms\<close>

definition onBareMetalSolution :: "detector \<Rightarrow> bool" where
  "onBareMetalSolution d \<longleftrightarrow>
     dt_env d ''BMS_PROJECT_ID'' \<notin> {None, Some []} \<and> dt_env d ''BMS_REGION'' \<notin> {None, Some []} \<and>
     dt_env d ''BMS_INSTANCE_ID'' \<notin> {None, Some []}"

definition onGKE :: "detector \<Rightarrow> bool" where
  "onGKE d \<longleftrightarrow> dt_env d ''KUBERNETES_SERVICE_HOST'' \<noteq> None \<and> \<not> isl (dt_attribute d ''cluster-location'')"

definition onCloudFunctions :: "detector \<Rightarrow> bool" where
  "onCloudFunctions d \<longleftrightarrow> dt_env d ''FUNCTION_TARGET'' \<noteq> None"

definition onCloudRun :: "detector \<Rightarrow> bool" where
  "onCloudRun d \<longleftrightarrow> dt_env d ''K_CONFIGURATION'' \<noteq> None"

definition onCloudRunJob :: "detector \<Rightarrow> bool" where
  "onCloudRunJob d \<longleftrightarrow> dt_env d ''CLOUD_RUN_JOB'' \<noteq> None"

definition onCloudRunWorkerPool :: "detector \<Rightarrow> bool" where
  "onCloudRunWorkerPool d \<longleftrightarrow> dt_env d ''CLOUD_RUN_WORKER_POOL'' \<noteq> None"

definition onAppEngineStandard :: "detector \<Rightarrow> bool" where
  "onAppEngineStandard d \<longleftrightarrow> dt_env d ''GAE_ENV'' = Some ''standard''"

definition onAppEngine :: "detector \<Rightarrow> bool" where
  "onAppEngine d \<longleftrightarrow> dt_env d ''GAE_SERVICE'' \<noteq> None"

definition onGCE :: "detector \<Rightarrow> bool" where
  "onGCE d \<longleftrightarrow> \<not> isl (dt_get d ''instance/machine-type'')"

definition CloudPlatform :: "detector \<Rightarrow> platform" where
  "CloudPlatform d =
     (if onBareMetalSolution d then BareMetalSolution
      else if onGKE d then GKE
      else if onCloudFunctions d then CloudFunctions
      else if onCloudRun d then CloudRun
      else if onCloudRunJob d then CloudRunJob
      else if onCloudRunWorkerPool d then CloudRunWorkerPool
      else if onAppEngineStandard d then AppEngineStandard
      else if onAppEngine d then AppEngineFlex
      else if onGCE d then GCE
      else UnknownPlatform)"

text \<open>The trimmed value of the project and of the instance.\<close>

definition ProjectID :: "detector \<Rightarrow> string detected" where
  "ProjectID d = res_bind (dt_get d ''project/project-id'') (\<lambda>s. Inr (trim_space s))"

definition instanceID :: "detector \<Rightarrow> string detected" where
  "instanceID d = res_bind (dt_get d ''instance/id'') (\<lambda>s. Inr (trim_space s))"

subsection \<open>Bare metal, App Engine, serverless\<close>

definition BareMetalSolutionInstanceID :: "detector \<Rightarrow> string detected" where
  "BareMetalSolutionInstanceID d = env_value d ''BMS_INSTANCE_ID''"

definition BareMetalSolutionCloudRegion :: "detector \<Rightarrow> string detected" where
  "BareMetalSolutionCloudRegion d = env_value d ''BMS_REGION''"

definition BareMetalSolutionProjectID :: "detector \<Rightarrow> string detected" where
  "BareMetalSolutionProjectID d = env_value d ''BMS_PROJECT_ID''"

definition AppEngineServiceName :: "detector \<Rightarrow> string detected" where
  "AppEngineServiceName d = env_value d ''GAE_SERVICE''"

definition AppEngineServiceVersion :: "detector \<Rightarrow> string detected" where
  "AppEngineServiceVersion d = env_value d ''GAE_VERSION''"

definition AppEngineServiceInstance :: "detector \<Rightarrow> string detected" where
  "AppEngineServiceInstance d = env_value d ''GAE_INSTANCE''"

definition FaaSName :: "detector \<Rightarrow> string detected" where
  "FaaSName d = (case dt_env d ''K_SERVICE'' of
     Some name \<Rightarrow> Inr name
   | None \<Rightarrow> (case dt_env d ''CLOUD_RUN_JOB'' of
       Some name \<Rightarrow> Inr name
     | None \<Rightarrow> env_value d ''CLOUD_RUN_WORKER_POOL''))"

definition FaaSVersion :: "detector \<Rightarrow> string detected" where
  "FaaSVersion d = (case dt_env d ''CLOUD_RUN_REVISION'' of
     Some version \<Rightarrow> Inr version | None \<Rightarrow> env_value d ''K_REVISION'')"

definition CloudRunJobExecution :: "detector \<Rightarrow> string detected" where
  "CloudRunJobExecution d = env_value d ''CLOUD_RUN_EXECUTION''"

definition CloudRunJobTaskIndex :: "detector \<Rightarrow> string detected" where
  "CloudRunJobTaskIndex d = env_value d ''CLOUD_RUN_TASK_INDEX''"

definition FaaSID :: "detector \<Rightarrow> string detected" where
  "FaaSID d = instanceID d"

definition FaaSCloudRegion :: "detector \<Rightarrow> string detected" where
  "FaaSCloudRegion d = res_bind (dt_get d ''instance/region'') (\<lambda>region. Inr (after_last slash region))"

definition AppEngineStandardAvailabilityZone :: "detector \<Rightarrow> string detected" where
  "AppEngineStandardAvailabilityZone d = dt_zone d"

definition AppEngineStandardCloudRegion :: "detector \<Rightarrow> string detected" where
  "AppEngineStandardCloudRegion d = FaaSCloudRegion d"

subsection \<open>Compute Engine\<close>

definition GCEHostType :: "detector \<Rightarrow> string detected" where
  "GCEHostType d = dt_get d ''instance/machine-type''"

definition GCEHostID :: "detector \<Rightarrow> string detected" where
  "GCEHostID d = instanceID d"

definition GCEHostName :: "detector \<Rightarrow> string detected" where
  "GCEHostName d = dt_instance_name d"

definition GCEInstanceName :: "detector \<Rightarrow> string detected" where
  "GCEInstanceName d = dt_instance_name d"

definition GCEInstanceHostname :: "detector \<Rightarrow> string detected" where
  "GCEInstanceHostname d = dt_hostname d"

definition dash :: char where
  "dash = CHR ''-''"

definition zone_and_region :: "string \<Rightarrow> (string \<times> string) detected" where
  "zone_and_region zone =
     (if zone = [] then Inl NoZone
      else (case split_n dash 3 zone of
          [a, b, c] \<Rightarrow> Inr (zone, a @ [dash] @ b)
        | _ \<Rightarrow> Inl (BadZone zone)))"

definition GCEAvailabilityZoneAndRegion :: "detector \<Rightarrow> (string \<times> string) detected" where
  "GCEAvailabilityZoneAndRegion d = res_bind (dt_zone d) zone_and_region"

definition AppEngineFlexAvailabilityZoneAndRegion :: "detector \<Rightarrow> (string \<times> string) detected" where
  "AppEngineFlexAvailabilityZoneAndRegion d = GCEAvailabilityZoneAndRegion d"

datatype location_type = UndefinedLocation | Zone | Region

record managed_group =
  mg_name :: string
  mg_location :: string
  mg_type :: location_type

definition no_group :: managed_group where
  "no_group = \<lparr>mg_name = [], mg_location = [], mg_type = UndefinedLocation\<rparr>"

text \<open>
  The regular expression: \<open>projects\<close>, a project, \<open>zones\<close> or \<open>regions\<close>, a location,
  \<open>instanceGroupManagers\<close> and a name, none empty, separated by slashes.
\<close>

definition createdByMIGRE :: "string \<Rightarrow> (string \<times> string \<times> string) option" where
  "createdByMIGRE s = (case split_char slash s of
     [p, project, kind, location, m, name] \<Rightarrow>
       if p = ''projects'' \<and> project \<noteq> [] \<and> (kind = ''zones'' \<or> kind = ''regions'') \<and> location \<noteq> [] \<and>
          m = ''instanceGroupManagers'' \<and> name \<noteq> []
       then Some (kind, location, name) else None
   | _ \<Rightarrow> None)"

definition GCEManagedInstanceGroup :: "detector \<Rightarrow> managed_group detected" where
  "GCEManagedInstanceGroup d = (case dt_attribute d ''created-by'' of
     Inl (NotDefined k) \<Rightarrow> Inr no_group
   | Inl e \<Rightarrow> Inl e
   | Inr createdBy \<Rightarrow> Inr (case createdByMIGRE createdBy of
       None \<Rightarrow> no_group
     | Some (kind, location, name) \<Rightarrow> \<lparr>mg_name = name, mg_location = location,
         mg_type = (if kind = ''zones'' then Zone else if kind = ''regions'' then Region else UndefinedLocation)\<rparr>))"

subsection \<open>Kubernetes Engine\<close>

definition GKEHostID :: "detector \<Rightarrow> string detected" where
  "GKEHostID d = GCEHostID d"

definition GKEClusterName :: "detector \<Rightarrow> string detected" where
  "GKEClusterName d = dt_attribute d ''cluster-name''"

definition lastPathSegment :: "string \<Rightarrow> string" where
  "lastPathSegment s = after_last slash (trim_right_char s slash)"

definition computeInstanceMachineType :: "detector \<Rightarrow> string \<Rightarrow> string \<Rightarrow> string \<Rightarrow> string detected" where
  "computeInstanceMachineType d projectID zone instanceName =
     (let baseURL = (if dt_base_url d = [] then ''https://compute.googleapis.com/compute/v1'' else dt_base_url d);
          url = trim_right_char baseURL slash @ ''/projects/'' @ path_escape projectID @ ''/zones/'' @ path_escape zone @
            ''/instances/'' @ path_escape instanceName
      in res_bind (dt_fetch d url) (\<lambda>res.
        if ha_status res < 200 \<or> 300 \<le> ha_status res then Inl (HttpStatus (ha_status res))
        else res_bind (ha_machine_type res) (\<lambda>mt. if mt = [] then Inl NoMachineType else Inr mt)))"

definition GKEHostType :: "detector \<Rightarrow> string detected" where
  "GKEHostType d =
     res_bind (ProjectID d) (\<lambda>projectID.
     res_bind (dt_zone d) (\<lambda>zone.
     res_bind (dt_instance_name d) (\<lambda>instanceName.
     res_bind (computeInstanceMachineType d projectID (lastPathSegment zone) instanceName) (\<lambda>machineType.
       Inr (lastPathSegment machineType)))))"

definition cluster_location_type :: "string \<Rightarrow> (string \<times> location_type) detected" where
  "cluster_location_type l =
     (if count_list l dash = 1 then Inr (l, Region)
      else if count_list l dash = 2 then Inr (l, Zone)
      else Inl (BadClusterLocation l))"

definition GKEAvailabilityZoneOrRegion :: "detector \<Rightarrow> (string \<times> location_type) detected" where
  "GKEAvailabilityZoneOrRegion d = res_bind (dt_attribute d ''cluster-location'') cluster_location_type"

subsection \<open>Splitting\<close>

lemma split_char_whole: "c \<notin> set w \<Longrightarrow> split_char c w = [w]"
  by (induction w) auto

lemma split_char_first: "c \<notin> set w \<Longrightarrow> split_char c (w @ c # rest) = w # split_char c rest"
  by (induction w) auto

lemma split_char_parts: "w \<in> set (split_char c s) \<Longrightarrow> c \<notin> set w"
proof (induction s arbitrary: w)
  case (Cons x s)
  then show ?case by (cases "split_char c s") (auto split: if_splits)
qed simp

lemma split_char_ConsD:
  assumes "split_char c s = w # ws" "ws \<noteq> []"
  obtains rest where "s = w @ c # rest" "split_char c rest = ws"
  using assms
proof (induction s arbitrary: w thesis)
  case (Cons x s)
  show ?case
  proof (cases "x = c")
    case True
    then show ?thesis using Cons.prems by (auto intro: Cons.prems(1) [of s])
  next
    case False
    obtain v vs where v: "split_char c s = v # vs" using split_char_ne by (metis list.exhaust)
    then have "w = x # v" "ws = vs" using Cons.prems(2) False by simp_all
    with v Cons.IH [of v] Cons.prems(1,3) show ?thesis by (metis append_Cons)
  qed
qed simp

lemma split_char_oneD: "split_char c s = [w] \<Longrightarrow> s = w"
proof (induction s arbitrary: w)
  case (Cons x s)
  then show ?case using split_char_ne [of c s] by (cases "split_char c s") (auto split: if_splits)
qed simp

definition slash_free :: "string \<Rightarrow> bool" where
  "slash_free w \<longleftrightarrow> w \<noteq> [] \<and> slash \<notin> set w"

definition group_url :: "string \<Rightarrow> string \<Rightarrow> string \<Rightarrow> string \<Rightarrow> string" where
  "group_url project kind location name = ''projects'' @ slash # project @ slash # kind @ slash # location @
     slash # ''instanceGroupManagers'' @ slash # name"

lemma group_url_matches:
  assumes "slash_free project" "kind = ''zones'' \<or> kind = ''regions''" "slash_free location" "slash_free name"
  shows "createdByMIGRE (group_url project kind location name) = Some (kind, location, name)"
proof -
  have "slash \<notin> set ''projects''" "slash \<notin> set ''instanceGroupManagers''" "slash \<notin> set kind"
    using assms(2) by (auto simp: slash_def)
  then have "split_char slash (group_url project kind location name) =
      [''projects'', project, kind, location, ''instanceGroupManagers'', name]"
    using assms unfolding group_url_def slash_free_def
    by (simp only: split_char_first split_char_whole simp_thms)
  with assms show ?thesis by (simp add: createdByMIGRE_def slash_free_def)
qed

lemma group_url_only:
  assumes "createdByMIGRE s = Some (kind, location, name)"
  obtains project where "s = group_url project kind location name" "slash_free project"
    "kind = ''zones'' \<or> kind = ''regions''" "slash_free location" "slash_free name"
proof -
  obtain project where parts: "split_char slash s = [''projects'', project, kind, location, ''instanceGroupManagers'', name]"
    "project \<noteq> []" "kind = ''zones'' \<or> kind = ''regions''" "location \<noteq> []" "name \<noteq> []"
    using assms unfolding createdByMIGRE_def by (auto split: list.splits if_splits)
  have free: "slash \<notin> set w" if "w \<in> set (split_char slash s)" for w using split_char_parts that .
  obtain r1 where r1: "s = ''projects'' @ slash # r1" "split_char slash r1 = [project, kind, location, ''instanceGroupManagers'', name]"
    using split_char_ConsD [OF parts(1)] by blast
  obtain r2 where r2: "r1 = project @ slash # r2" "split_char slash r2 = [kind, location, ''instanceGroupManagers'', name]"
    using split_char_ConsD [OF r1(2)] by blast
  obtain r3 where r3: "r2 = kind @ slash # r3" "split_char slash r3 = [location, ''instanceGroupManagers'', name]"
    using split_char_ConsD [OF r2(2)] by blast
  obtain r4 where r4: "r3 = location @ slash # r4" "split_char slash r4 = [''instanceGroupManagers'', name]"
    using split_char_ConsD [OF r3(2)] by blast
  obtain r5 where r5: "r4 = ''instanceGroupManagers'' @ slash # r5" "split_char slash r5 = [name]"
    using split_char_ConsD [OF r4(2)] by blast
  have "s = group_url project kind location name"
    unfolding group_url_def r1(1) r2(1) r3(1) r4(1) r5(1) split_char_oneD [OF r5(2)] ..
  moreover have "slash_free project" "slash_free location" "slash_free name"
    using free parts by (simp_all add: slash_free_def)
  ultimately show thesis using that parts(3) by blast
qed

text \<open>C36. A managed instance group is reported exactly when the creator of the instance is the path of a group with
non-empty parts, with the name and the location of that path and the type its kind says.\<close>

theorem managed_group_roundtrip:
  assumes "dt_attribute d ''created-by'' = Inr s" "name \<noteq> []"
  shows "GCEManagedInstanceGroup d = Inr \<lparr>mg_name = name, mg_location = location, mg_type = t\<rparr> \<longleftrightarrow>
    slash_free location \<and> slash_free name \<and>
    (\<exists>project. slash_free project \<and>
      (s = group_url project ''zones'' location name \<and> t = Zone \<or>
       s = group_url project ''regions'' location name \<and> t = Region))"
    (is "?group \<longleftrightarrow> ?url")
proof
  assume group: ?group
  have "createdByMIGRE s \<noteq> None"
  proof
    assume "createdByMIGRE s = None"
    with group assms show False by (simp add: GCEManagedInstanceGroup_def no_group_def)
  qed
  then obtain kind l n where m: "createdByMIGRE s = Some (kind, l, n)" by auto
  obtain project where url: "s = group_url project kind l n" "slash_free project"
    "kind = ''zones'' \<or> kind = ''regions''" "slash_free l" "slash_free n" using group_url_only [OF m] .
  have "l = location" "n = name" "t = (if kind = ''zones'' then Zone else Region)"
    using group url(3) by (auto simp: GCEManagedInstanceGroup_def assms(1) m)
  with url show ?url by auto
next
  assume ?url
  then obtain project kind where url: "slash_free location" "slash_free name" "slash_free project"
    "kind = ''zones'' \<and> t = Zone \<or> kind = ''regions'' \<and> t = Region" "s = group_url project kind location name" by blast
  have "createdByMIGRE s = Some (kind, location, name)"
    unfolding url(5) using url(4) by (intro group_url_matches url(1-3)) auto
  with url(4) show ?group by (auto simp: GCEManagedInstanceGroup_def assms(1))
qed

definition example_detector :: detector where
  "example_detector = \<lparr>dt_env = Map.empty, dt_get = (\<lambda>k. if k = ''instance/machine-type'' then Inr ''n1'' else Inl (NotDefined k)),
     dt_attribute = (\<lambda>k. if k = ''created-by'' then Inr ''projects/1/zones/us-a1-b/instanceGroupManagers/web''
       else Inl (NotDefined k)),
     dt_zone = Inr ''us-a1-b'', dt_instance_name = Inr ''i'', dt_hostname = Inr ''h'',
     dt_fetch = (\<lambda>u. Inl (HttpError u)), dt_base_url = []\<rparr>"

lemma managed_group_roundtrip_witness:
  "GCEManagedInstanceGroup example_detector = Inr \<lparr>mg_name = ''web'', mg_location = ''us-a1-b'', mg_type = Zone\<rparr>"
proof -
  have a: "dt_attribute example_detector ''created-by'' = Inr ''projects/1/zones/us-a1-b/instanceGroupManagers/web''" by code_simp
  have n: "''web'' \<noteq> []" by simp
  have "slash_free ''us-a1-b'' \<and> slash_free ''web'' \<and> slash_free ''1''" by code_simp
  moreover have "''projects/1/zones/us-a1-b/instanceGroupManagers/web'' = group_url ''1'' ''zones'' ''us-a1-b'' ''web''" by code_simp
  ultimately show ?thesis using managed_group_roundtrip [OF a n, of "''us-a1-b''" Zone] by blast
qed

subsection \<open>Zones and regions\<close>

lemma split_n_2:
  "split_n c 2 s = (if c \<in> set s then [takeWhile (\<lambda>x. x \<noteq> c) s, tl (dropWhile (\<lambda>x. x \<noteq> c) s)] else [s])"
  by (simp add: numeral_2_eq_2)

lemma split_n_3:
  "split_n c 3 s = (if c \<in> set s then takeWhile (\<lambda>x. x \<noteq> c) s # split_n c 2 (tl (dropWhile (\<lambda>x. x \<noteq> c) s)) else [s])"
  by (simp add: numeral_3_eq_3 numeral_2_eq_2)

lemma cut_at: "c \<notin> set a \<Longrightarrow> takeWhile (\<lambda>x. x \<noteq> c) (a @ c # r) = a" "c \<notin> set a \<Longrightarrow> dropWhile (\<lambda>x. x \<noteq> c) (a @ c # r) = c # r"
  by (induction a) auto

lemma split_n_three_iff:
  "split_n c 3 s = [x, y, z] \<longleftrightarrow> s = x @ c # y @ c # z \<and> c \<notin> set x \<and> c \<notin> set y"
proof
  assume split: "split_n c 3 s = [x, y, z]"
  then have "c \<in> set s" by (simp add: split_n_3 split: if_splits)
  then obtain a r where s: "s = a @ c # r" "c \<notin> set a" by (metis split_list_first)
  have r: "split_n c 2 r = [y, z]" "x = a" using split by (simp_all add: s split_n_3 cut_at)
  then have "c \<in> set r" by (simp add: split_n_2 split: if_splits)
  then obtain b q where b: "r = b @ c # q" "c \<notin> set b" by (metis split_list_first)
  have "y = b" "z = q" using r(1) by (simp_all add: b split_n_2 cut_at)
  with s b r(2) show "s = x @ c # y @ c # z \<and> c \<notin> set x \<and> c \<notin> set y" by simp
next
  assume s: "s = x @ c # y @ c # z \<and> c \<notin> set x \<and> c \<notin> set y"
  then show "split_n c 3 s = [x, y, z]" by (simp add: split_n_3 split_n_2 cut_at)
qed

lemma count_one_iff: "count_list r c = 1 \<longleftrightarrow> (\<exists>x y. r = x @ c # y \<and> c \<notin> set x \<and> c \<notin> set y)"
proof
  assume one: "count_list r c = 1"
  then have "c \<in> set r" by (metis count_notin zero_neq_one)
  then obtain x y where r: "r = x @ c # y" "c \<notin> set x" by (metis split_list_first)
  then have "count_list y c = 0" using one by (simp add: count_notin)
  then have "c \<notin> set y" by (simp add: count_list_0_iff)
  with r show "\<exists>x y. r = x @ c # y \<and> c \<notin> set x \<and> c \<notin> set y" by blast
qed (auto simp: count_notin)

text \<open>The zone and region of an instance are reported exactly when the zone has at least two dashes: the region is
what stands before the second one, and it has exactly one dash.\<close>

theorem region_ends_at_second_dash:
  "GCEAvailabilityZoneAndRegion d = Inr (zone, region) \<longleftrightarrow>
     dt_zone d = Inr zone \<and> count_list region dash = 1 \<and> (\<exists>rest. zone = region @ dash # rest)"
proof -
  have cut: "zone_and_region z = Inr (zone, region) \<longleftrightarrow>
      z = zone \<and> (\<exists>x y rest. split_n dash 3 zone = [x, y, rest] \<and> region = x @ dash # y)" for z
    by (cases "z = []") (auto simp: zone_and_region_def split_n_3 split: list.splits)
  have parts: "(\<exists>x y rest. zone = x @ dash # y @ dash # rest \<and> dash \<notin> set x \<and> dash \<notin> set y \<and> region = x @ dash # y) \<longleftrightarrow>
      (\<exists>x y. region = x @ dash # y \<and> dash \<notin> set x \<and> dash \<notin> set y) \<and> (\<exists>rest. zone = region @ dash # rest)"
    (is "?parts \<longleftrightarrow> ?region")
  proof
    assume ?parts
    then obtain x y rest where "zone = (x @ dash # y) @ dash # rest" "dash \<notin> set x" "dash \<notin> set y" "region = x @ dash # y"
      by auto
    then show ?region by blast
  next
    assume ?region
    then obtain x y rest where "region = x @ dash # y" "dash \<notin> set x" "dash \<notin> set y" "zone = x @ dash # y @ dash # rest"
      by auto
    then show ?parts by blast
  qed
  have "(\<exists>x y rest. split_n dash 3 zone = [x, y, rest] \<and> region = x @ dash # y) \<longleftrightarrow>
      (\<exists>x y. region = x @ dash # y \<and> dash \<notin> set x \<and> dash \<notin> set y) \<and> (\<exists>rest. zone = region @ dash # rest)"
    by (simp only: split_n_three_iff conj_assoc parts)
  then show ?thesis
    unfolding GCEAvailabilityZoneAndRegion_def res_bind_Inr_iff count_one_iff cut by simp
qed

subsection \<open>Platforms and their attributes\<close>

lemmas on_platform = onBareMetalSolution_def onGKE_def onCloudFunctions_def onCloudRun_def onCloudRunJob_def
  onCloudRunWorkerPool_def onAppEngineStandard_def onAppEngine_def onGCE_def

lemmas reads = BareMetalSolutionProjectID_def BareMetalSolutionCloudRegion_def BareMetalSolutionInstanceID_def
  GKEAvailabilityZoneOrRegion_def FaaSName_def AppEngineServiceName_def GCEHostType_def env_value_def res_bind_def

text \<open>On every detected platform the attributes that the detection saw can be read: the bare metal attributes are
not empty, the cluster location of GKE is defined, jobs, worker pools and flexible apps have a name,
Compute Engine has a machine type, and on an unknown platform none of the signs is there.\<close>

theorem detected_platform_has_its_attributes:
  "case CloudPlatform d of
     BareMetalSolution \<Rightarrow> BareMetalSolutionProjectID d \<notin> {Inr [], Inl EnvVarNotFound} \<and>
       BareMetalSolutionCloudRegion d \<notin> {Inr [], Inl EnvVarNotFound} \<and>
       BareMetalSolutionInstanceID d \<notin> {Inr [], Inl EnvVarNotFound}
   | GKE \<Rightarrow> (\<exists>l. GKEAvailabilityZoneOrRegion d = cluster_location_type l)
   | CloudRunJob \<Rightarrow> \<not> isl (FaaSName d)
   | CloudRunWorkerPool \<Rightarrow> \<not> isl (FaaSName d)
   | AppEngineFlex \<Rightarrow> \<not> isl (AppEngineServiceName d)
   | GCE \<Rightarrow> \<not> isl (GCEHostType d)
   | UnknownPlatform \<Rightarrow> isl (GCEHostType d) \<and> isl (AppEngineServiceName d) \<and>
       dt_env d ''CLOUD_RUN_JOB'' = None \<and> dt_env d ''K_CONFIGURATION'' = None \<and> dt_env d ''FUNCTION_TARGET'' = None
   | CloudFunctions \<Rightarrow> dt_env d ''FUNCTION_TARGET'' \<noteq> None
   | CloudRun \<Rightarrow> dt_env d ''K_CONFIGURATION'' \<noteq> None
   | AppEngineStandard \<Rightarrow> dt_env d ''GAE_ENV'' = Some ''standard''"
  by (cases "CloudPlatform d") (auto simp: CloudPlatform_def on_platform reads split: if_splits option.splits sum.splits)

end
