(* ===== verification/CollectorConfig.thy ===== *)
theory CollectorConfig
  imports ExportLog Gmp Logs Traces
begin

text \<open>
  Configuration and life cycle of the collector exporters (exporter/collector/config.go and the
  constructors and \<open>Start\<close> methods in metrics.go, logs.go and traces.go): defaults, validation, the
  user agent, the authenticator extension, client options, and what starting leaves in each exporter.
  Arguments are the default credentials, impersonation, the gRPC connection, the constructors of the
  Google clients, the regular expression compiler and the host. Credentials, token sources and
  connections are opaque values, named by strings. A function-valued option returns the same value at
  every call.
\<close>

subsection \<open>Configuration\<close>

datatype dial_option = OtelDial | UserAgentDial string | InsecureTransport | PerRPCCredentialsDial string

datatype client_option = TelemetryDisabled | GRPCDialOption dial_option | GRPCConn string | Endpoint string
  | AuthCredentials string | GRPCConnectionPool int | UniverseDomain string | TokenSourceOption string
  | OtherOption string

record client_config =
  cc_get_options :: "client_option list option"
  cc_endpoint :: string
  cc_compression :: string
  cc_universe :: string
  cc_insecure :: bool
  cc_pool_size :: int

record impersonate_config =
  ic_target :: string
  ic_subject :: string
  ic_delegates :: "string list"

text \<open>An attribute mapping is a pair of a key and its replacement; \<open>None\<close> is a nil slice.\<close>

record trace_settings =
  tc_mappings :: "(string \<times> string) list option"
  tc_client :: client_config

record metric_settings =
  mt_map_resource :: "pmap \<Rightarrow> monitored_resource"
  mt_extra_metrics :: "(resource_metrics list \<Rightarrow> resource_metrics list) option"
  mt_get_name :: "string \<Rightarrow> metric \<Rightarrow> (string, string) res"
  mt_wal :: "wal_config option"
  mt_prefix :: string
  mt_known_domains :: "string list"
  mt_filters :: "resource_filter list"
  mt_client :: client_config
  mt_buffer_size :: int
  mt_skip_descriptor :: bool
  mt_service_series :: bool
  mt_library_labels :: bool
  mt_service_labels :: bool
  mt_normalization :: bool
  mt_deviation :: bool

record log_settings =
  lt_map_resource :: "pmap \<Rightarrow> monitored_resource"
  lt_disable_retries :: bool
  lt_default_name :: string
  lt_filters :: "resource_filter list"
  lt_client :: client_config
  lt_service_labels :: bool
  lt_error_reporting :: bool

record config =
  cg_authenticator :: string
  cg_project :: string
  cg_user_agent :: string
  cg_impersonate :: impersonate_config
  cg_trace :: trace_settings
  cg_log :: log_settings
  cg_metric :: metric_settings
  cg_quota :: bool

definition no_client_config :: client_config where
  "no_client_config = \<lparr>cc_get_options = None, cc_endpoint = [], cc_compression = [], cc_universe = [],
     cc_insecure = False, cc_pool_size = 0\<rparr>"

definition domains :: "string list" where
  "domains = [''googleapis.com'', ''kubernetes.io'', ''istio.io'', ''knative.dev'']"

definition exporter_DefaultConfig :: "as_string \<Rightarrow> config" where
  "exporter_DefaultConfig str = \<lparr>cg_authenticator = [], cg_project = [], cg_user_agent = [],
     cg_impersonate = \<lparr>ic_target = [], ic_subject = [], ic_delegates = []\<rparr>,
     cg_trace = \<lparr>tc_mappings = None, tc_client = no_client_config\<rparr>,
     cg_log = \<lparr>lt_map_resource = defaultResourceToLoggingMonitoredResource str, lt_disable_retries = False,
       lt_default_name = [], lt_filters = [], lt_client = no_client_config, lt_service_labels = True,
       lt_error_reporting = False\<rparr>,
     cg_metric = \<lparr>mt_map_resource = defaultResourceToMonitoringMonitoredResource str, mt_extra_metrics = None,
       mt_get_name = defaultGetMetricName, mt_wal = None, mt_prefix = ''workload.googleapis.com'',
       mt_known_domains = domains, mt_filters = [], mt_client = no_client_config, mt_buffer_size = 10,
       mt_skip_descriptor = False, mt_service_series = False, mt_library_labels = True, mt_service_labels = True,
       mt_normalization = True, mt_deviation = False\<rparr>,
     cg_quota = False\<rparr>"

subsection \<open>Validation\<close>

datatype config_error = DuplicateKey string | DuplicateReplacement string | BadFilterRegex string
  | UnknownCompression string | TraceCompression

type_synonym regexp_compiler = "string \<Rightarrow> (string, string \<Rightarrow> bool) res"

fun validate_mappings :: "(string \<times> string) list \<Rightarrow> string set \<Rightarrow> string set \<Rightarrow> config_error option" where
  "validate_mappings [] seenKeys seenReplacements = None"
| "validate_mappings ((k, r) # ms) seenKeys seenReplacements =
     (if k \<in> seenKeys then Some (DuplicateKey k)
      else if r \<in> seenReplacements then Some (DuplicateReplacement r)
      else validate_mappings ms (insert k seenKeys) (insert r seenReplacements))"

fun validate_filters :: "regexp_compiler \<Rightarrow> resource_filter list \<Rightarrow> config_error option" where
  "validate_filters compile [] = None"
| "validate_filters compile (f # fs) =
     (if rf_regex f = [] then validate_filters compile fs
      else (case compile (rf_regex f) of
          Inl e \<Rightarrow> Some (BadFilterRegex e)
        | Inr m \<Rightarrow> validate_filters compile fs))"

definition mappings_of :: "config \<Rightarrow> (string \<times> string) list" where
  "mappings_of cfg = (case tc_mappings (cg_trace cfg) of Some ms \<Rightarrow> ms | None \<Rightarrow> [])"

definition gzip_name :: string where
  "gzip_name = ''gzip''"

definition ValidateConfig :: "regexp_compiler \<Rightarrow> config \<Rightarrow> config_error option" where
  "ValidateConfig compile cfg =
     (case validate_mappings (mappings_of cfg) {} {} of
        Some e \<Rightarrow> Some e
      | None \<Rightarrow> (case validate_filters compile (mt_filters (cg_metric cfg)) of
          Some e \<Rightarrow> Some e
        | None \<Rightarrow>
            let lc = cc_compression (lt_client (cg_log cfg)); mc = cc_compression (mt_client (cg_metric cfg)) in
            if lc \<noteq> [] \<and> lc \<noteq> gzip_name then Some (UnknownCompression lc)
            else if mc \<noteq> [] \<and> mc \<noteq> gzip_name then Some (UnknownCompression mc)
            else if cc_compression (tc_client (cg_trace cfg)) \<noteq> [] then Some TraceCompression
            else None))"

subsection \<open>The user agent\<close>

record build_info =
  bi_description :: string
  bi_version :: string
  bi_goos :: string
  bi_goarch :: string

text \<open>\<open>strings.ReplaceAll\<close> of a non-empty substring.\<close>

fun replace_all :: "string \<Rightarrow> string \<Rightarrow> string \<Rightarrow> string" where
  "replace_all old new [] = []"
| "replace_all old new (c # s) =
     (if old \<noteq> [] \<and> has_prefix (c # s) old then new @ replace_all old new (drop (length old - 1) s)
      else c # replace_all old new s)"

definition version_tag :: string where
  "version_tag = ''{{version}}''"

definition SetUserAgent :: "build_info \<Rightarrow> config \<Rightarrow> config" where
  "SetUserAgent b cfg =
     (if cg_user_agent cfg = []
      then cfg\<lparr>cg_user_agent := bi_description b @ ''/'' @ bi_version b @ '' ('' @ bi_goos b @ ''/'' @ bi_goarch b @ '')''\<rparr>
      else if str_contains (cg_user_agent cfg) version_tag
      then cfg\<lparr>cg_user_agent := replace_all version_tag (bi_version b) (cg_user_agent cfg)\<rparr>
      else cfg)"

subsection \<open>The authenticator extension\<close>

text \<open>The interfaces an extension of the host implements: \<open>None\<close> where it does not. A component id is
its type and name.\<close>

type_synonym component_id = "string \<times> string"

record extension =
  xt_options :: "client_option list option"
  xt_context_source :: "string option"
  xt_token_source :: "string option"
  xt_per_rpc :: "(string, string) res option"

datatype start_error = InvalidAuthenticator string string | AuthenticatorNotFound string component_id "component_id list"
  | PerRPCFailed string string | NotAnAuthenticator string | ConnectionFailed string | NoDefaultCredentials string
  | ImpersonationFailed string | NoProject | ClientFailed string | LogFailed wal_error | CounterFailed string

text \<open>The extensions of a host, in the order in which their map is ranged over.\<close>

type_synonym extensions = "(component_id \<times> extension) list"

definition getAuthenticatorClientOptions :: "(string \<Rightarrow> (string, component_id) res) \<Rightarrow> extensions option \<Rightarrow> string \<Rightarrow>
    (start_error, client_option list) res" where
  "getAuthenticatorClientOptions parse host name = (case host of
     None \<Rightarrow> Inr []
   | Some exts \<Rightarrow>
       if name = [] then Inr []
       else (case parse name of
         Inl e \<Rightarrow> Inl (InvalidAuthenticator name e)
       | Inr extID \<Rightarrow> (case map_of exts extID of
           None \<Rightarrow> Inl (AuthenticatorNotFound name extID (List.map fst exts))
         | Some ext \<Rightarrow>
             if xt_options ext \<notin> {None, Some []} then Inr (the (xt_options ext))
             else (case xt_context_source ext of
               Some ts \<Rightarrow> Inr [TokenSourceOption ts]
             | None \<Rightarrow> (case xt_token_source ext of
                 Some ts \<Rightarrow> Inr [TokenSourceOption ts]
               | None \<Rightarrow> (case xt_per_rpc ext of
                   Some (Inl e) \<Rightarrow> Inl (PerRPCFailed name e)
                 | Some (Inr creds) \<Rightarrow> Inr [GRPCDialOption (PerRPCCredentialsDial creds)]
                 | None \<Rightarrow> Inl (NotAnAuthenticator name)))))))"

subsection \<open>Client options\<close>

record impersonate_request =
  ir_config :: impersonate_config
  ir_scopes :: "string list"
  ir_universe :: string

record start_env =
  sv_parse_id :: "string \<Rightarrow> (string, component_id) res"
  sv_credentials :: "string list \<Rightarrow> (string, string) res"
  sv_impersonate :: "impersonate_request \<Rightarrow> (string, string) res"
  sv_connect :: "string \<Rightarrow> dial_option list \<Rightarrow> (string, string) res"

definition agent_dial :: "config \<Rightarrow> dial_option list" where
  "agent_dial cfg = (if cg_user_agent cfg \<noteq> [] then [UserAgentDial (cg_user_agent cfg)] else [])"

definition endpoint_options :: "start_env \<Rightarrow> client_config \<Rightarrow> config \<Rightarrow> (start_error, client_option list) res" where
  "endpoint_options env cc cfg =
     (if cc_endpoint cc = [] then Inr []
      else if cc_insecure cc
      then (case sv_connect env (cc_endpoint cc) ([OtelDial, InsecureTransport] @ agent_dial cfg) of
          Inl e \<Rightarrow> Inl (ConnectionFailed e)
        | Inr conn \<Rightarrow> Inr [GRPCConn conn])
      else Inr [Endpoint (cc_endpoint cc)])"

definition project_from_credentials :: "start_env \<Rightarrow> string list \<Rightarrow> config \<Rightarrow> (start_error, config) res" where
  "project_from_credentials env scopes cfg = (case sv_credentials env scopes of
     Inl e \<Rightarrow> Inl (NoDefaultCredentials e)
   | Inr project \<Rightarrow> Inr (cfg\<lparr>cg_project := project\<rparr>))"

definition given_options :: "client_config \<Rightarrow> client_option list" where
  "given_options cc = (case cc_get_options cc of Some opts \<Rightarrow> opts | None \<Rightarrow> [])"

text \<open>The credentials of an impersonation, or the project of the default ones; the configuration is
returned updated.\<close>

definition credential_options :: "start_env \<Rightarrow> string list \<Rightarrow> client_config \<Rightarrow> config \<Rightarrow>
    (start_error, client_option list) res \<times> config" where
  "credential_options env scopes cc cfg =
     (if ic_target (cg_impersonate cfg) \<noteq> []
      then (case (if cg_project cfg = [] then project_from_credentials env scopes cfg else Inr cfg) of
          Inl e \<Rightarrow> (Inl e, cfg)
        | Inr cfg \<Rightarrow> (case sv_impersonate env \<lparr>ir_config = cg_impersonate cfg, ir_scopes = scopes,
              ir_universe = cc_universe cc\<rparr> of
            Inl e \<Rightarrow> (Inl (ImpersonationFailed e), cfg)
          | Inr creds \<Rightarrow> (Inr [AuthCredentials creds], cfg)))
      else if cg_project cfg = [] \<and> \<not> cc_insecure cc \<and> given_options cc = []
      then (case project_from_credentials env scopes cfg of
          Inl e \<Rightarrow> (Inl e, cfg)
        | Inr cfg \<Rightarrow> (Inr [], cfg))
      else (Inr [], cfg))"

definition generateClientOptions :: "start_env \<Rightarrow> string list \<Rightarrow> client_config \<Rightarrow> config \<Rightarrow>
    (start_error, client_option list) res \<times> config" where
  "generateClientOptions env scopes cc cfg = (case endpoint_options env cc cfg of
     Inl e \<Rightarrow> (Inl e, cfg)
   | Inr endpoint \<Rightarrow> (case credential_options env scopes cc cfg of
       (Inl e, cfg) \<Rightarrow> (Inl e, cfg)
     | (Inr creds, cfg) \<Rightarrow>
         (if cg_project cfg = [] then Inl NoProject
          else Inr ([TelemetryDisabled, GRPCDialOption OtelDial] @ List.map GRPCDialOption (agent_dial cfg) @ endpoint @ creds @
            (if 0 < cc_pool_size cc then [GRPCConnectionPool (cc_pool_size cc)] else []) @
            (if cc_universe cc \<noteq> [] then [UniverseDomain (cc_universe cc)] else []) @ given_options cc), cfg)))"

text \<open>The first step of every \<open>Start\<close>.\<close>

definition with_authenticator :: "start_env \<Rightarrow> extensions option \<Rightarrow> config \<Rightarrow> client_config \<Rightarrow>
    (start_error, client_config) res" where
  "with_authenticator env host cfg cc =
     (if cg_authenticator cfg \<noteq> [] \<and> cc_get_options cc = None
      then res_bind (getAuthenticatorClientOptions (sv_parse_id env) host (cg_authenticator cfg))
        (\<lambda>opts. Inr (cc\<lparr>cc_get_options := Some opts\<rparr>))
      else Inr cc)"

subsection \<open>The metrics exporter\<close>

datatype goroutine = LogRunner | DescriptorRunner

text \<open>
  What \<open>Start\<close> leaves in the exporter: its client, with the other state of \<open>log_exporter\<close>, and the
  goroutines. \<open>gm_mapper\<close> is the copy of the configuration that the mapper was made with.
\<close>

record ('c, 'w) metrics_exporter =
  gm_config :: config
  gm_mapper :: config
  gm_filters :: "compiled_filter list"
  gm_timeout :: int
  gm_normalizer :: any_normalizer
  gm_quota :: bool
  gm_state :: "('c, 'w) log_exporter option"
  gm_compressed :: bool
  gm_goroutines :: "goroutine list"
  gm_shutdown :: bool

definition counter_names :: "string list" where
  "counter_names = [''googlecloudmonitoring/point_count'', ''googlecloudmonitoring/exemplar_attachments_dropped'']"

text \<open>
  \<open>counters\<close> are the errors of the meter. \<open>make\<close> of a channel panics on a size below zero and on one whose buffer
  could not be addressed; \<open>chan_limit\<close> is the largest size that the platform's runtime accepts. (A size it accepts
  whose memory is not there ends the process; that is not modelled.)
\<close>

definition NewGoogleCloudMetricsExporter :: "int \<Rightarrow> regexp_compiler \<Rightarrow> (string \<Rightarrow> string option) \<Rightarrow> build_info \<Rightarrow> int \<Rightarrow> config \<Rightarrow>
    (go_panic, (start_error, ('c, 'w) metrics_exporter) res) res" where
  "NewGoogleCloudMetricsExporter chan_limit compile counters info timeout cfg0 =
     (let cfg = SetUserAgent info cfg0 in
      case List.map_filter counters counter_names of
        e # es \<Rightarrow> Inr (Inl (CounterFailed e))
      | [] \<Rightarrow>
          if mt_buffer_size (cg_metric cfg) < 0 \<or> chan_limit < mt_buffer_size (cg_metric cfg) then Inl MakeChanSize
          else res_bind (compileResourceFilters compile (mt_filters (cg_metric cfg))) (\<lambda>filters.
            Inr (Inr \<lparr>gm_config = cfg, gm_mapper = cfg, gm_filters = filters, gm_timeout = timeout,
              gm_normalizer = DisabledNormalizer, gm_quota = cg_quota cfg, gm_state = None, gm_compressed = False,
              gm_goroutines = [], gm_shutdown = False\<rparr>)))"

definition set_metric_client :: "client_config \<Rightarrow> config \<Rightarrow> config" where
  "set_metric_client cc cfg = cfg\<lparr>cg_metric := (cg_metric cfg)\<lparr>mt_client := cc\<rparr>\<rparr>"

text \<open>\<open>disk\<close> is the log as it lies in its directory.\<close>

definition Start_metrics :: "start_env \<Rightarrow> (client_option list \<Rightarrow> (string, 'c) res) \<Rightarrow> 'w wal_lib \<Rightarrow> 'w \<Rightarrow> string list \<Rightarrow>
    extensions option \<Rightarrow> ('c, 'w) metrics_exporter \<Rightarrow> start_error option \<times> ('c, 'w) metrics_exporter" where
  "Start_metrics env new_client lib disk scopes host me0 =
     (let cfg = gm_config me0;
          me = me0\<lparr>gm_shutdown := False, gm_normalizer :=
            (if mt_normalization (cg_metric cfg) then StandardNormalizer NewStandardNormalizer else gm_normalizer me0)\<rparr>
      in case with_authenticator env host cfg (mt_client (cg_metric cfg)) of
        Inl e \<Rightarrow> (Some e, me)
      | Inr cc \<Rightarrow> (case generateClientOptions env scopes cc (set_metric_client cc cfg) of
          (Inl e, cfg) \<Rightarrow> (Some e, me\<lparr>gm_config := cfg\<rparr>)
        | (Inr opts, cfg) \<Rightarrow> (case new_client opts of
            Inl e \<Rightarrow> (Some (ClientFailed e), me\<lparr>gm_config := cfg\<rparr>)
          | Inr c \<Rightarrow>
              let st = \<lparr>lx_exporter = fresh_exporter c (gm_normalizer me), lx_log = disk, lx_open = False, lx_slept = []\<rparr>;
                  me = me\<lparr>gm_config := cfg, gm_compressed := (cc_compression cc = gzip_name), gm_state := Some st\<rparr>
              in if mt_wal (cg_metric cfg) = None
                 then (None, me\<lparr>gm_goroutines := gm_goroutines me @ [DescriptorRunner]\<rparr>)
                 else (case setupWAL lib st of
                     (Inl e, st) \<Rightarrow> (Some (LogFailed e), me\<lparr>gm_state := Some st\<rparr>)
                   | (Inr indices, st) \<Rightarrow> (None, me\<lparr>gm_state := Some st,
                       gm_goroutines := gm_goroutines me @ [LogRunner, DescriptorRunner]\<rparr>)))))"

text \<open>The configuration that pushing reads: the mapper's part is the mapper's copy.\<close>

definition run_config :: "('c, 'w) metrics_exporter \<Rightarrow> exporter_config" where
  "run_config me =
     (let cfg = gm_config me; mt = cg_metric cfg; mapper = cg_metric (gm_mapper me) in
      \<lparr>ec_project = cg_project cfg,
       ec_mapper = \<lparr>mc_prefix = mt_prefix mapper, mc_known_domains = mt_known_domains mapper,
         mc_get_metric_name = mt_get_name mapper, mc_library_labels = mt_library_labels mapper,
         mc_deviation = mt_deviation mapper\<rparr>,
       ec_map_resource = mt_map_resource mt, ec_extra_metrics = mt_extra_metrics mt,
       ec_service_labels = mt_service_labels mt, ec_filters = gm_filters me,
       ec_skip_descriptor = mt_skip_descriptor mt, ec_service_series = mt_service_series mt,
       ec_destination_quota = gm_quota me, ec_buffer_size = nat (mt_buffer_size mt), ec_wal = mt_wal mt\<rparr>)"

text \<open>
  \<open>close\<close> is the client's \<open>Close\<close>. Whether the goroutines end before the context does has no effect on
  the result.
\<close>

definition Shutdown_metrics :: "('c \<Rightarrow> string option) \<Rightarrow> ('c, 'w) metrics_exporter \<Rightarrow>
    (go_panic, string option \<times> ('c, 'w) metrics_exporter) res" where
  "Shutdown_metrics close me =
     (if gm_shutdown me then Inl CloseOfClosedChannel
      else Inr (case gm_state me of Some st \<Rightarrow> close (ex_client (lx_exporter st)) | None \<Rightarrow> None, me\<lparr>gm_shutdown := True\<rparr>))"

subsection \<open>The logs exporter\<close>

record 'c logs_exporter =
  gl_config :: config
  gl_mapper :: config
  gl_filters :: "compiled_filter list"
  gl_max_entry_size :: int
  gl_max_request_size :: int
  gl_timeout :: int
  gl_client :: "'c option"
  gl_no_retries :: bool
  gl_compressed :: bool

definition NewGoogleCloudLogsExporter :: "regexp_compiler \<Rightarrow> build_info \<Rightarrow> int \<Rightarrow> config \<Rightarrow> (go_panic, 'c logs_exporter) res" where
  "NewGoogleCloudLogsExporter compile info timeout cfg0 =
     (let cfg = SetUserAgent info cfg0 in
      res_bind (compileResourceFilters compile (lt_filters (cg_log cfg))) (\<lambda>filters.
        Inr \<lparr>gl_config = cfg, gl_mapper = cfg, gl_filters = filters, gl_max_entry_size = defaultMaxEntrySize,
          gl_max_request_size = defaultMaxRequestSize, gl_timeout = timeout, gl_client = None,
          gl_no_retries = False, gl_compressed = False\<rparr>))"

text \<open>The sizes of an \<open>ExporterConfig\<close> (\<open>None\<close> is nil): entries, then requests.\<close>

definition ConfigureExporter :: "(int \<times> int) option \<Rightarrow> 'c logs_exporter \<Rightarrow> 'c logs_exporter" where
  "ConfigureExporter sizes l = (case sizes of
     None \<Rightarrow> l
   | Some (entry, request) \<Rightarrow> l\<lparr>
       gl_max_entry_size := (if 0 < entry then entry else gl_max_entry_size l),
       gl_max_request_size := (if 0 < request then request else gl_max_request_size l)\<rparr>)"

definition set_log_client :: "client_config \<Rightarrow> config \<Rightarrow> config" where
  "set_log_client cc cfg = cfg\<lparr>cg_log := (cg_log cfg)\<lparr>lt_client := cc\<rparr>\<rparr>"

definition Start_logs :: "start_env \<Rightarrow> (client_option list \<Rightarrow> (string, 'c) res) \<Rightarrow> string list \<Rightarrow> extensions option \<Rightarrow>
    'c logs_exporter \<Rightarrow> start_error option \<times> 'c logs_exporter" where
  "Start_logs env new_client scopes host l =
     (let cfg = gl_config l in
      case with_authenticator env host cfg (lt_client (cg_log cfg)) of
        Inl e \<Rightarrow> (Some e, l)
      | Inr cc \<Rightarrow> (case generateClientOptions env scopes cc (set_log_client cc cfg) of
          (Inl e, cfg) \<Rightarrow> (Some e, l\<lparr>gl_config := cfg\<rparr>)
        | (Inr opts, cfg) \<Rightarrow> (case new_client opts of
            Inl e \<Rightarrow> (Some (ClientFailed e), l\<lparr>gl_config := cfg\<rparr>)
          | Inr c \<Rightarrow> (None, l\<lparr>gl_config := cfg, gl_mapper := cfg, gl_client := Some c,
              gl_no_retries := lt_disable_retries (cg_log cfg), gl_compressed := (cc_compression cc = gzip_name)\<rparr>))))"

definition run_log_config :: "'c logs_exporter \<Rightarrow> log_config" where
  "run_log_config l =
     (let cfg = gl_mapper l; lt = cg_log cfg in
      \<lparr>lc_project = cg_project cfg, lc_map_resource = lt_map_resource lt, lc_service_labels = lt_service_labels lt,
       lc_filters = gl_filters l, lc_default_name = lt_default_name lt, lc_error_reporting = lt_error_reporting lt,
       lc_quota = cg_quota cfg, lc_max_entry_size = gl_max_entry_size l, lc_max_request_size = gl_max_request_size l\<rparr>)"

definition Shutdown_logs :: "('c \<Rightarrow> string option) \<Rightarrow> 'c logs_exporter \<Rightarrow> string option" where
  "Shutdown_logs close l = (case gl_client l of Some c \<Rightarrow> close c | None \<Rightarrow> None)"

subsection \<open>The trace exporter\<close>

record 'c traces_exporter =
  gt_config :: config
  gt_timeout :: int
  gt_exporter :: "(trace_config \<times> 'c) option"

definition NewGoogleCloudTracesExporter :: "build_info \<Rightarrow> int \<Rightarrow> config \<Rightarrow> 'c traces_exporter" where
  "NewGoogleCloudTracesExporter info timeout cfg =
     \<lparr>gt_config = SetUserAgent info cfg, gt_timeout = timeout, gt_exporter = None\<rparr>"

definition set_trace_client :: "client_config \<Rightarrow> config \<Rightarrow> config" where
  "set_trace_client cc cfg = cfg\<lparr>cg_trace := (cg_trace cfg)\<lparr>tc_client := cc\<rparr>\<rparr>"

text \<open>\<open>newTraceExporter\<close> puts its own user agent before the options that it is given.\<close>

definition trace_client_options :: "string \<Rightarrow> client_option list \<Rightarrow> client_option list" where
  "trace_client_options userAgent copts = GRPCDialOption (UserAgentDial userAgent) # copts"

text \<open>
  The options of the trace package are made from the configuration before the project is looked up;
  the package looks it up again. Its errors are messages.
\<close>

definition Start_traces :: "start_env \<Rightarrow> (client_option list \<Rightarrow> (string, 'c) res) \<Rightarrow> string \<Rightarrow> string list \<Rightarrow> extensions option \<Rightarrow>
    'c traces_exporter \<Rightarrow> start_error option \<times> 'c traces_exporter" where
  "Start_traces env new_client userAgent scopes host te =
     (let cfg = gt_config te in
      case with_authenticator env host cfg (tc_client (cg_trace cfg)) of
        Inl e \<Rightarrow> (Some e, te)
      | Inr cc \<Rightarrow>
          let topts = start_options (cg_project cfg) (gt_timeout te) (cg_quota cfg) (tc_mappings (cg_trace cfg)) in
          (case generateClientOptions env scopes cc (set_trace_client cc cfg) of
            (Inl e, cfg) \<Rightarrow> (Some e, te\<lparr>gt_config := cfg\<rparr>)
          | (Inr copts, cfg) \<Rightarrow>
              let client = new_client (trace_client_options userAgent copts) in
              (case trace_New (sv_credentials env scopes) (case client of Inl e \<Rightarrow> Some e | Inr c \<Rightarrow> None) topts of
                Inl e \<Rightarrow> (Some (ClientFailed (''error creating GoogleCloud Trace exporter: '' @ e)), te\<lparr>gt_config := cfg\<rparr>)
              | Inr o2 \<Rightarrow> (None, te\<lparr>gt_config := cfg,
                  gt_exporter := (case client of Inr c \<Rightarrow> Some (o2, c) | Inl e \<Rightarrow> None)\<rparr>))))"

definition Shutdown_traces :: "('c \<Rightarrow> string option) \<Rightarrow> 'c traces_exporter \<Rightarrow> string option" where
  "Shutdown_traces close te = (case gt_exporter te of Some (o2, c) \<Rightarrow> close c | None \<Rightarrow> None)"

subsection \<open>Validated mappings\<close>

lemma validate_mappings_None:
  "validate_mappings ms ks rs = None \<longleftrightarrow>
     distinct (List.map fst ms) \<and> distinct (List.map snd ms) \<and> fst ` set ms \<inter> ks = {} \<and> snd ` set ms \<inter> rs = {}"
proof (induction ms arbitrary: ks rs)
  case (Cons m ms)
  obtain k r where m: "m = (k, r)" by (cases m)
  show ?case by (simp add: m Cons.IH) blast
qed simp

lemma validate_filters_None:
  "validate_filters compile fs = None \<longleftrightarrow> (\<forall>f \<in> set fs. rf_regex f = [] \<or> \<not> isl (compile (rf_regex f)))"
  by (induction fs) (auto split: sum.splits)

lemma put_all_get: "distinct (List.map fst kvs) \<Longrightarrow> put_all m kvs k = (case map_of kvs k of Some v \<Rightarrow> Some v | None \<Rightarrow> m k)"
proof (induction kvs arbitrary: m)
  case (Cons kv kvs)
  obtain j v where kv: "kv = (j, v)" by (cases kv)
  have "j \<notin> fst ` set kvs" using Cons.prems by (simp add: kv)
  then have "map_of kvs j = None" by (simp add: map_of_eq_None_iff)
  then show ?case using Cons by (auto simp: kv split: option.split)
qed (simp split: option.split)

lemma mappingFuncFromAKM_map_of:
  "distinct (List.map fst ms) \<Longrightarrow> mappingFuncFromAKM ms k = (case map_of ms k of Some r \<Rightarrow> r | None \<Rightarrow> k)"
  by (auto simp: mappingFuncFromAKM_def put_all_get split: option.split)

lemma validation_cases:
  "ValidateConfig compile cfg = None \<longleftrightarrow>
     distinct (List.map fst (mappings_of cfg)) \<and> distinct (List.map snd (mappings_of cfg)) \<and>
     (\<forall>f \<in> set (mt_filters (cg_metric cfg)). rf_regex f = [] \<or> \<not> isl (compile (rf_regex f))) \<and>
     cc_compression (lt_client (cg_log cfg)) \<in> {[], ''gzip''} \<and> cc_compression (mt_client (cg_metric cfg)) \<in> {[], ''gzip''} \<and>
     cc_compression (tc_client (cg_trace cfg)) = []"
proof (cases "validate_mappings (mappings_of cfg) {} {}")
  case None
  then have "distinct (List.map fst (mappings_of cfg)) \<and> distinct (List.map snd (mappings_of cfg))"
    by (simp add: validate_mappings_None)
  then show ?thesis using None validate_filters_None [of compile "mt_filters (cg_metric cfg)"]
    by (cases "validate_filters compile (mt_filters (cg_metric cfg))") (auto simp: ValidateConfig_def Let_def gzip_name_def)
next
  case (Some e)
  then have "\<not> (distinct (List.map fst (mappings_of cfg)) \<and> distinct (List.map snd (mappings_of cfg)))"
    using validate_mappings_None [of "mappings_of cfg" "{}" "{}"] by auto
  then show ?thesis using Some by (auto simp: ValidateConfig_def)
qed

text \<open>Validation accepts a configuration exactly when the keys of the attribute mappings differ from each other
and so do their replacements, every regular expression of the metric filters compiles, the compressions
of logs and metrics are empty or gzip, and that of traces is empty. The filters of the logs are not read.\<close>

theorem validation_accepts:
  "ValidateConfig compile cfg = None \<longleftrightarrow>
     distinct (List.map fst (mappings_of cfg)) \<and> distinct (List.map snd (mappings_of cfg)) \<and>
     (\<forall>f \<in> set (mt_filters (cg_metric cfg)). rf_regex f = [] \<or> \<not> isl (compile (rf_regex f))) \<and>
     cc_compression (lt_client (cg_log cfg)) \<in> {[], ''gzip''} \<and> cc_compression (mt_client (cg_metric cfg)) \<in> {[], ''gzip''} \<and>
     cc_compression (tc_client (cg_trace cfg)) = []"
  by (rule validation_cases)

definition strict_compiler :: regexp_compiler where
  "strict_compiler re = (if re = ''('' then Inl ''missing closing )'' else Inr (\<lambda>k. k = re))"

definition set_wal :: "wal_config option \<Rightarrow> config \<Rightarrow> config" where
  "set_wal w cfg = cfg\<lparr>cg_metric := (cg_metric cfg)\<lparr>mt_wal := w\<rparr>\<rparr>"

definition base_config :: config where
  "base_config = (set_wal (Some \<lparr>wc_directory = ''/log'', wc_max_backoff = 0\<rparr>) (exporter_DefaultConfig (\<lambda>v. [])))\<lparr>
     cg_trace := \<lparr>tc_mappings = Some [(''http.url'', ''/http/url''), (''k'', ''K'')], tc_client = no_client_config\<rparr>\<rparr>"

lemma base_config_valid: "ValidateConfig strict_compiler base_config = None"
  by (simp add: ValidateConfig_def base_config_def set_wal_def exporter_DefaultConfig_def no_client_config_def mappings_of_def gzip_name_def)

lemma validation_accepts_witness:
  "distinct (List.map fst (mappings_of base_config)) \<and> distinct (List.map snd (mappings_of base_config))"
  using validation_accepts [of strict_compiler base_config] base_config_valid by blast

subsection \<open>Client options and the project\<close>

definition usable_project :: "start_env \<Rightarrow> string list \<Rightarrow> config \<Rightarrow> string \<Rightarrow> bool" where
  "usable_project env scopes cfg project \<longleftrightarrow> project \<noteq> [] \<and>
     (if cg_project cfg \<noteq> [] then project = cg_project cfg else sv_credentials env scopes = Inr project)"

lemma project_from_credentials_Inr:
  "project_from_credentials env scopes cfg = Inr cfg' \<longleftrightarrow>
     (\<exists>p. sv_credentials env scopes = Inr p \<and> cfg' = cfg\<lparr>cg_project := p\<rparr>)"
  by (auto simp: project_from_credentials_def split: sum.splits)

lemma credential_options_Inr:
  assumes "credential_options env scopes cc cfg = (Inr creds, cfg')"
  shows "(cfg' = cfg \<or> cg_project cfg = [] \<and> (\<exists>p. sv_credentials env scopes = Inr p \<and> cfg' = cfg\<lparr>cg_project := p\<rparr>)) \<and>
    (if ic_target (cg_impersonate cfg) \<noteq> []
     then \<exists>c. sv_impersonate env \<lparr>ir_config = cg_impersonate cfg, ir_scopes = scopes, ir_universe = cc_universe cc\<rparr> = Inr c \<and>
       creds = [AuthCredentials c]
     else creds = [])"
  using assms
  by (auto simp: credential_options_def project_from_credentials_Inr split: if_splits sum.splits)

lemma generateClientOptions_Inr:
  assumes "generateClientOptions env scopes cc cfg = (Inr opts, cfg')"
  obtains endpoint creds where "endpoint_options env cc cfg = Inr endpoint"
    "credential_options env scopes cc cfg = (Inr creds, cfg')" "cg_project cfg' \<noteq> []"
    "opts = [TelemetryDisabled, GRPCDialOption OtelDial] @ List.map GRPCDialOption (agent_dial cfg') @ endpoint @ creds @
      (if 0 < cc_pool_size cc then [GRPCConnectionPool (cc_pool_size cc)] else []) @
      (if cc_universe cc \<noteq> [] then [UniverseDomain (cc_universe cc)] else []) @ given_options cc"
  using assms by (auto simp: generateClientOptions_def split: sum.splits prod.splits if_splits)

lemma generated_project:
  assumes "generateClientOptions env scopes cc cfg = (Inr opts, cfg')"
  shows "usable_project env scopes cfg (cg_project cfg')" "cfg' = cfg\<lparr>cg_project := cg_project cfg'\<rparr>"
proof -
  obtain creds where creds: "credential_options env scopes cc cfg = (Inr creds, cfg')" "cg_project cfg' \<noteq> []"
    using generateClientOptions_Inr [OF assms] by metis
  then show "usable_project env scopes cfg (cg_project cfg')" "cfg' = cfg\<lparr>cg_project := cg_project cfg'\<rparr>"
    using credential_options_Inr [OF creds(1)] by (auto simp: usable_project_def)
qed

lemma usable_project_cong: "cg_project cfg = cg_project cfg' \<Longrightarrow> usable_project env scopes cfg = usable_project env scopes cfg'"
  by (simp add: usable_project_def fun_eq_iff)

lemma trace_package_project:
  assumes "usable_project env scopes cfg p" "newExporterWithOptions (sv_credentials env scopes) made o1 = Inr o2"
    and "tg_project o1 = cg_project cfg"
  shows "o2 = o1\<lparr>tg_project := p\<rparr>"
  using assms by (auto simp: usable_project_def newExporterWithOptions_def split: if_splits sum.splits option.splits)

lemma newExporterWithOptions_made: "newExporterWithOptions creds made o1 = Inr o2 \<Longrightarrow> made = None"
  by (cases made) (auto simp: newExporterWithOptions_def split: if_splits sum.splits)

lemma Start_metrics_None:
  assumes "Start_metrics env new_client lib disk scopes host me = (None, me')"
  shows "usable_project env scopes (gm_config me) (cg_project (gm_config me')) \<and> gm_state me' \<noteq> None"
proof -
  obtain cc opts cfg where cfg: "generateClientOptions env scopes cc (set_metric_client cc (gm_config me)) = (Inr opts, cfg)"
    "gm_config me' = cfg" "gm_state me' \<noteq> None"
    using assms by (auto simp: Start_metrics_def Let_def split: sum.splits prod.splits if_splits)
  have "usable_project env scopes (set_metric_client cc (gm_config me)) = usable_project env scopes (gm_config me)"
    by (rule usable_project_cong) (simp add: set_metric_client_def)
  with generated_project [OF cfg(1)] cfg(2,3) show ?thesis by simp
qed

lemma Start_logs_None:
  assumes "Start_logs env new_client scopes host l = (None, l')"
  shows "usable_project env scopes (gl_config l) (cg_project (gl_config l')) \<and> gl_client l' \<noteq> None \<and> gl_mapper l' = gl_config l'"
proof -
  obtain cc opts cfg where cfg: "generateClientOptions env scopes cc (set_log_client cc (gl_config l)) = (Inr opts, cfg)"
    "gl_config l' = cfg" "gl_client l' \<noteq> None" "gl_mapper l' = cfg"
    using assms by (auto simp: Start_logs_def Let_def split: sum.splits prod.splits if_splits)
  have "usable_project env scopes (set_log_client cc (gl_config l)) = usable_project env scopes (gl_config l)"
    by (rule usable_project_cong) (simp add: set_log_client_def)
  with generated_project [OF cfg(1)] cfg show ?thesis by simp
qed

lemma Start_traces_None:
  assumes "Start_traces env new_client userAgent scopes host te = (None, te')"
  obtains c where "usable_project env scopes (gt_config te) (cg_project (gt_config te'))"
    "gt_exporter te' = Some (start_config (cg_project (gt_config te')) (gt_timeout te) (cg_quota (gt_config te))
      (tc_mappings (cg_trace (gt_config te))), c)"
proof -
  let ?topts = "start_config (cg_project (gt_config te)) (gt_timeout te) (cg_quota (gt_config te)) (tc_mappings (cg_trace (gt_config te)))"
  obtain cc opts cfg o2 where cfg: "generateClientOptions env scopes cc (set_trace_client cc (gt_config te)) = (Inr opts, cfg)"
    "newExporterWithOptions (sv_credentials env scopes)
      (case new_client (trace_client_options userAgent opts) of Inl e \<Rightarrow> Some e | Inr c \<Rightarrow> None) ?topts = Inr o2"
    "te' = te\<lparr>gt_config := cfg, gt_exporter :=
      (case new_client (trace_client_options userAgent opts) of Inr c \<Rightarrow> Some (o2, c) | Inl e \<Rightarrow> None)\<rparr>"
    using assms unfolding Start_traces_def Let_def trace_New_def applied_start_options by (auto split: sum.splits prod.splits)
  obtain c where c: "new_client (trace_client_options userAgent opts) = Inr c"
    using newExporterWithOptions_made [OF cfg(2)] by (auto split: sum.splits)
  have "usable_project env scopes (set_trace_client cc (gt_config te)) = usable_project env scopes (gt_config te)"
    by (rule usable_project_cong) (simp add: set_trace_client_def)
  then have use: "usable_project env scopes (gt_config te) (cg_project cfg)" using generated_project [OF cfg(1)] by simp
  have "o2 = ?topts\<lparr>tg_project := cg_project cfg\<rparr>"
    by (rule trace_package_project [OF use cfg(2)]) (simp add: start_config_def)
  then show thesis using that use cfg(3) c by (simp add: start_config_def)
qed

text \<open>C32. An exporter that started has a project: the configured one, or that of the default credentials where none
is configured. What it runs with has that project too: the pushed metrics, the mapper of the logs, and
the trace package, which is given the configured project and looks it up again.\<close>

theorem started_exporters_have_a_project:
  "(Start_metrics env metrics_client lib disk scopes host me = (None, me') \<longrightarrow>
      usable_project env scopes (gm_config me) (ec_project (run_config me'))) \<and>
   (Start_logs env logs_client scopes host l = (None, l') \<longrightarrow>
      usable_project env scopes (gl_config l) (lc_project (run_log_config l')) \<and> gl_mapper l' = gl_config l') \<and>
   (Start_traces env traces_client userAgent scopes host te = (None, te') \<longrightarrow>
      (\<exists>cfg c. gt_exporter te' = Some (cfg, c) \<and> usable_project env scopes (gt_config te) (tg_project cfg) \<and>
        tg_project cfg = cg_project (gt_config te')))"
proof (intro conjI impI)
  assume "Start_metrics env metrics_client lib disk scopes host me = (None, me')"
  from Start_metrics_None [OF this] show "usable_project env scopes (gm_config me) (ec_project (run_config me'))"
    by (simp add: run_config_def Let_def)
next
  assume start: "Start_logs env logs_client scopes host l = (None, l')"
  show "usable_project env scopes (gl_config l) (lc_project (run_log_config l'))" "gl_mapper l' = gl_config l'"
    using Start_logs_None [OF start] by (simp_all add: run_log_config_def Let_def)
next
  assume "Start_traces env traces_client userAgent scopes host te = (None, te')"
  then show "\<exists>cfg c. gt_exporter te' = Some (cfg, c) \<and> usable_project env scopes (gt_config te) (tg_project cfg) \<and>
      tg_project cfg = cg_project (gt_config te')"
    by (rule Start_traces_None) (simp add: start_config_def)
qed

subsection \<open>Witness of the start\<close>

definition example_env :: start_env where
  "example_env = \<lparr>sv_parse_id = (\<lambda>s. Inr (s, [])), sv_credentials = (\<lambda>scopes. Inr ''found''),
     sv_impersonate = (\<lambda>r. Inr (ic_target (ir_config r))), sv_connect = (\<lambda>e d. Inr e)\<rparr>"

definition example_info :: build_info where
  "example_info = \<lparr>bi_description = ''d'', bi_version = ''1'', bi_goos = ''linux'', bi_goarch = ''amd64''\<rparr>"

definition unit_client :: "client_option list \<Rightarrow> (string, unit) res" where
  "unit_client opts = Inr ()"

definition new_traces :: "unit traces_exporter" where
  "new_traces = NewGoogleCloudTracesExporter example_info 5 base_config"

definition new_logs :: "unit logs_exporter" where
  "new_logs = (case NewGoogleCloudLogsExporter strict_compiler example_info 5 base_config of Inr l \<Rightarrow> l)"

text \<open>The largest buffer of pointers on a 64 bit Linux machine, whose runtime addresses \<open>2 ^ 48\<close> bytes.\<close>

definition example_chan_limit :: int where
  "example_chan_limit = (2 ^ 48 - 96) div 8"

definition new_metrics :: "(unit, nat \<times> string list) metrics_exporter" where
  "new_metrics = (case NewGoogleCloudMetricsExporter example_chan_limit strict_compiler (\<lambda>c. None) example_info 5 base_config of Inr (Inr me) \<Rightarrow> me)"

lemma started_examples:
  "fst (Start_metrics example_env unit_client list_log (1, []) [] None new_metrics) = None"
  "fst (Start_logs example_env unit_client [] None new_logs) = None"
  "fst (Start_traces example_env unit_client ''a'' [] None new_traces) = None"
  by code_simp+

lemma started_example:
  "Start_metrics example_env unit_client list_log (1, []) [] None new_metrics =
     (None, snd (Start_metrics example_env unit_client list_log (1, []) [] None new_metrics))"
  "Start_logs example_env unit_client [] None new_logs = (None, snd (Start_logs example_env unit_client [] None new_logs))"
  "Start_traces example_env unit_client ''a'' [] None new_traces =
     (None, snd (Start_traces example_env unit_client ''a'' [] None new_traces))"
  using started_examples by (simp_all add: prod_eq_iff)

lemma started_exporters_have_a_project_witness:
  "ec_project (run_config (snd (Start_metrics example_env unit_client list_log (1, []) [] None new_metrics))) \<noteq> [] \<and>
   lc_project (run_log_config (snd (Start_logs example_env unit_client [] None new_logs))) \<noteq> [] \<and>
   (\<exists>cfg c. gt_exporter (snd (Start_traces example_env unit_client ''a'' [] None new_traces)) = Some (cfg, c) \<and> tg_project cfg \<noteq> [])"
  using started_exporters_have_a_project [of example_env unit_client list_log "(1, [])" "[]" None new_metrics
      "snd (Start_metrics example_env unit_client list_log (1, []) [] None new_metrics)" unit_client new_logs
      "snd (Start_logs example_env unit_client [] None new_logs)" unit_client "''a''" new_traces
      "snd (Start_traces example_env unit_client ''a'' [] None new_traces)"] started_example
  unfolding usable_project_def by blast

subsection \<open>What validation secures, and what it does not\<close>

text \<open>C33. A trace exporter that starts on a validated configuration renames every listed attribute key to its
replacement, no two listed keys to the same name, and leaves the other keys alone.\<close>

theorem validated_mappings_rename_attributes:
  assumes "ValidateConfig compile (gt_config te) = None" "tc_mappings (cg_trace (gt_config te)) = Some ms"
    and "Start_traces env new_client userAgent scopes host te = (None, te')" "gt_exporter te' = Some (cfg, c)"
  shows "(\<forall>(k, r) \<in> set ms. tg_map cfg k = r) \<and> inj_on (tg_map cfg) (fst ` set ms) \<and>
    (\<forall>k. k \<notin> fst ` set ms \<longrightarrow> tg_map cfg k = k)"
proof -
  have distinct: "distinct (List.map fst ms)" "distinct (List.map snd ms)"
    using assms(1,2) unfolding validation_cases mappings_of_def by simp_all
  have m: "tg_map cfg = (\<lambda>k. case map_of ms k of Some r \<Rightarrow> r | None \<Rightarrow> k)"
  proof -
    obtain d where "gt_exporter te' = Some (start_config (cg_project (gt_config te')) (gt_timeout te) (cg_quota (gt_config te))
        (tc_mappings (cg_trace (gt_config te))), d)"
      by (rule Start_traces_None [OF assms(3)])
    then have "cfg = start_config (cg_project (gt_config te')) (gt_timeout te) (cg_quota (gt_config te)) (Some ms)"
      using assms(2,4) by simp
    then show ?thesis by (simp add: start_config_def mappingFuncFromAKM_map_of [OF distinct(1)] fun_eq_iff)
  qed
  have listed: "tg_map cfg k = r" if "(k, r) \<in> set ms" for k r
    using that distinct(1) by (simp add: m)
  moreover have "inj_on (tg_map cfg) (fst ` set ms)"
  proof (rule inj_onI)
    fix j k
    assume "j \<in> fst ` set ms" "k \<in> fst ` set ms" and same: "tg_map cfg j = tg_map cfg k"
    then obtain r q where in_ms: "(j, r) \<in> set ms" "(k, q) \<in> set ms" by auto
    then have "r = q" using same listed by simp
    moreover have "inj_on snd (set ms)" using distinct(2) by (simp add: distinct_map)
    ultimately have "(j, r) = (k, q)" using in_ms by (intro inj_onD [of snd "set ms"]) simp_all
    then show "j = k" by simp
  qed
  moreover have "tg_map cfg k = k" if "k \<notin> fst ` set ms" for k
    using that by (simp add: m map_of_eq_None_iff [THEN iffD2])
  ultimately show ?thesis by blast
qed

lemma validated_mappings_rename_attributes_witness:
  "\<exists>cfg c. gt_exporter (snd (Start_traces example_env unit_client ''a'' [] None new_traces)) = Some (cfg, c) \<and>
     tg_map cfg ''http.url'' = ''/http/url'' \<and> tg_map cfg ''http.host'' = ''http.host''"
proof -
  let ?te = "snd (Start_traces example_env unit_client ''a'' [] None new_traces)"
  have valid: "ValidateConfig strict_compiler (gt_config new_traces) = None" by code_simp
  have ms: "tc_mappings (cg_trace (gt_config new_traces)) = Some [(''http.url'', ''/http/url''), (''k'', ''K'')]" by code_simp
  obtain cfg c where c: "gt_exporter ?te = Some (cfg, c)" by (rule Start_traces_None [OF started_example(3)])
  from validated_mappings_rename_attributes [OF valid ms started_example(3) c] c show ?thesis by fastforce
qed

lemma isl_res_bind_Inr: "isl (res_bind r (\<lambda>a. Inr (f a))) \<longleftrightarrow> isl r"
  by (cases r) simp_all

text \<open>C34. Where the empty expression compiles and the meter's counters are made, constructing the metrics exporter
from a validated configuration panics exactly when the size of the descriptor buffer is negative or above what the
runtime can make a channel of, and constructing the logs exporter exactly when a regular expression of the log
filters does not compile. Validation checks neither.\<close>

theorem validated_config_can_panic:
  assumes "ValidateConfig compile cfg = None" "\<not> isl (compile [])" "List.map_filter counters counter_names = []"
  shows "(isl (NewGoogleCloudMetricsExporter limit compile counters info timeout cfg) \<longleftrightarrow>
      (mt_buffer_size (cg_metric cfg) < 0 \<or> limit < mt_buffer_size (cg_metric cfg))) \<and>
    (isl (NewGoogleCloudLogsExporter compile info timeout cfg) \<longleftrightarrow>
      (\<exists>f \<in> set (lt_filters (cg_log cfg)). isl (compile (rf_regex f))))"
proof (intro conjI)
  have agent: "cg_metric (SetUserAgent info cfg) = cg_metric cfg" "cg_log (SetUserAgent info cfg) = cg_log cfg"
    by (simp_all add: SetUserAgent_def)
  have "\<forall>f \<in> set (mt_filters (cg_metric cfg)). \<not> isl (compile (rf_regex f))"
    using assms(1,2) unfolding validation_cases by metis
  then obtain cs where "compileResourceFilters compile (mt_filters (cg_metric cfg)) = Inr cs"
    using compileResourceFilters_ok by metis
  then show "isl (NewGoogleCloudMetricsExporter limit compile counters info timeout cfg) \<longleftrightarrow>
      (mt_buffer_size (cg_metric cfg) < 0 \<or> limit < mt_buffer_size (cg_metric cfg))"
    by (simp add: NewGoogleCloudMetricsExporter_def agent assms(3) Let_def)
  have "isl (compileResourceFilters compile fs) \<longleftrightarrow> \<not> (\<exists>cs. compileResourceFilters compile fs = Inr cs)" for fs
    by (cases "compileResourceFilters compile fs") simp_all
  then show "isl (NewGoogleCloudLogsExporter compile info timeout cfg) \<longleftrightarrow>
      (\<exists>f \<in> set (lt_filters (cg_log cfg)). isl (compile (rf_regex f)))"
    by (simp add: NewGoogleCloudLogsExporter_def Let_def agent isl_res_bind_Inr compileResourceFilters_ok)
qed

definition panicking_config :: "int \<Rightarrow> config" where
  "panicking_config n = base_config\<lparr>
     cg_log := (cg_log base_config)\<lparr>lt_filters := [\<lparr>rf_prefix = [], rf_regex = ''(''\<rparr>]\<rparr>,
     cg_metric := (cg_metric base_config)\<lparr>mt_buffer_size := n\<rparr>\<rparr>"

lemma validated_config_can_panic_witness:
  "isl (NewGoogleCloudMetricsExporter example_chan_limit strict_compiler (\<lambda>c. None) example_info 5 (panicking_config (- 1)) ::
     (go_panic, (start_error, (unit, unit) metrics_exporter) res) res) \<and>
   isl (NewGoogleCloudMetricsExporter example_chan_limit strict_compiler (\<lambda>c. None) example_info 5 (panicking_config (2 ^ 62)) ::
     (go_panic, (start_error, (unit, unit) metrics_exporter) res) res) \<and>
   \<not> isl (NewGoogleCloudMetricsExporter example_chan_limit strict_compiler (\<lambda>c. None) example_info 5 (panicking_config 10) ::
     (go_panic, (start_error, (unit, unit) metrics_exporter) res) res) \<and>
   isl (NewGoogleCloudLogsExporter strict_compiler example_info 5 (panicking_config 10) :: (go_panic, unit logs_exporter) res)"
proof -
  have "ValidateConfig strict_compiler (panicking_config (- 1)) = None"
    "ValidateConfig strict_compiler (panicking_config (2 ^ 62)) = None"
    "ValidateConfig strict_compiler (panicking_config 10) = None" by code_simp+
  moreover have "\<not> isl (strict_compiler [])" by code_simp
  moreover have "List.map_filter (\<lambda>c. None :: string option) counter_names = []" by code_simp
  moreover have "mt_buffer_size (cg_metric (panicking_config n)) = n" for n by (simp add: panicking_config_def)
  moreover have "\<exists>f \<in> set (lt_filters (cg_log (panicking_config 10))). isl (strict_compiler (rf_regex f))" by code_simp
  moreover have "example_chan_limit < 2 ^ 62" "10 \<le> example_chan_limit" by code_simp+
  ultimately show ?thesis using validated_config_can_panic by (smt (verit, best))
qed

subsection \<open>Options of the clients\<close>

lemma endpoint_options_Inr:
  "endpoint_options env cc cfg = Inr opts \<longleftrightarrow>
     (if cc_endpoint cc = [] then opts = []
      else if cc_insecure cc
      then \<exists>conn. sv_connect env (cc_endpoint cc) ([OtelDial, InsecureTransport] @ agent_dial cfg) = Inr conn \<and> opts = [GRPCConn conn]
      else opts = [Endpoint (cc_endpoint cc)])"
  by (auto simp: endpoint_options_def split: sum.splits)

lemma endpoint_members:
  assumes "endpoint_options env cc cfg = Inr opts"
  shows "AuthCredentials c \<notin> set opts" "TokenSourceOption c \<notin> set opts"
    "Endpoint c \<in> set opts \<longleftrightarrow> cc_endpoint cc = c \<and> c \<noteq> [] \<and> \<not> cc_insecure cc"
    "GRPCConn c \<in> set opts \<longleftrightarrow> cc_endpoint cc \<noteq> [] \<and> cc_insecure cc \<and>
      sv_connect env (cc_endpoint cc) ([OtelDial, InsecureTransport] @ agent_dial cfg) = Inr c"
proof -
  consider "cc_endpoint cc = []" "opts = []"
    | conn where "cc_endpoint cc \<noteq> []" "cc_insecure cc" "opts = [GRPCConn conn]"
      "sv_connect env (cc_endpoint cc) ([OtelDial, InsecureTransport] @ agent_dial cfg) = Inr conn"
    | "cc_endpoint cc \<noteq> []" "\<not> cc_insecure cc" "opts = [Endpoint (cc_endpoint cc)]"
    using assms by (auto simp: endpoint_options_Inr split: if_splits)
  then show "AuthCredentials c \<notin> set opts" "TokenSourceOption c \<notin> set opts"
    "Endpoint c \<in> set opts \<longleftrightarrow> cc_endpoint cc = c \<and> c \<noteq> [] \<and> \<not> cc_insecure cc"
    "GRPCConn c \<in> set opts \<longleftrightarrow> cc_endpoint cc \<noteq> [] \<and> cc_insecure cc \<and>
      sv_connect env (cc_endpoint cc) ([OtelDial, InsecureTransport] @ agent_dial cfg) = Inr c"
    by (cases; auto)+
qed

lemma credential_members:
  assumes "credential_options env scopes cc cfg = (Inr creds, cfg')"
  shows "AuthCredentials c \<in> set creds \<longleftrightarrow> ic_target (cg_impersonate cfg) \<noteq> [] \<and>
      sv_impersonate env \<lparr>ir_config = cg_impersonate cfg, ir_scopes = scopes, ir_universe = cc_universe cc\<rparr> = Inr c"
    "TokenSourceOption c \<notin> set creds" "Endpoint c \<notin> set creds" "GRPCConn c \<notin> set creds"
proof -
  let ?req = "\<lparr>ir_config = cg_impersonate cfg, ir_scopes = scopes, ir_universe = cc_universe cc\<rparr>"
  consider "ic_target (cg_impersonate cfg) = []" "creds = []"
    | x where "ic_target (cg_impersonate cfg) \<noteq> []" "sv_impersonate env ?req = Inr x" "creds = [AuthCredentials x]"
    using credential_options_Inr [OF assms] by (auto split: if_splits)
  then show "AuthCredentials c \<in> set creds \<longleftrightarrow> ic_target (cg_impersonate cfg) \<noteq> [] \<and> sv_impersonate env ?req = Inr c"
    "TokenSourceOption c \<notin> set creds" "Endpoint c \<notin> set creds" "GRPCConn c \<notin> set creds"
    by (cases; auto)+
qed

definition other_options :: "client_config \<Rightarrow> client_option list" where
  "other_options cc = (if 0 < cc_pool_size cc then [GRPCConnectionPool (cc_pool_size cc)] else []) @
     (if cc_universe cc \<noteq> [] then [UniverseDomain (cc_universe cc)] else [])"

lemma other_members: "AuthCredentials c \<notin> set (other_options cc)" "TokenSourceOption c \<notin> set (other_options cc)"
    "Endpoint c \<notin> set (other_options cc)" "GRPCConn c \<notin> set (other_options cc)"
  by (simp_all add: other_options_def)

text \<open>The options of a client end with those of \<open>GetClientOptions\<close>, and before them there are credentials only
where an account is impersonated, a connection only for an insecure endpoint and an endpoint only
for a secure one: default credentials are never added to the options that were given.\<close>

theorem client_options_do_not_conflict:
  assumes "generateClientOptions env scopes cc cfg = (Inr opts, cfg')"
  shows "\<exists>own. opts = own @ given_options cc \<and> own \<noteq> [] \<and>
    (\<forall>c. AuthCredentials c \<in> set own \<longleftrightarrow> ic_target (cg_impersonate cfg) \<noteq> [] \<and>
      sv_impersonate env \<lparr>ir_config = cg_impersonate cfg, ir_scopes = scopes, ir_universe = cc_universe cc\<rparr> = Inr c) \<and>
    (\<forall>c. TokenSourceOption c \<notin> set own) \<and>
    (\<forall>e. Endpoint e \<in> set own \<longleftrightarrow> cc_endpoint cc = e \<and> e \<noteq> [] \<and> \<not> cc_insecure cc) \<and>
    (\<forall>c. GRPCConn c \<in> set own \<longleftrightarrow> cc_endpoint cc \<noteq> [] \<and> cc_insecure cc \<and>
      sv_connect env (cc_endpoint cc) ([OtelDial, InsecureTransport] @ agent_dial cfg) = Inr c)"
proof -
  obtain endpoint creds where e: "endpoint_options env cc cfg = Inr endpoint" and
    c: "credential_options env scopes cc cfg = (Inr creds, cfg')" and
    opts: "opts = [TelemetryDisabled, GRPCDialOption OtelDial] @ List.map GRPCDialOption (agent_dial cfg') @ endpoint @ creds @
      other_options cc @ given_options cc"
    by (rule generateClientOptions_Inr [OF assms]) (simp add: other_options_def)
  let ?own = "[TelemetryDisabled, GRPCDialOption OtelDial] @ List.map GRPCDialOption (agent_dial cfg') @ endpoint @ creds @ other_options cc"
  show ?thesis
    by (intro exI [of _ ?own] conjI allI)
      (simp_all add: opts image_iff endpoint_members [OF e] credential_members [OF c] other_members)
qed

definition secure_client :: client_config where
  "secure_client = no_client_config\<lparr>cc_endpoint := ''host:443'', cc_get_options := Some [TokenSourceOption ''t'']\<rparr>"

lemma client_options_do_not_conflict_witness:
  "\<exists>own. fst (generateClientOptions example_env [] secure_client (base_config\<lparr>cg_project := ''p''\<rparr>)) =
      Inr (own @ [TokenSourceOption ''t'']) \<and> Endpoint ''host:443'' \<in> set own \<and> (\<forall>c. AuthCredentials c \<notin> set own)"
proof -
  let ?cfg = "base_config\<lparr>cg_project := ''p''\<rparr>"
  have none: "ic_target (cg_impersonate ?cfg) = []" by code_simp
  have client: "cc_endpoint secure_client = ''host:443''" "\<not> cc_insecure secure_client" "given_options secure_client = [TokenSourceOption ''t'']"
    by code_simp+
  have "\<not> isl (fst (generateClientOptions example_env [] secure_client ?cfg))" by code_simp
  then obtain opts where opts: "fst (generateClientOptions example_env [] secure_client ?cfg) = Inr opts"
    by (cases "fst (generateClientOptions example_env [] secure_client ?cfg)") simp_all
  then have "generateClientOptions example_env [] secure_client ?cfg = (Inr opts, snd (generateClientOptions example_env [] secure_client ?cfg))"
    by (simp add: prod_eq_iff)
  from client_options_do_not_conflict [OF this] obtain own where
    own: "opts = own @ given_options secure_client" "\<forall>c. AuthCredentials c \<notin> set own" "Endpoint ''host:443'' \<in> set own"
    using none client(1,2) by (metis list.distinct(1))
  show ?thesis by (intro exI [of _ own] conjI own(2,3)) (simp add: opts own(1) client(3))
qed

text \<open>The flag for an insecure connection matters without an endpoint too: where no project is configured, no
account impersonated and no option given, it makes a start fail that the project of the default
credentials would let pass.\<close>

theorem insecure_needs_a_project:
  assumes "cc_endpoint cc = []" "cg_project cfg = []" "ic_target (cg_impersonate cfg) = []" "given_options cc = []"
    and "sv_credentials env scopes = Inr project" "project \<noteq> []"
  shows "fst (generateClientOptions env scopes (cc\<lparr>cc_insecure := True\<rparr>) cfg) = Inl NoProject \<and>
    (\<exists>opts. generateClientOptions env scopes (cc\<lparr>cc_insecure := False\<rparr>) cfg = (Inr opts, cfg\<lparr>cg_project := project\<rparr>))"
proof -
  have "given_options (cc\<lparr>cc_insecure := b\<rparr>) = []" for b using assms(4) by (simp add: given_options_def)
  then show ?thesis using assms
    by (simp add: generateClientOptions_def endpoint_options_def credential_options_def project_from_credentials_def)
qed

lemma insecure_needs_a_project_witness:
  "fst (generateClientOptions example_env [] (no_client_config\<lparr>cc_insecure := True\<rparr>) base_config) = Inl NoProject"
proof -
  have "cc_endpoint no_client_config = []" "cg_project base_config = []" "ic_target (cg_impersonate base_config) = []"
    "given_options no_client_config = []" "''found'' \<noteq> []" by code_simp+
  moreover have "sv_credentials example_env [] = Inr ''found''" by (simp add: example_env_def)
  ultimately show ?thesis using insecure_needs_a_project by blast
qed

end
