(* ===== verification/ClientAuth.thy ===== *)
theory ClientAuth
  imports CollectorConfig
begin

text \<open>
  The client authenticator (extension/googleclientauthextension): its configuration, starting it with the
  default credentials, the HTTP transports and the metadata of gRPC calls, and what the collector
  exporters see of it. Arguments are the default credentials, the environment, the sources of tokens (a
  type \<open>'t\<close>, read by \<open>token_of\<close>), the decoder of the credentials file, the OAuth transport and metadata.
\<close>

subsection \<open>Configuration\<close>

record auth_config =
  ax_project :: string
  ax_quota_project :: string
  ax_token_type :: string
  ax_audience :: string
  ax_token_header :: string
  ax_scopes :: "string list"

definition accessToken :: string where
  "accessToken = ''access_token''"

definition idToken :: string where
  "idToken = ''id_token''"

definition authorizationHeader :: string where
  "authorizationHeader = ''authorization''"

definition proxyAuthorizationHeader :: string where
  "proxyAuthorizationHeader = ''proxy-authorization''"

datatype auth_config_error = InvalidTokenType | MissingAudience | InvalidTokenHeader

definition auth_Validate :: "auth_config \<Rightarrow> auth_config_error option" where
  "auth_Validate cfg =
     (if ax_token_type cfg \<notin> {accessToken, idToken} then Some InvalidTokenType
      else if ax_token_type cfg = idToken \<and> ax_audience cfg = [] then Some MissingAudience
      else if ax_token_header cfg \<notin> {authorizationHeader, proxyAuthorizationHeader} then Some InvalidTokenHeader
      else None)"

definition CreateDefaultConfig :: auth_config where
  "CreateDefaultConfig = \<lparr>ax_project = [], ax_quota_project = [], ax_token_type = accessToken, ax_audience = [],
     ax_token_header = authorizationHeader,
     ax_scopes = [''https://www.googleapis.com/auth/cloud-platform'', ''https://www.googleapis.com/auth/logging.write'',
       ''https://www.googleapis.com/auth/monitoring.write'', ''https://www.googleapis.com/auth/trace.append'']\<rparr>"

subsection \<open>Starting\<close>

record 't credentials =
  cr_project :: string
  cr_json :: string
  cr_source :: 't

datatype auth_error = CredentialsError string | NoAuthProject | IDTokenError string | NotStarted | NoTransport
  | TokenError string | TransportError string

text \<open>\<open>av_quota\<close> decodes the field \<open>quota_project_id\<close> (empty if absent); \<open>None\<close> is a decoding error.
\<open>av_id_source\<close> gets the audience and the credentials if they are an option.\<close>

record 't auth_env =
  av_credentials :: "string list \<Rightarrow> (string, 't credentials) res"
  av_getenv :: "string \<Rightarrow> string"
  av_quota :: "string \<Rightarrow> string option"
  av_id_source :: "string \<Rightarrow> 't credentials option \<Rightarrow> (string, 't) res"

record 't authenticator =
  au_config :: auth_config
  au_source :: "'t option"

definition CreateExtension :: "auth_config \<Rightarrow> 't authenticator" where
  "CreateExtension cfg = \<lparr>au_config = cfg, au_source = None\<rparr>"

definition quotaProjectFromCreds :: "'t auth_env \<Rightarrow> 't credentials option \<Rightarrow> string" where
  "quotaProjectFromCreds env creds = (case creds of
     None \<Rightarrow> []
   | Some c \<Rightarrow> (case av_quota env (cr_json c) of None \<Rightarrow> [] | Some q \<Rightarrow> q))"

definition newTokenSource :: "'t auth_env \<Rightarrow> auth_config \<Rightarrow> 't credentials \<Rightarrow> (auth_error, 't) res" where
  "newTokenSource env cfg creds =
     (if ax_token_type cfg = idToken
      then (case av_id_source env (ax_audience cfg) (if cr_json creds \<noteq> [] then Some creds else None) of
          Inl e \<Rightarrow> Inl (IDTokenError e)
        | Inr src \<Rightarrow> Inr src)
      else Inr (cr_source creds))"

definition auth_Start :: "'t auth_env \<Rightarrow> 't authenticator \<Rightarrow> auth_error option \<times> 't authenticator" where
  "auth_Start env ca =
     (let cfg = au_config ca in
      case av_credentials env (ax_scopes cfg) of
        Inl e \<Rightarrow> (Some (CredentialsError e), ca)
      | Inr creds \<Rightarrow>
          let cfg = (if ax_project cfg = [] then cfg\<lparr>ax_project := av_getenv env ''GOOGLE_CLOUD_PROJECT''\<rparr> else cfg);
              cfg = (if ax_project cfg = [] then cfg\<lparr>ax_project := cr_project creds\<rparr> else cfg)
          in if ax_project cfg = [] then (Some NoAuthProject, ca\<lparr>au_config := cfg\<rparr>)
             else
               let cfg = (if ax_quota_project cfg = [] then cfg\<lparr>ax_quota_project := quotaProjectFromCreds env (Some creds)\<rparr> else cfg)
               in case newTokenSource env cfg creds of
                 Inl e \<Rightarrow> (Some e, ca\<lparr>au_config := cfg\<rparr>)
               | Inr source \<Rightarrow> (None, ca\<lparr>au_config := cfg, au_source := Some source\<rparr>))"

subsection \<open>HTTP\<close>

text \<open>Headers by key. \<open>Header.Set\<close> makes the key canonical: letters after a dash and the first one upper
case, the others lower case, unless a character may not stand in a key.\<close>

type_synonym header = "string \<rightharpoonup> string list"

definition header_char :: "char \<Rightarrow> bool" where
  "header_char c \<longleftrightarrow> (let b = byte c in 97 \<le> b \<and> b \<le> 122 \<or> 65 \<le> b \<and> b \<le> 90 \<or> 48 \<le> b \<and> b \<le> 57 \<or>
     c \<in> set [CHR ''!'', CHR ''#'', CHR ''$'', CHR ''%'', CHR ''&'', CHR 0x27, CHR ''*'', CHR ''+'', CHR ''-'',
       CHR ''.'', CHR ''^'', CHR ''_'', CHR ''`'', CHR ''|'', CHR ''~''])"

fun canonical_from :: "bool \<Rightarrow> string \<Rightarrow> string" where
  "canonical_from upper [] = []"
| "canonical_from upper (c # s) =
     (let b = byte c;
          d = (if upper \<and> 97 \<le> b \<and> b \<le> 122 then char_of (b - 32)
               else if \<not> upper \<and> 65 \<le> b \<and> b \<le> 90 then char_of (b + 32) else c)
      in d # canonical_from (d = CHR ''-'') s)"

definition canonical_key :: "string \<Rightarrow> string" where
  "canonical_key k = (if list_all header_char k then canonical_from True k else k)"

definition header_set :: "header \<Rightarrow> string \<Rightarrow> string \<Rightarrow> header" where
  "header_set h k v = h(canonical_key k \<mapsto> [v])"

record http_request =
  hq_url :: string
  hq_header :: header

type_synonym 'r round_trip = "http_request \<Rightarrow> (auth_error, 'r) res"

record token =
  tk_type :: string
  tk_access :: string

text \<open>A nil transport is \<open>None\<close>. The headers are copied, so that the caller's request keeps its own.\<close>

definition parameter_headers :: "auth_config \<Rightarrow> header \<Rightarrow> header" where
  "parameter_headers cfg h =
     (let h = (if ax_quota_project cfg \<noteq> [] then header_set h ''X-Goog-User-Project'' (ax_quota_project cfg) else h)
      in if ax_project cfg \<noteq> [] then header_set h ''X-Goog-Project-ID'' (ax_project cfg) else h)"

definition parameterTransport_RoundTrip :: "auth_config \<Rightarrow> 'r round_trip option \<Rightarrow> 'r round_trip" where
  "parameterTransport_RoundTrip cfg base req = (case base of
     None \<Rightarrow> Inl NoTransport
   | Some send \<Rightarrow> send (req\<lparr>hq_header := parameter_headers cfg (hq_header req)\<rparr>))"

definition authorization_value :: "token \<Rightarrow> string" where
  "authorization_value t = tk_type t @ '' '' @ tk_access t"

definition proxyAuthTransport_RoundTrip :: "('t \<Rightarrow> (auth_error, token) res) \<Rightarrow> 't \<Rightarrow> 'r round_trip option \<Rightarrow> 'r round_trip" where
  "proxyAuthTransport_RoundTrip token_of source base req = (case base of
     None \<Rightarrow> Inl NoTransport
   | Some send \<Rightarrow> res_bind (token_of source) (\<lambda>t.
       send (req\<lparr>hq_header := header_set (hq_header req) ''Proxy-Authorization'' (authorization_value t)\<rparr>)))"

text \<open>\<open>oauth\<close> is the transport of the OAuth package over a source and a base.\<close>

definition RoundTripper :: "('t \<Rightarrow> (auth_error, token) res) \<Rightarrow> ('t \<Rightarrow> 'r round_trip \<Rightarrow> 'r round_trip) \<Rightarrow> 't authenticator \<Rightarrow>
    'r round_trip option \<Rightarrow> (auth_error, 'r round_trip) res" where
  "RoundTripper token_of oauth ca base = (case au_source ca of
     None \<Rightarrow> Inl NotStarted
   | Some source \<Rightarrow>
       let paramBase = parameterTransport_RoundTrip (au_config ca) base in
       Inr (if ax_token_header (au_config ca) = proxyAuthorizationHeader
         then proxyAuthTransport_RoundTrip token_of source (Some paramBase)
         else oauth source paramBase))"

subsection \<open>gRPC\<close>

definition PerRPCCredentials :: "'t authenticator \<Rightarrow> (auth_error, 't authenticator) res" where
  "PerRPCCredentials ca = (case au_source ca of None \<Rightarrow> Inl NotStarted | Some source \<Rightarrow> Inr ca)"

text \<open>\<open>source_metadata\<close> is the metadata of the OAuth package for a source.\<close>

definition GetRequestMetadata :: "('t \<Rightarrow> (auth_error, labels) res) \<Rightarrow> 't authenticator \<Rightarrow> (auth_error, labels) res" where
  "GetRequestMetadata source_metadata ca = (case au_source ca of
     None \<Rightarrow> Inl NotStarted
   | Some source \<Rightarrow> res_bind (source_metadata source) (\<lambda>m.
       let m = (if ax_quota_project (au_config ca) \<noteq> [] then m(''X-goog-user-project'' \<mapsto> ax_quota_project (au_config ca)) else m);
           m = (if ax_project (au_config ca) \<noteq> [] then m(''X-goog-project-id'' \<mapsto> ax_project (au_config ca)) else m)
       in Inr m))"

text \<open>What an exporter sees of the authenticator in its host, under the name \<open>handle\<close>: by the embedded source
it is a source of tokens, and it makes credentials for gRPC calls.\<close>

definition extension_of :: "string \<Rightarrow> 't authenticator \<Rightarrow> extension" where
  "extension_of handle ca = \<lparr>xt_options = None, xt_context_source = None, xt_token_source = Some handle,
     xt_per_rpc = Some (case PerRPCCredentials ca of Inl e \<Rightarrow> Inl ''not started'' | Inr c \<Rightarrow> Inr handle)\<rparr>"

subsection \<open>The started authenticator\<close>

definition first_nonempty :: "string list \<Rightarrow> string" where
  "first_nonempty ss = (case filter (\<lambda>s. s \<noteq> []) ss of s # rest \<Rightarrow> s | [] \<Rightarrow> [])"

lemma first_nonempty_simps [simp]:
  "first_nonempty [] = []" "first_nonempty (s # ss) = (if s \<noteq> [] then s else first_nonempty ss)"
  by (simp_all add: first_nonempty_def)

lemma empty_project_steps:
  "(if ax_project cfg = [] then cfg\<lparr>ax_project := a\<rparr> else cfg) = cfg\<lparr>ax_project := first_nonempty [ax_project cfg, a]\<rparr>"
  "(if ax_quota_project cfg = [] then cfg\<lparr>ax_quota_project := a\<rparr> else cfg) =
     cfg\<lparr>ax_quota_project := first_nonempty [ax_quota_project cfg, a]\<rparr>"
  by simp_all

lemma newTokenSource_Inr:
  "newTokenSource env cfg creds = Inr source \<longleftrightarrow>
     (if ax_token_type cfg = ''id_token''
      then av_id_source env (ax_audience cfg) (if cr_json creds \<noteq> [] then Some creds else None) = Inr source
      else source = cr_source creds)"
  by (auto simp: newTokenSource_def idToken_def split: sum.splits)

definition resolved_config :: "'t auth_env \<Rightarrow> 't credentials \<Rightarrow> auth_config \<Rightarrow> auth_config" where
  "resolved_config env creds cfg = cfg\<lparr>
     ax_project := first_nonempty [ax_project cfg, av_getenv env ''GOOGLE_CLOUD_PROJECT'', cr_project creds],
     ax_quota_project := first_nonempty [ax_quota_project cfg, (case av_quota env (cr_json creds) of None \<Rightarrow> [] | Some q \<Rightarrow> q)]\<rparr>"

lemma newTokenSource_resolved: "newTokenSource env (resolved_config env creds cfg) creds = newTokenSource env cfg creds"
  by (simp add: newTokenSource_def resolved_config_def)

lemma auth_Start_found:
  assumes "av_credentials env (ax_scopes (au_config ca)) = Inr creds"
  shows "auth_Start env ca =
    (if ax_project (resolved_config env creds (au_config ca)) = []
     then (Some NoAuthProject, ca\<lparr>au_config := (au_config ca)\<lparr>ax_project := []\<rparr>\<rparr>)
     else (case newTokenSource env (au_config ca) creds of
        Inl e \<Rightarrow> (Some e, ca\<lparr>au_config := resolved_config env creds (au_config ca)\<rparr>)
      | Inr source \<Rightarrow> (None, ca\<lparr>au_config := resolved_config env creds (au_config ca), au_source := Some source\<rparr>)))"
proof -
  let ?cfg = "(au_config ca)\<lparr>ax_project := first_nonempty [ax_project (au_config ca), av_getenv env ''GOOGLE_CLOUD_PROJECT'', cr_project creds]\<rparr>"
  have projects: "(let cfg = (if ax_project (au_config ca) = [] then (au_config ca)\<lparr>ax_project := av_getenv env ''GOOGLE_CLOUD_PROJECT''\<rparr>
        else au_config ca) in if ax_project cfg = [] then cfg\<lparr>ax_project := cr_project creds\<rparr> else cfg) = ?cfg"
    by (simp add: Let_def)
  have quota: "(if ax_quota_project ?cfg = [] then ?cfg\<lparr>ax_quota_project := quotaProjectFromCreds env (Some creds)\<rparr> else ?cfg) =
      resolved_config env creds (au_config ca)"
    unfolding empty_project_steps(2) by (simp add: resolved_config_def quotaProjectFromCreds_def)
  have no_project: "ca\<lparr>au_config := ?cfg\<rparr> = ca\<lparr>au_config := (au_config ca)\<lparr>ax_project := []\<rparr>\<rparr>" if "ax_project ?cfg = []"
    using that by (simp del: first_nonempty_simps)
  have "auth_Start env ca = (if ax_project ?cfg = [] then (Some NoAuthProject, ca\<lparr>au_config := ?cfg\<rparr>)
      else (case newTokenSource env (au_config ca) creds of
          Inl e \<Rightarrow> (Some e, ca\<lparr>au_config := resolved_config env creds (au_config ca)\<rparr>)
        | Inr source \<Rightarrow> (None, ca\<lparr>au_config := resolved_config env creds (au_config ca), au_source := Some source\<rparr>)))"
    unfolding auth_Start_def Let_def assms sum.case projects [unfolded Let_def] quota newTokenSource_resolved ..
  also have "ax_project ?cfg = ax_project (resolved_config env creds (au_config ca))" by (simp add: resolved_config_def)
  finally show ?thesis using no_project by (simp add: resolved_config_def del: first_nonempty_simps)
qed

text \<open>An authenticator starts exactly when the default credentials are found, one of the configured project, the
environment and the credentials gives a project, and the source of tokens can be made. It then has the
first of these projects, the configured quota project or that of the credentials file, and the source.\<close>

theorem authenticator_starts:
  "auth_Start env ca = (None, ca') \<longleftrightarrow>
     (\<exists>creds source. av_credentials env (ax_scopes (au_config ca)) = Inr creds \<and>
       first_nonempty [ax_project (au_config ca), av_getenv env ''GOOGLE_CLOUD_PROJECT'', cr_project creds] \<noteq> [] \<and>
       (if ax_token_type (au_config ca) = ''id_token''
        then av_id_source env (ax_audience (au_config ca)) (if cr_json creds \<noteq> [] then Some creds else None) = Inr source
        else source = cr_source creds) \<and>
       ca' = ca\<lparr>au_config := resolved_config env creds (au_config ca), au_source := Some source\<rparr>)"
proof (cases "av_credentials env (ax_scopes (au_config ca))")
  case (Inr creds)
  have project: "ax_project (resolved_config env creds (au_config ca)) =
      first_nonempty [ax_project (au_config ca), av_getenv env ''GOOGLE_CLOUD_PROJECT'', cr_project creds]"
    by (simp add: resolved_config_def)
  show ?thesis
    unfolding newTokenSource_Inr [symmetric] auth_Start_found [OF Inr] project Inr
    by (cases "newTokenSource env (au_config ca) creds") (simp_all add: eq_commute [of ca'] del: first_nonempty_simps)
qed (simp add: auth_Start_def)

lemma started_config:
  assumes "auth_Start env ca = (None, ca')"
  obtains creds source where "ca' = ca\<lparr>au_config := resolved_config env creds (au_config ca), au_source := Some source\<rparr>"
    "ax_project (resolved_config env creds (au_config ca)) \<noteq> []"
proof (cases "av_credentials env (ax_scopes (au_config ca))")
  case (Inl e)
  then show ?thesis using assms by (simp add: auth_Start_def)
next
  case (Inr creds)
  show ?thesis using assms that unfolding auth_Start_found [OF Inr] by (auto split: if_splits sum.splits)
qed

lemma resolved_header: "ax_token_header (resolved_config env creds cfg) = ax_token_header cfg"
  by (simp add: resolved_config_def)

subsection \<open>Headers of HTTP requests\<close>

lemma canonical_keys:
  "canonical_key ''X-Goog-User-Project'' = ''X-Goog-User-Project''"
  "canonical_key ''X-Goog-Project-ID'' = ''X-Goog-Project-Id''"
  "canonical_key ''Authorization'' = ''Authorization''"
  "canonical_key ''Proxy-Authorization'' = ''Proxy-Authorization''"
  "canonical_key authorizationHeader = ''Authorization''"
  "canonical_key proxyAuthorizationHeader = ''Proxy-Authorization''"
  by code_simp+

definition system_parameters :: "auth_config \<Rightarrow> header" where
  "system_parameters cfg = [''X-Goog-Project-Id'' \<mapsto> [ax_project cfg]] ++
     (if ax_quota_project cfg \<noteq> [] then [''X-Goog-User-Project'' \<mapsto> [ax_quota_project cfg]] else Map.empty)"

lemma parameter_headers_eq: "ax_project cfg \<noteq> [] \<Longrightarrow> parameter_headers cfg h = h ++ system_parameters cfg"
  by (auto simp: parameter_headers_def header_set_def canonical_keys system_parameters_def map_add_def fun_eq_iff Let_def)

definition oauth_transport_ok :: "('t \<Rightarrow> (auth_error, token) res) \<Rightarrow> ('t \<Rightarrow> 'r round_trip \<Rightarrow> 'r round_trip) \<Rightarrow> bool" where
  "oauth_transport_ok token_of oauth \<longleftrightarrow> (\<forall>source base req. oauth source base req =
     res_bind (token_of source) (\<lambda>t. base (req\<lparr>hq_header := header_set (hq_header req) ''Authorization'' (authorization_value t)\<rparr>)))"

text \<open>C35. With a valid configuration the transport of a started authenticator sends each request with the token in
the configured header, the project and, if there is one, the quota project; all other headers are those of
the caller, the authorization of the caller among them where the token goes to the proxy. Without a
token nothing is sent. The OAuth transport is assumed to set the authorization header.\<close>

theorem requests_carry_the_token:
  assumes "auth_Validate (au_config ca) = None" "auth_Start env ca = (None, ca')" "oauth_transport_ok token_of oauth"
  shows "\<exists>source transport. au_source ca' = Some source \<and> RoundTripper token_of oauth ca' (Some send) = Inr transport \<and>
    ax_project (au_config ca') \<noteq> [] \<and>
    (\<forall>req. transport req = res_bind (token_of source) (\<lambda>t. send (req\<lparr>hq_header :=
       (hq_header req)(canonical_key (ax_token_header (au_config ca)) \<mapsto> [authorization_value t]) ++
         system_parameters (au_config ca')\<rparr>)))"
proof -
  obtain creds source where ca': "ca' = ca\<lparr>au_config := resolved_config env creds (au_config ca), au_source := Some source\<rparr>"
    and project: "ax_project (resolved_config env creds (au_config ca)) \<noteq> []"
    using started_config [OF assms(2)] .
  have headers: "parameter_headers (au_config ca') h = h ++ system_parameters (au_config ca')" for h
    using project by (intro parameter_headers_eq) (simp add: ca')
  have differ: "authorizationHeader \<noteq> proxyAuthorizationHeader" by code_simp
  consider "ax_token_header (au_config ca) = proxyAuthorizationHeader" | "ax_token_header (au_config ca) = authorizationHeader"
    using assms(1) by (auto simp: auth_Validate_def split: if_splits)
  then show ?thesis
  proof cases
    case 1
    then show ?thesis using project
      by (simp add: ca' RoundTripper_def resolved_header proxyAuthTransport_RoundTrip_def parameterTransport_RoundTrip_def
          headers [unfolded ca', simplified] header_set_def canonical_keys)
  next
    case 2
    then show ?thesis using project assms(3) differ
      by (simp add: ca' RoundTripper_def resolved_header oauth_transport_ok_def parameterTransport_RoundTrip_def
          headers [unfolded ca', simplified] header_set_def canonical_keys)
  qed
qed

definition example_auth_env :: "token auth_env" where
  "example_auth_env = \<lparr>
     av_credentials = (\<lambda>scopes. Inr \<lparr>cr_project = ''found'', cr_json = [], cr_source = \<lparr>tk_type = ''Bearer'', tk_access = ''t''\<rparr>\<rparr>),
     av_getenv = (\<lambda>k. []), av_quota = (\<lambda>json. Some ''q''), av_id_source = (\<lambda>a c. Inl ''no'')\<rparr>"

definition proxy_authenticator :: "token authenticator" where
  "proxy_authenticator = CreateExtension (CreateDefaultConfig\<lparr>ax_token_header := ''proxy-authorization''\<rparr>)"

definition example_oauth :: "token \<Rightarrow> 'r round_trip \<Rightarrow> 'r round_trip" where
  "example_oauth t base req = base (req\<lparr>hq_header := header_set (hq_header req) ''Authorization'' (authorization_value t)\<rparr>)"

definition echo :: "header round_trip" where
  "echo req = Inr (hq_header req)"

lemma requests_carry_the_token_witness:
  "\<exists>transport. RoundTripper Inr example_oauth (snd (auth_Start example_auth_env proxy_authenticator)) (Some echo) = Inr transport \<and>
     (\<exists>h. transport \<lparr>hq_url = ''u'', hq_header = [''Authorization'' \<mapsto> [''mine'']]\<rparr> = Inr h \<and>
       h ''Authorization'' = Some [''mine''] \<and> h ''X-Goog-Project-Id'' = Some [''found''] \<and> ''Proxy-Authorization'' \<in> dom h)"
proof -
  let ?ca' = "snd (auth_Start example_auth_env proxy_authenticator)"
  have valid: "auth_Validate (au_config proxy_authenticator) = None" by code_simp
  have "fst (auth_Start example_auth_env proxy_authenticator) = None" by code_simp
  then have start: "auth_Start example_auth_env proxy_authenticator = (None, ?ca')" by (simp add: prod_eq_iff)
  have oauth: "oauth_transport_ok Inr (example_oauth :: token \<Rightarrow> header round_trip \<Rightarrow> header round_trip)"
    by (simp add: oauth_transport_ok_def example_oauth_def)
  have config: "ax_project (au_config ?ca') = ''found''" "canonical_key (ax_token_header (au_config proxy_authenticator)) = ''Proxy-Authorization''"
    by code_simp+
  obtain source transport where t: "RoundTripper Inr example_oauth ?ca' (Some echo) = Inr transport"
    "transport \<lparr>hq_url = ''u'', hq_header = [''Authorization'' \<mapsto> [''mine'']]\<rparr> = res_bind (Inr source) (\<lambda>t. echo
       (\<lparr>hq_url = ''u'', hq_header = [''Authorization'' \<mapsto> [''mine'']]\<rparr>\<lparr>hq_header :=
          [''Authorization'' \<mapsto> [''mine''], ''Proxy-Authorization'' \<mapsto> [authorization_value t]] ++ system_parameters (au_config ?ca')\<rparr>))"
    using requests_carry_the_token [OF valid start oauth, of echo] unfolding config(2) by force
  then show ?thesis by (auto simp: echo_def system_parameters_def config map_add_def)
qed

subsection \<open>The authenticator inside an exporter\<close>

lemma no_call_credentials:
  assumes "generateClientOptions senv scopes cc cfg = (Inr opts, cfg')" "GRPCDialOption (PerRPCCredentialsDial creds) \<notin> set (given_options cc)"
  shows "GRPCDialOption (PerRPCCredentialsDial creds) \<notin> set opts"
proof -
  obtain endpoint cs where e: "endpoint_options senv cc cfg = Inr endpoint" and c: "credential_options senv scopes cc cfg = (Inr cs, cfg')"
    and opts: "opts = [TelemetryDisabled, GRPCDialOption OtelDial] @ List.map GRPCDialOption (agent_dial cfg') @ endpoint @ cs @
      other_options cc @ given_options cc"
    by (rule generateClientOptions_Inr [OF assms(1)]) (simp add: other_options_def)
  have "GRPCDialOption (PerRPCCredentialsDial creds) \<notin> set endpoint" using e by (auto simp: endpoint_options_Inr split: if_splits)
  moreover have "GRPCDialOption (PerRPCCredentialsDial creds) \<notin> set cs"
    using credential_options_Inr [OF c] by (auto split: if_splits)
  moreover have "PerRPCCredentialsDial creds \<notin> set (agent_dial cfg')" by (simp add: agent_dial_def)
  ultimately show ?thesis using assms(2) by (auto simp: opts other_options_def)
qed

text \<open>A started authenticator with a quota project adds it to the metadata of gRPC calls, but an exporter that
names this authenticator uses it as a source of tokens only: the options of its client have no
credentials for calls, so neither the quota project nor the project of the authenticator is sent.\<close>

theorem exporter_drops_authenticator_metadata:
  assumes "auth_Start env ca = (None, ca')" "ax_quota_project (au_config ca') \<noteq> []" "source_metadata (the (au_source ca')) = Inr m"
    and "cg_authenticator cfg \<noteq> []" "sv_parse_id senv (cg_authenticator cfg) = Inr extID"
    and "map_of exts extID = Some (extension_of handle ca')" "cc_get_options cc = None"
  shows "(\<exists>md. GetRequestMetadata source_metadata ca' = Inr md \<and> md ''X-goog-user-project'' = Some (ax_quota_project (au_config ca')) \<and>
      md ''X-goog-project-id'' = Some (ax_project (au_config ca'))) \<and>
    (\<exists>cc'. with_authenticator senv (Some exts) cfg cc = Inr cc' \<and> given_options cc' = [TokenSourceOption handle] \<and>
      (\<forall>opts cfg' creds. generateClientOptions senv scopes cc' cfg = (Inr opts, cfg') \<longrightarrow>
        GRPCDialOption (PerRPCCredentialsDial creds) \<notin> set opts))"
proof (intro conjI)
  obtain source where "au_source ca' = Some source" "ax_project (au_config ca') \<noteq> []"
    by (rule started_config [OF assms(1)]) simp
  then show "\<exists>md. GetRequestMetadata source_metadata ca' = Inr md \<and>
      md ''X-goog-user-project'' = Some (ax_quota_project (au_config ca')) \<and> md ''X-goog-project-id'' = Some (ax_project (au_config ca'))"
    using assms(2,3) by (simp add: GetRequestMetadata_def)
  let ?cc = "cc\<lparr>cc_get_options := Some [TokenSourceOption handle]\<rparr>"
  have given: "given_options ?cc = [TokenSourceOption handle]" by (simp add: given_options_def)
  have "with_authenticator senv (Some exts) cfg cc = Inr ?cc"
    using assms(4-7) by (simp add: with_authenticator_def getAuthenticatorClientOptions_def extension_of_def)
  then show "\<exists>cc'. with_authenticator senv (Some exts) cfg cc = Inr cc' \<and> given_options cc' = [TokenSourceOption handle] \<and>
      (\<forall>opts cfg' creds. generateClientOptions senv scopes cc' cfg = (Inr opts, cfg') \<longrightarrow>
        GRPCDialOption (PerRPCCredentialsDial creds) \<notin> set opts)"
    using given no_call_credentials by (intro exI [of _ ?cc]) simp
qed

definition quota_authenticator :: "token authenticator" where
  "quota_authenticator = CreateExtension (CreateDefaultConfig\<lparr>ax_quota_project := ''billing''\<rparr>)"

definition bearer_metadata :: "token \<Rightarrow> (auth_error, labels) res" where
  "bearer_metadata t = Inr [''authorization'' \<mapsto> authorization_value t]"

definition auth_config_example :: config where
  "auth_config_example = base_config\<lparr>cg_authenticator := ''googleclientauth''\<rparr>"

lemma exporter_drops_authenticator_metadata_witness:
  "\<exists>cc'. with_authenticator example_env (Some [((''googleclientauth'', []),
       extension_of ''h'' (snd (auth_Start example_auth_env quota_authenticator)))]) auth_config_example no_client_config = Inr cc' \<and>
     given_options cc' = [TokenSourceOption ''h'']"
proof -
  let ?ca' = "snd (auth_Start example_auth_env quota_authenticator)"
  have "fst (auth_Start example_auth_env quota_authenticator) = None" by code_simp
  then have start: "auth_Start example_auth_env quota_authenticator = (None, ?ca')" by (simp add: prod_eq_iff)
  have quota: "ax_quota_project (au_config ?ca') \<noteq> []" by code_simp
  have meta: "bearer_metadata (the (au_source ?ca')) = Inr [''authorization'' \<mapsto> authorization_value (the (au_source ?ca'))]"
    by (simp add: bearer_metadata_def)
  have name: "cg_authenticator auth_config_example \<noteq> []" by code_simp
  have parse: "sv_parse_id example_env (cg_authenticator auth_config_example) = Inr (''googleclientauth'', [])"
    by (simp add: example_env_def auth_config_example_def)
  have ext: "map_of [((''googleclientauth'', []), extension_of ''h'' ?ca')] (''googleclientauth'', []) = Some (extension_of ''h'' ?ca')"
    by simp
  have none: "cc_get_options no_client_config = None" by (simp add: no_client_config_def)
  from exporter_drops_authenticator_metadata [OF start quota, of bearer_metadata, OF meta name parse ext none] show ?thesis by blast
qed

end
