(* ===== verification/Runs.thy ===== *)
theory Runs
  imports Prelude
begin

text \<open>
  Runs of labelled step relations, for the components whose behaviour depends on the order in which
  goroutines move: finite runs with the list of their events, and three rules for reasoning about
  them as locales: an invariant that every step keeps (\<open>kept\<close>), one that also speaks of the events so
  far (\<open>followed\<close>), and a size that every step pays for (\<open>paid\<close>).
\<close>

inductive run :: "('s \<Rightarrow> 'e \<Rightarrow> 's \<Rightarrow> bool) \<Rightarrow> 's \<Rightarrow> 'e list \<Rightarrow> 's \<Rightarrow> bool" for move s where
  run_start: "run move s [] s"
| run_move: "run move s es t \<Longrightarrow> move t e u \<Longrightarrow> run move s (es @ [e]) u"

inductive_cases run_NilE [elim!]: "run move s [] t"
inductive_cases run_snocE: "run move s (es @ [e]) t"

lemma run_single: "move s e t \<Longrightarrow> run move s [e] t"
  using run_move [OF run_start] by force

lemma run_trans: "run move t fs u \<Longrightarrow> run move s es t \<Longrightarrow> run move s (es @ fs) u"
  by (induction rule: run.induct) (auto simp flip: append_assoc intro: run.intros)

lemma run_Cons: "move s e t \<Longrightarrow> run move t es u \<Longrightarrow> run move s (e # es) u"
  using run_trans [OF _ run_single] by force

locale kept =
  fixes move :: "'s \<Rightarrow> 'e \<Rightarrow> 's \<Rightarrow> bool"
    and I :: "'s \<Rightarrow> bool"
  assumes move_keeps: "I s \<Longrightarrow> move s e t \<Longrightarrow> I t"
begin

lemma run_keeps: "run move s es t \<Longrightarrow> I s \<Longrightarrow> I t"
  by (induction rule: run.induct) (auto intro: move_keeps)

end

locale followed = kept move I
  for move :: "'s \<Rightarrow> 'e \<Rightarrow> 's \<Rightarrow> bool"
    and I :: "'s \<Rightarrow> bool" +
  fixes J :: "'e list \<Rightarrow> 's \<Rightarrow> bool"
  assumes move_follows: "I s \<Longrightarrow> J es s \<Longrightarrow> move s e t \<Longrightarrow> J (es @ [e]) t"
begin

lemma run_follows: "run move s es t \<Longrightarrow> I s \<Longrightarrow> J [] s \<Longrightarrow> J es t"
proof (induction rule: run.induct)
  case (run_move es t e u)
  then show ?case using move_follows run_keeps by blast
qed

end

locale paid = kept move I
  for move :: "'s \<Rightarrow> 'e \<Rightarrow> 's \<Rightarrow> bool"
    and I :: "'s \<Rightarrow> bool" +
  fixes price :: "'e \<Rightarrow> nat"
    and budget :: "'s \<Rightarrow> nat"
  assumes move_pays: "I s \<Longrightarrow> move s e t \<Longrightarrow> price e + budget t \<le> budget s"
begin

lemma run_pays: "run move s es t \<Longrightarrow> I s \<Longrightarrow> sum_list (map price es) + budget t \<le> budget s"
proof (induction rule: run.induct)
  case (run_move es t e u)
  then show ?case using move_pays [of t e u] run_keeps [of s es t] by simp
qed simp

end

end
