(* ===== verification/ExporterRun.thy ===== *)
theory ExporterRun
  imports ExportLog Runs
begin

text \<open>
  The running metrics exporter (exporter/collector/metrics.go): calls of \<open>PushMetrics\<close>, which may
  overlap, the goroutine that empties the write-ahead log and waits for changes of its files, the
  goroutine that sends metric descriptors, the sweeps of the normalizer's caches, the context of
  \<open>Start\<close> and \<open>Shutdown\<close>, as one step relation on the state they share.

  A step is what a goroutine does between two points where another one can interfere: one request,
  one reading of the log (which holds the log's mutex, retries included), one descriptor, one metric
  of a batch. Mapping a metric makes several calls of the standard normalizer's caches, each with its
  own lock section, and reads the cached points outside of them (\<open>HistogramRace\<close>). When a call of
  another goroutine falls between them, the metric is \<open>Disturbed\<close>: whatever it is mapped to, whatever
  it leaves in the caches and a panic are then steps. The descriptors of a metric are queued together.
  The collector calls \<open>Shutdown\<close> once, when no \<open>PushMetrics\<close> is in progress, and \<open>PushMetrics\<close> not
  after it. A panic ends the process.
\<close>

subsection \<open>The state\<close>

type_synonym metric_items = "(monitored_resource \<times> labels \<times> string \<times> metric) list"

datatype push =
  Entering "resource_metrics list"
| Gathering metric_items pending
| Sending "ts_request list" "push_failure list"
| Returned "push_failure list"

text \<open>\<open>Watching b\<close>: \<open>b\<close> when a change of the log's files is waiting to be received. \<open>Leaving\<close> and
\<open>Finished\<close> say whether the log was flushed on the way out.\<close>

datatype reader = NoReader | Reading | Polling | Arming | Watching bool | Flushing | Leaving bool | Finished bool

datatype descriptor_runner = Serving | Draining | Stopped

text \<open>\<open>Waiting\<close>: \<open>shutdownC\<close> is closed; \<open>Down\<close>: the client is closed, too early when the context of
\<open>Shutdown\<close> ended first.\<close>

datatype life = Up | Waiting | Down (down_early: bool)

record ('c, 'w) running =
  rs_exporter :: "('c, 'w) log_exporter"
  rs_pushes :: "push list"
  rs_owner :: "nat option"
  rs_reader :: reader
  rs_runner :: descriptor_runner
  rs_group :: int
  rs_life :: life
  rs_cancelled :: bool
  rs_crashed :: "go_panic option"

datatype run_event =
  PushBegins "resource_metrics list"
| Disturbed nat
| PushGathered nat pending "string list"
| PushSent nat ts_request "grpc_status option"
| PushLogged nat ts_request "log_error option"
| FilesChanged
| CacheTick
| ShutdownSignal
| ContextDone
| Progress

abbreviation exporter_of :: "('c, 'w) running \<Rightarrow> 'c exporter" where
  "exporter_of st \<equiv> lx_exporter (rs_exporter st)"

definition set_exporter :: "'c exporter \<Rightarrow> ('c, 'w) running \<Rightarrow> ('c, 'w) running" where
  "set_exporter me st = st\<lparr>rs_exporter := (rs_exporter st)\<lparr>lx_exporter := me\<rparr>\<rparr>"

definition set_push :: "nat \<Rightarrow> push \<Rightarrow> ('c, 'w) running \<Rightarrow> ('c, 'w) running" where
  "set_push i p st = st\<lparr>rs_pushes := (rs_pushes st)[i := p]\<rparr>"

definition at_push :: "('c, 'w) running \<Rightarrow> nat \<Rightarrow> push \<Rightarrow> bool" where
  "at_push st i p \<longleftrightarrow> i < length (rs_pushes st) \<and> rs_pushes st ! i = p"

definition add_group :: "int \<Rightarrow> ('c, 'w) running \<Rightarrow> ('c, 'w) running" where
  "add_group n st = st\<lparr>rs_group := rs_group st + n\<rparr>"

subsection \<open>Pushing\<close>

text \<open>The metrics of a batch in the order of the three loops, with the resource and labels of each.\<close>

definition scope_work :: "mapper_env \<Rightarrow> exporter_config \<Rightarrow> pmap \<Rightarrow> scope_metrics \<Rightarrow> metric_items" where
  "scope_work env cfg resource sm =
     (let extra = attributesToLabels env
            (filterAttributes (me_as_string env) resource (ec_service_labels cfg) (ec_filters cfg));
          ls = mergeLabels Map.empty [instrumentationScopeToLabels (ec_mapper cfg) (sm_scope sm), extra]
      in List.map (\<lambda>m. (ec_map_resource cfg resource, ls, resource_project env cfg resource, m)) (sm_metrics sm))"

definition metric_work :: "mapper_env \<Rightarrow> exporter_config \<Rightarrow> resource_metrics list \<Rightarrow> metric_items" where
  "metric_work env cfg rms = concat (List.map (\<lambda>rm. concat (List.map (scope_work env cfg (rm_resource rm)) (rm_scopes rm)))
     (case ec_extra_metrics cfg of Some f \<Rightarrow> f rms | None \<Rightarrow> rms))"

definition push_item :: "mapper_env \<Rightarrow> exporter_config \<Rightarrow> monitored_resource \<times> labels \<times> string \<times> metric \<Rightarrow>
    pending \<times> 'c exporter \<Rightarrow> (go_panic, pending \<times> 'c exporter) res" where
  "push_item env cfg w = (case w of (res, ls, pid, m) \<Rightarrow> push_metric env cfg res ls pid m)"

definition disturbed_item :: "mapper_env \<Rightarrow> exporter_config \<Rightarrow> monitored_resource \<times> labels \<times> string \<times> metric \<Rightarrow>
    time_series list \<times> any_normalizer \<Rightarrow> pending \<times> 'c exporter \<Rightarrow> pending \<times> 'c exporter" where
  "disturbed_item env cfg w r st = (case w of (res, ls, pid, m) \<Rightarrow> queue_metric env cfg ls pid m st r)"

definition normalizes :: "('c, 'w) running \<Rightarrow> bool" where
  "normalizes st \<longleftrightarrow> ex_normalizer (exporter_of st) \<noteq> DisabledNormalizer"

text \<open>A write to the log is a change of its files that a watcher receives.\<close>

definition notify :: "reader \<Rightarrow> reader" where
  "notify r = (case r of Watching b \<Rightarrow> Watching True | _ \<Rightarrow> r)"

definition send_failures :: "grpc_status option \<Rightarrow> push_failure list" where
  "send_failures e = (case e of Some s \<Rightarrow> [CallFailed s] | None \<Rightarrow> [])"

definition write_failures :: "log_error option \<Rightarrow> push_failure list" where
  "write_failures e = (case e of Some s \<Rightarrow> [LogFailed s] | None \<Rightarrow> [])"

inductive push_move :: "mapper_env \<Rightarrow> exporter_config \<Rightarrow> 'c monitoring_client \<Rightarrow> 'w wal_lib \<Rightarrow> codec \<Rightarrow>
    ('c, 'w) running \<Rightarrow> run_event \<Rightarrow> ('c, 'w) running \<Rightarrow> bool" for env cfg cl lib cd where
  begin_push: "rs_life st = Up \<Longrightarrow>
    push_move env cfg cl lib cd st (PushBegins rms) (st\<lparr>rs_pushes := rs_pushes st @ [Entering rms]\<rparr>)"
| enter: "at_push st i (Entering rms) \<Longrightarrow> ec_wal cfg = None \<or> rs_owner st = None \<Longrightarrow>
    push_move env cfg cl lib cd st Progress
      ((set_push i (Gathering (metric_work env cfg rms) Map.empty) st)
        \<lparr>rs_owner := (if ec_wal cfg = None then rs_owner st else Some i)\<rparr>)"
| map_metric: "at_push st i (Gathering (w # ws) pd) \<Longrightarrow> push_item env cfg w (pd, exporter_of st) = Inr (pd', me) \<Longrightarrow>
    push_move env cfg cl lib cd st Progress (set_push i (Gathering ws pd') (set_exporter me st))"
| map_panics: "at_push st i (Gathering (w # ws) pd) \<Longrightarrow> push_item env cfg w (pd, exporter_of st) = Inl p \<Longrightarrow>
    push_move env cfg cl lib cd st Progress (st\<lparr>rs_crashed := Some p\<rparr>)"
| map_disturbed: "at_push st i (Gathering (w # ws) pd) \<Longrightarrow> normalizes st \<Longrightarrow> n \<noteq> DisabledNormalizer \<Longrightarrow>
    disturbed_item env cfg w (tss, n) (pd, exporter_of st) = (pd', me) \<Longrightarrow>
    push_move env cfg cl lib cd st (Disturbed i) (set_push i (Gathering ws pd') (set_exporter me st))"
| disturbed_panics: "at_push st i (Gathering (w # ws) pd) \<Longrightarrow> normalizes st \<Longrightarrow>
    push_move env cfg cl lib cd st (Disturbed i) (st\<lparr>rs_crashed := Some p\<rparr>)"
| range_pending: "at_push st i (Gathering [] pd) \<Longrightarrow> ranges_over pids pd \<Longrightarrow>
    push_move env cfg cl lib cd st (PushGathered i pd pids) (set_push i (Sending (requests_of pids pd) []) st)"
| send_request: "at_push st i (Sending (r # rs) errs) \<Longrightarrow> ec_wal cfg = None \<Longrightarrow>
    export_request cfg cl r (exporter_of st) = (e, me) \<Longrightarrow>
    push_move env cfg cl lib cd st (PushSent i r e) (set_push i (Sending rs (errs @ send_failures e)) (set_exporter me st))"
| write_request: "at_push st i (Sending (r # rs) errs) \<Longrightarrow> ec_wal cfg \<noteq> None \<Longrightarrow>
    log_request lib cd r (rs_exporter st) = (e, lx) \<Longrightarrow>
    push_move env cfg cl lib cd st (PushLogged i r e) ((set_push i (Sending rs (errs @ write_failures e)) st)
      \<lparr>rs_exporter := lx, rs_reader := (if e = None then notify (rs_reader st) else rs_reader st)\<rparr>)"
| return_push: "at_push st i (Sending [] errs) \<Longrightarrow>
    push_move env cfg cl lib cd st Progress ((set_push i (Returned errs) st)
      \<lparr>rs_owner := (if ec_wal cfg = None then rs_owner st else None)\<rparr>)"

subsection \<open>Reading the log\<close>

text \<open>
  \<open>runWALReadAndExportLoop\<close> and \<open>watchWALFile\<close>. When both signals are there the \<open>select\<close> may take either.
  A watcher that cannot be made, its error and a change of the files by somebody else all end the
  watch.
\<close>

inductive reader_move :: "exporter_config \<Rightarrow> 'c monitoring_client \<Rightarrow> 'w wal_lib \<Rightarrow> codec \<Rightarrow>
    ('c, 'w) running \<Rightarrow> run_event \<Rightarrow> ('c, 'w) running \<Rightarrow> bool" for cfg cl lib cd where
  leave_cancelled: "rs_reader st = Reading \<Longrightarrow> rs_cancelled st \<Longrightarrow>
    reader_move cfg cl lib cd st Progress (st\<lparr>rs_reader := Leaving False\<rparr>)"
| start_flush: "rs_reader st = Reading \<Longrightarrow> rs_life st \<noteq> Up \<Longrightarrow>
    reader_move cfg cl lib cd st Progress (st\<lparr>rs_reader := Flushing\<rparr>)"
| flush_entry: "rs_reader st = Flushing \<Longrightarrow> rs_owner st = None \<Longrightarrow>
    readWALAndExport cfg cl lib cd (rs_exporter st) = (None, lx) \<Longrightarrow>
    reader_move cfg cl lib cd st Progress (st\<lparr>rs_exporter := lx\<rparr>)"
| flush_ends: "rs_reader st = Flushing \<Longrightarrow> rs_owner st = None \<Longrightarrow>
    readWALAndExport cfg cl lib cd (rs_exporter st) = (Some e, lx) \<Longrightarrow>
    reader_move cfg cl lib cd st Progress (st\<lparr>rs_exporter := lx, rs_reader := Leaving True\<rparr>)"
| poll: "rs_reader st = Reading \<Longrightarrow> \<not> rs_cancelled st \<Longrightarrow> rs_life st = Up \<Longrightarrow>
    reader_move cfg cl lib cd st Progress (st\<lparr>rs_reader := Polling\<rparr>)"
| read_entry: "rs_reader st = Polling \<Longrightarrow> rs_owner st = None \<Longrightarrow>
    readWALAndExport cfg cl lib cd (rs_exporter st) = (None, lx) \<Longrightarrow>
    reader_move cfg cl lib cd st Progress (st\<lparr>rs_exporter := lx, rs_reader := Reading\<rparr>)"
| read_fails: "rs_reader st = Polling \<Longrightarrow> rs_owner st = None \<Longrightarrow>
    readWALAndExport cfg cl lib cd (rs_exporter st) = (Some e, lx) \<Longrightarrow>
    reader_move cfg cl lib cd st Progress (add_group 1 (st\<lparr>rs_exporter := lx, rs_reader := Arming\<rparr>))"
| arm: "rs_reader st = Arming \<Longrightarrow> reader_move cfg cl lib cd st Progress (st\<lparr>rs_reader := Watching False\<rparr>)"
| arm_fails: "rs_reader st = Arming \<Longrightarrow>
    reader_move cfg cl lib cd st FilesChanged (add_group (- 1) (st\<lparr>rs_reader := Reading\<rparr>))"
| see_change: "rs_reader st = Watching True \<Longrightarrow>
    reader_move cfg cl lib cd st Progress (add_group (- 1) (st\<lparr>rs_reader := Reading\<rparr>))"
| see_signal: "rs_reader st = Watching b \<Longrightarrow> rs_life st \<noteq> Up \<or> rs_cancelled st \<Longrightarrow>
    reader_move cfg cl lib cd st Progress (add_group (- 1) (st\<lparr>rs_reader := Reading\<rparr>))"
| see_other: "rs_reader st = Watching b \<Longrightarrow>
    reader_move cfg cl lib cd st FilesChanged (add_group (- 1) (st\<lparr>rs_reader := Reading\<rparr>))"
| finish_reader: "rs_reader st = Leaving flushed \<Longrightarrow> wl_close lib (lx_log (rs_exporter st)) = (e, w) \<Longrightarrow>
    reader_move cfg cl lib cd st Progress
      (add_group (- 1) (st\<lparr>rs_exporter := (rs_exporter st)\<lparr>lx_log := w\<rparr>, rs_reader := Finished flushed\<rparr>))"

subsection \<open>Descriptors, sweeps and the end\<close>

inductive runner_move :: "exporter_config \<Rightarrow> 'c monitoring_client \<Rightarrow>
    ('c, 'w) running \<Rightarrow> run_event \<Rightarrow> ('c, 'w) running \<Rightarrow> bool" for cfg cl where
  serve: "rs_runner st = Serving \<Longrightarrow> ex_descriptors (exporter_of st) \<noteq> [] \<Longrightarrow>
    runner_move cfg cl st Progress (set_exporter (descriptor_turn cfg cl (exporter_of st)) st)"
| start_drain: "rs_runner st = Serving \<Longrightarrow> rs_life st \<noteq> Up \<Longrightarrow> runner_move cfg cl st Progress (st\<lparr>rs_runner := Draining\<rparr>)"
| drain: "rs_runner st = Draining \<Longrightarrow> ex_descriptors (exporter_of st) \<noteq> [] \<Longrightarrow>
    runner_move cfg cl st Progress (set_exporter (descriptor_turn cfg cl (exporter_of st)) st)"
| stop_runner: "rs_runner st = Draining \<Longrightarrow> ex_descriptors (exporter_of st) = [] \<Longrightarrow>
    runner_move cfg cl st Progress (add_group (- 1) (st\<lparr>rs_runner := Stopped\<rparr>))"

fun returned :: "push \<Rightarrow> bool" where
  "returned (Returned errs) = True"
| "returned p = False"

text \<open>A tick of one of the two caches of the standard normalizer.\<close>

definition sweep_start :: "any_normalizer \<Rightarrow> any_normalizer" where
  "sweep_start n = (case n of StandardNormalizer s \<Rightarrow> StandardNormalizer (s\<lparr>nz_start := snd (gc (nz_start s) Tick)\<rparr>)
     | DisabledNormalizer \<Rightarrow> n)"

definition sweep_previous :: "any_normalizer \<Rightarrow> any_normalizer" where
  "sweep_previous n = (case n of StandardNormalizer s \<Rightarrow> StandardNormalizer (s\<lparr>nz_previous := snd (gc (nz_previous s) Tick)\<rparr>)
     | DisabledNormalizer \<Rightarrow> n)"

inductive life_move :: "('c, 'w) running \<Rightarrow> run_event \<Rightarrow> ('c, 'w) running \<Rightarrow> bool" where
  signal_shutdown: "rs_life st = Up \<Longrightarrow> list_all returned (rs_pushes st) \<Longrightarrow>
    life_move st ShutdownSignal (st\<lparr>rs_life := Waiting\<rparr>)"
| group_done: "rs_life st = Waiting \<Longrightarrow> rs_group st = 0 \<Longrightarrow> life_move st Progress (st\<lparr>rs_life := Down False\<rparr>)"
| deadline: "rs_life st = Waiting \<Longrightarrow> life_move st ContextDone (st\<lparr>rs_life := Down True\<rparr>)"
| cancel: "\<not> rs_cancelled st \<Longrightarrow> life_move st ContextDone (st\<lparr>rs_cancelled := True\<rparr>)"
| tick_start: "life_move st CacheTick
    (set_exporter ((exporter_of st)\<lparr>ex_normalizer := sweep_start (ex_normalizer (exporter_of st))\<rparr>) st)"
| tick_previous: "life_move st CacheTick
    (set_exporter ((exporter_of st)\<lparr>ex_normalizer := sweep_previous (ex_normalizer (exporter_of st))\<rparr>) st)"

inductive exporter_move :: "mapper_env \<Rightarrow> exporter_config \<Rightarrow> 'c monitoring_client \<Rightarrow> 'w wal_lib \<Rightarrow> codec \<Rightarrow>
    ('c, 'w) running \<Rightarrow> run_event \<Rightarrow> ('c, 'w) running \<Rightarrow> bool" for env cfg cl lib cd where
  by_push: "rs_crashed st = None \<Longrightarrow> push_move env cfg cl lib cd st e st' \<Longrightarrow> exporter_move env cfg cl lib cd st e st'"
| by_reader: "rs_crashed st = None \<Longrightarrow> reader_move cfg cl lib cd st e st' \<Longrightarrow> exporter_move env cfg cl lib cd st e st'"
| by_runner: "rs_crashed st = None \<Longrightarrow> runner_move cfg cl st e st' \<Longrightarrow> exporter_move env cfg cl lib cd st e st'"
| by_life: "rs_crashed st = None \<Longrightarrow> life_move st e st' \<Longrightarrow> exporter_move env cfg cl lib cd st e st'"

text \<open>What \<open>Start\<close> leaves running.\<close>

definition started :: "exporter_config \<Rightarrow> ('c, 'w) log_exporter \<Rightarrow> ('c, 'w) running" where
  "started cfg lx = \<lparr>rs_exporter = lx, rs_pushes = [], rs_owner = None,
     rs_reader = (if ec_wal cfg = None then NoReader else Reading), rs_runner = Serving,
     rs_group = (if ec_wal cfg = None then 1 else 2), rs_life = Up, rs_cancelled = False, rs_crashed = None\<rparr>"

lemmas moves = push_move.simps reader_move.simps runner_move.simps life_move.simps
lemmas updates = set_exporter_def set_push_def at_push_def add_group_def

text \<open>Mapping the metrics of a batch one by one, undisturbed, is what \<open>gather\<close> does.\<close>

lemma fold_res_append: "fold_res f (xs @ ys) s = res_bind (fold_res f xs s) (fold_res f ys)"
  by (induction xs arbitrary: s) (auto simp: res_bind_def split: sum.splits)

lemma fold_res_concat: "fold_res f (concat (List.map g xs)) s = fold_res (\<lambda>x. fold_res f (g x)) xs s"
  by (induction xs arbitrary: s) (auto simp: fold_res_append res_bind_def split: sum.split)

lemma fold_res_map: "fold_res f (List.map g xs) s = fold_res (\<lambda>x. f (g x)) xs s"
  by (induction xs arbitrary: s) (auto simp: res_bind_def split: sum.split)

lemma gather_work: "gather env cfg rms me = fold_res (push_item env cfg) (metric_work env cfg rms) (Map.empty, me)"
proof -
  have scope: "fold_res (push_item env cfg) (scope_work env cfg resource sm) = push_scope env cfg resource sm" for resource sm
    by (simp add: fun_eq_iff scope_work_def push_scope_def push_item_def fold_res_map Let_def)
  show ?thesis
    unfolding gather_def metric_work_def push_resource_def fold_res_concat scope ..
qed

subsection \<open>What the operations leave alone\<close>

lemma export_frame [frame]:
  "ex_normalizer (snd (export_request cfg cl r me)) = ex_normalizer me"
  "ex_descriptors (snd (export_request cfg cl r me)) = ex_descriptors me"
  "ex_cache (snd (export_request cfg cl r me)) = ex_cache me"
  by (simp_all add: export_request_def case_prod_beta Let_def)

lemma export_keeps:
  assumes "export_request cfg cl r me = (e, me')"
  shows "ex_normalizer me' = ex_normalizer me" "ex_descriptors me' = ex_descriptors me" "ex_cache me' = ex_cache me"
  using export_frame [of cfg cl r me] by (simp_all add: assms)

definition same_exporter :: "'c exporter \<Rightarrow> 'c exporter \<Rightarrow> bool" where
  "same_exporter me me' \<longleftrightarrow> ex_normalizer me' = ex_normalizer me \<and> ex_descriptors me' = ex_descriptors me \<and>
     ex_cache me' = ex_cache me"

lemma same_exporter_refl [simp]: "same_exporter me me"
  by (simp add: same_exporter_def)

lemma retry_keeps: "same_exporter (lx_exporter st) (lx_exporter (retry_loop cfg cl mx req i st))"
proof (induction cfg cl mx req i st rule: retry_loop.induct)
  case (1 cfg cl mx req i st)
  obtain e me where e: "export_request cfg cl req (lx_exporter st) = (e, me)" by fastforce
  then have "same_exporter (lx_exporter st) me" by (simp add: same_exporter_def export_keeps)
  then show ?case
    using 1 [OF _ e [symmetric] refl] by (subst retry_loop.simps) (auto simp: e Let_def same_exporter_def)
qed

lemma log_request_keeps: "log_request lib cd r st = (e, st') \<Longrightarrow> lx_exporter st' = lx_exporter st"
  by (auto simp: log_request_def split: sum.splits)

lemma setup_keeps: "setupWAL lib st = (r, st') \<Longrightarrow> lx_exporter st' = lx_exporter st"
  by (auto simp: setupWAL_def closeWAL_def Let_def split: prod.splits option.splits sum.splits if_splits)

lemma finish_keeps: "lx_exporter (snd (finish_entry lib cd req i j st)) = lx_exporter st"
  by (simp add: finish_entry_def split: sum.split if_split)

lemma read_keeps:
  assumes "readWALAndExport cfg cl lib cd st = (e, st')"
  shows "same_exporter (lx_exporter st) (lx_exporter st')"
proof -
  obtain r st1 where st1: "setupWAL lib st = (r, st1)" by fastforce
  show ?thesis
    using assms retry_keeps [of st1 cfg cl "max_backoff cfg" _ 0]
    by (auto simp: readWALAndExport_def st1 finish_keeps setup_keeps [OF st1, symmetric] prod_eq_iff split: sum.splits)
qed

lemma turn_keeps [frame]:
  "ex_normalizer (descriptor_turn cfg cl me) = ex_normalizer me"
  "ex_descriptors (descriptor_turn cfg cl me) = drop 1 (ex_descriptors me)"
  by (auto simp: descriptor_turn_def exportMetricDescriptor_def Let_def case_prod_beta split: list.split)

fun is_series :: "client_call \<Rightarrow> bool" where
  "is_series (SeriesCall k q r) = True"
| "is_series (DescriptorCall q r) = False"

definition sent_series :: "('c \<times> client_call list) exporter \<Rightarrow> client_call list" where
  "sent_series me = filter is_series (calls_of me)"

lemma series_replicate [simp]: "filter is_series (replicate k (sent_as cfg r)) = replicate k (sent_as cfg r)"
  by (simp add: sent_as_def filter_replicate)

lemma turn_series [simp]: "sent_series (descriptor_turn cfg (recording cl) me) = sent_series me"
  by (auto simp: sent_series_def calls_of_def descriptor_turn_def exportMetricDescriptor_def recording_def
      case_prod_beta Let_def split: list.split)

definition unsent_ok :: "push \<Rightarrow> bool" where
  "unsent_ok p = (case p of Sending rs errs \<Rightarrow> list_all (\<lambda>r. \<not> isEmptyReq r) rs | _ \<Rightarrow> True)"

lemma list_all_update: "list_all P xs \<Longrightarrow> P x \<Longrightarrow> list_all P (xs[i := x])"
  by (auto simp: list_all_iff dest!: set_update_subset_insert [THEN subsetD])

lemma requests_nonempty: "list_all (\<lambda>r. \<not> isEmptyReq r) (requests_of pids pd)"
  by (auto simp: list_all_iff requests_of_def isEmptyReq_def dest!: project_requests_bounds)

lemma at_push_unsent: "at_push st i p \<Longrightarrow> list_all unsent_ok (rs_pushes st) \<Longrightarrow> unsent_ok p"
  by (auto simp: at_push_def list_all_length)

lemma disturbed_keeps:
  assumes "disturbed_item env cfg w r st = (pd', me')"
  shows "ex_client me' = ex_client (snd st)" "ex_cache me' = ex_cache (snd st)" "ex_normalizer me' = snd r"
  using assms by (auto simp: disturbed_item_def queue_metric_def Let_def frame split: prod.splits if_splits)

lemma push_item_keeps:
  assumes "push_item env cfg w (pd, me) = Inr (pd', me')"
  shows "ex_client me' = ex_client me" "ex_cache me' = ex_cache me"
  using assms by (auto simp: push_item_def push_metric_def queue_metric_def res_bind_Inr_iff Let_def frame split: prod.splits if_splits)

subsection \<open>The goroutines and their group\<close>

fun busy :: "push \<Rightarrow> bool" where
  "busy (Gathering ws pd) = True"
| "busy (Sending rs errs) = True"
| "busy p = False"

fun reader_members :: "reader \<Rightarrow> int" where
  "reader_members NoReader = 0"
| "reader_members (Finished b) = 0"
| "reader_members Arming = 2"
| "reader_members (Watching b) = 2"
| "reader_members r = 1"

lemma reader_members_notify [simp]: "reader_members (notify r) = reader_members r"
  by (cases r) (simp_all add: notify_def)

lemma reader_members_nonneg [simp]: "0 \<le> reader_members r"
  by (cases r) simp_all

definition members :: "('c, 'w) running \<Rightarrow> int" where
  "members st = reader_members (rs_reader st) + (if rs_runner st = Stopped then 0 else 1)"

lemma members_0 [simp]: "members st = 0 \<longleftrightarrow> reader_members (rs_reader st) = 0 \<and> rs_runner st = Stopped"
proof -
  have "reader_members r + 1 \<noteq> 0" for r by (cases r) simp_all
  then show ?thesis by (simp add: members_def)
qed

definition grouped :: "('c, 'w) running \<Rightarrow> bool" where
  "grouped st \<longleftrightarrow> rs_group st = members st"

definition closing :: "('c, 'w) running \<Rightarrow> bool" where
  "closing st \<longleftrightarrow>
     (rs_life st \<noteq> Up \<longrightarrow> list_all returned (rs_pushes st)) \<and>
     (rs_runner st \<noteq> Serving \<longrightarrow> rs_life st \<noteq> Up) \<and>
     (rs_runner st = Stopped \<longrightarrow> ex_descriptors (exporter_of st) = []) \<and>
     (rs_reader st \<in> {Flushing, Leaving True, Finished True} \<longrightarrow> rs_life st \<noteq> Up) \<and>
     (rs_reader st \<in> {Leaving False, Finished False} \<longrightarrow> rs_cancelled st) \<and>
     (rs_life st = Down False \<longrightarrow> members st = 0)"

definition locked :: "exporter_config \<Rightarrow> ('c, 'w) running \<Rightarrow> bool" where
  "locked cfg st \<longleftrightarrow>
     (if ec_wal cfg = None then rs_owner st = None \<and> rs_reader st = NoReader
      else rs_reader st \<noteq> NoReader \<and>
        (\<forall>i < length (rs_pushes st). busy (rs_pushes st ! i) \<longleftrightarrow> rs_owner st = Some i)) \<and>
     (\<forall>i. rs_owner st = Some i \<longrightarrow> i < length (rs_pushes st))"

lemma notify_simps [simp]:
  "notify r = NoReader \<longleftrightarrow> r = NoReader" "notify r = Flushing \<longleftrightarrow> r = Flushing" "notify r = Leaving b \<longleftrightarrow> r = Leaving b"
  "notify r = Finished b \<longleftrightarrow> r = Finished b" "notify r = Polling \<longleftrightarrow> r = Polling" "notify r = Arming \<longleftrightarrow> r = Arming"
  "notify r = Reading \<longleftrightarrow> r = Reading"
  by (cases r; simp add: notify_def)+

lemma returned_not_busy: "returned p \<Longrightarrow> \<not> busy p"
  by (cases p) simp_all

lemma move_cases [consumes 1, case_names push reader runner life]:
  assumes "exporter_move env cfg cl lib cd st e st'"
  obtains "rs_crashed st = None" "push_move env cfg cl lib cd st e st'"
  | "rs_crashed st = None" "reader_move cfg cl lib cd st e st'"
  | "rs_crashed st = None" "runner_move cfg cl st e st'"
  | "rs_crashed st = None" "life_move st e st'"
  using assms by (cases rule: exporter_move.cases)

lemma push_frame:
  assumes "push_move env cfg cl lib cd st e st'"
  shows "rs_life st' = rs_life st" "rs_runner st' = rs_runner st" "rs_cancelled st' = rs_cancelled st"
    "rs_group st' = rs_group st" "rs_reader st' = rs_reader st \<or> ec_wal cfg \<noteq> None \<and> rs_reader st' = notify (rs_reader st)"
  using assms by (cases; simp add: updates)+

lemma move_grouped:
  assumes "exporter_move env cfg cl lib cd st e st'" "grouped st"
  shows "grouped st'"
  using assms(1)
proof cases
  case by_push
  from push_frame [OF by_push(2)] assms(2) show ?thesis by (elim disjE) (simp_all add: grouped_def members_def)
next
  case by_reader
  show ?thesis using by_reader(2) by cases (use assms(2) in \<open>simp_all add: grouped_def members_def updates\<close>)
next
  case by_runner
  show ?thesis using by_runner(2) by cases (use assms(2) in \<open>simp_all add: grouped_def members_def updates\<close>)
next
  case by_life
  show ?thesis using by_life(2) by cases (use assms(2) in \<open>simp_all add: grouped_def members_def updates\<close>)
qed

text \<open>A push that moves is not over, so the exporter is up.\<close>

lemma push_while_up:
  assumes "push_move env cfg cl lib cd st e st'" "list_all returned (rs_pushes st)"
  shows "rs_life st = Up"
proof -
  have over: "returned p" if "at_push st i p" for i p
    using that assms(2) by (auto simp: at_push_def list_all_length)
  show ?thesis using assms(1) by cases (auto dest: over)
qed

lemma closing_up:
  "rs_life st = Up \<Longrightarrow> closing st \<longleftrightarrow> rs_runner st = Serving \<and> rs_reader st \<notin> {Flushing, Leaving True, Finished True} \<and>
     (rs_reader st \<in> {Leaving False, Finished False} \<longrightarrow> rs_cancelled st)"
  by (cases "rs_runner st"; simp add: closing_def; blast)

lemma push_closing:
  assumes "push_move env cfg cl lib cd st e st'" "closing st"
  shows "closing st'"
proof -
  have up: "rs_life st = Up"
    using push_while_up [OF assms(1)] assms(2) unfolding closing_def by blast
  have "rs_reader st' = Flushing \<longleftrightarrow> rs_reader st = Flushing" "rs_reader st' = Leaving b \<longleftrightarrow> rs_reader st = Leaving b"
    "rs_reader st' = Finished b \<longleftrightarrow> rs_reader st = Finished b" for b
    using push_frame(5) [OF assms(1)] by (elim disjE conjE; simp)+
  moreover have "rs_life st' = Up" using up push_frame(1) [OF assms(1)] by simp
  ultimately show ?thesis
    using assms(2) push_frame(2,3) [OF assms(1)] unfolding closing_up [OF up] by (simp add: closing_up)
qed

lemma closing_exporter:
  "closing st \<Longrightarrow> ex_descriptors (lx_exporter lx) = ex_descriptors (exporter_of st) \<Longrightarrow> closing (st\<lparr>rs_exporter := lx\<rparr>)"
  by (simp add: closing_def)

lemma reader_closing:
  assumes "reader_move cfg cl lib cd st e st'" "closing st"
  shows "closing st'"
proof -
  have down: "rs_life st \<noteq> Down False \<or> reader_members (rs_reader st) = 0"
    using assms(2) by (auto simp: closing_def)
  show ?thesis
    using assms(1) by cases
      (use assms(2) down in \<open>simp_all add: closing_def updates read_keeps [unfolded same_exporter_def]\<close>)
qed

lemma runner_closing:
  assumes "runner_move cfg cl st e st'" "closing st"
  shows "closing st'"
  using assms(1) by cases
    (use assms(2) in \<open>auto simp: closing_def updates frame\<close>)

lemma life_closing:
  assumes "life_move st e st'" "closing st" "grouped st"
  shows "closing st'"
  using assms(1) by cases
    (use assms(2,3) in \<open>auto simp: closing_def grouped_def updates\<close>)

lemma move_closing: "exporter_move env cfg cl lib cd st e st' \<Longrightarrow> closing st \<Longrightarrow> grouped st \<Longrightarrow> closing st'"
  by (auto elim!: exporter_move.cases intro: push_closing reader_closing runner_closing life_closing)

lemma locked_set_push:
  "locked cfg st \<Longrightarrow> i < length (rs_pushes st) \<Longrightarrow> busy p = busy (rs_pushes st ! i) \<Longrightarrow> locked cfg (set_push i p st)"
  by (auto simp: locked_def updates nth_list_update)

lemma locked_frame [simp]:
  "locked cfg (st\<lparr>rs_exporter := lx\<rparr>) = locked cfg st"
  "locked cfg (st\<lparr>rs_crashed := c\<rparr>) = locked cfg st"
  "locked cfg (st\<lparr>rs_runner := r\<rparr>) = locked cfg st"
  "locked cfg (st\<lparr>rs_group := n\<rparr>) = locked cfg st"
  "locked cfg (st\<lparr>rs_life := l\<rparr>) = locked cfg st"
  "locked cfg (st\<lparr>rs_cancelled := b\<rparr>) = locked cfg st"
  "(rd = NoReader \<longleftrightarrow> rs_reader st = NoReader) \<Longrightarrow> locked cfg (st\<lparr>rs_reader := rd\<rparr>) = locked cfg st"
  by (simp_all add: locked_def)

lemma push_locked:
  assumes "push_move env cfg cl lib cd st e st'" "locked cfg st"
  shows "locked cfg st'"
  using assms(1)
proof cases
  case (begin_push rms)
  then show ?thesis using assms(2) by (auto simp: locked_def nth_append less_Suc_eq)
next
  case (enter i rms)
  then show ?thesis using assms(2) by (auto simp: locked_def updates nth_list_update)
next
  case (map_metric i w ws pd pd' me)
  then show ?thesis using assms(2) locked_set_push [of cfg "set_exporter me st" i] by (simp add: updates)
next
  case (map_panics i w ws pd p)
  then show ?thesis using assms(2) by simp
next
  case (map_disturbed i w ws pd n tss pd' me)
  then show ?thesis using assms(2) locked_set_push [of cfg "set_exporter me st" i] by (simp add: updates)
next
  case (disturbed_panics i w ws pd p)
  then show ?thesis using assms(2) by simp
next
  case (range_pending i pd pids)
  then show ?thesis using assms(2) locked_set_push [of cfg st i] by (simp add: updates)
next
  case (send_request i r rs errs e me)
  then show ?thesis using assms(2) locked_set_push [of cfg "set_exporter me st" i] by (simp add: updates)
next
  case (write_request i r rs errs e lx)
  then have "locked cfg (set_push i (Sending rs (errs @ write_failures e)) st)"
    by (intro locked_set_push assms(2)) (simp_all add: updates)
  then show ?thesis unfolding write_request(2) by (simp add: updates)
next
  case (return_push i errs)
  then have "ec_wal cfg \<noteq> None \<Longrightarrow> rs_owner st = Some i" using assms(2) by (force simp: locked_def updates)
  then show ?thesis using assms(2) return_push by (auto simp: locked_def updates nth_list_update)
qed

lemma move_locked:
  assumes "exporter_move env cfg cl lib cd st e st'" "locked cfg st"
  shows "locked cfg st'"
  using assms(1)
proof cases
  case by_push
  then show ?thesis using push_locked assms(2) by blast
next
  case by_reader
  show ?thesis using by_reader(2) assms(2) by cases (simp_all add: updates)
next
  case by_runner
  show ?thesis using by_runner(2) assms(2) by cases (simp_all add: updates)
next
  case by_life
  show ?thesis using by_life(2) assms(2) by cases (simp_all add: updates)
qed

interpretation orderly: kept "exporter_move env cfg cl lib cd" "\<lambda>st. locked cfg st \<and> grouped st \<and> closing st"
  for env cfg cl lib cd
  by unfold_locales (use move_locked move_grouped move_closing in metis)

lemma started_orderly: "locked cfg (started cfg lx) \<and> grouped (started cfg lx) \<and> closing (started cfg lx)"
  by (simp add: locked_def grouped_def members_def closing_def started_def)

subsection \<open>Closing the client\<close>

definition reader_over :: "reader \<Rightarrow> bool" where
  "reader_over r \<longleftrightarrow> reader_members r = 0"

lemma reader_over_simps [simp]: "reader_over r \<longleftrightarrow> r = NoReader \<or> r = Finished True \<or> r = Finished False"
  by (cases r) (auto simp: reader_over_def)

lemma reader_over_stuck:
  assumes "reader_over (rs_reader st)"
  shows "\<not> reader_move cfg cl lib cd st e st'"
proof
  assume "reader_move cfg cl lib cd st e st'"
  then show False using assms by cases simp_all
qed

lemma closed_client_rests:
  assumes "exporter_move env cfg cl lib cd st e st'" "locked cfg st \<and> grouped st \<and> closing st" "rs_life st = Down False"
  shows "rs_life st' = Down False \<and> ex_client (exporter_of st') = ex_client (exporter_of st)"
proof -
  have rest: "reader_over (rs_reader st)" "rs_runner st = Stopped" "list_all returned (rs_pushes st)"
    using assms(2,3) unfolding closing_def reader_over_def by (simp_all del: reader_over_simps)
  from assms(1) show ?thesis
  proof cases
    case by_push
    with push_while_up [OF by_push(2) rest(3)] assms(3) show ?thesis by simp
  next
    case by_reader
    with reader_over_stuck [OF rest(1)] show ?thesis by blast
  next
    case by_runner
    show ?thesis using by_runner(2) by cases (use rest(2) in simp_all)
  next
    case by_life
    show ?thesis using by_life(2) by cases (use assms(3) in \<open>simp_all add: updates\<close>)
  qed
qed

interpretation closed: kept "exporter_move env cfg cl lib cd"
    "\<lambda>st. (locked cfg st \<and> grouped st \<and> closing st) \<and> rs_life st = Down False \<and> ex_client (exporter_of st) = c"
  for env cfg cl lib cd c
  by unfold_locales (use orderly.move_keeps closed_client_rests in metis)

text \<open>C3. The count of the exporter's goroutines is right and never negative, and when \<open>Shutdown\<close> has waited for them it
closes the client after everything else: no push is under way, the reader and the descriptor runner
have ended, no descriptor is waiting, and whatever happens afterwards, no call reaches the client.\<close>

theorem client_is_closed_last:
  assumes "run (exporter_move env cfg cl lib cd) (started cfg lx) es st"
  shows "0 \<le> rs_group st \<and> rs_group st = members st \<and>
    (rs_life st = Down False \<longrightarrow>
      list_all returned (rs_pushes st) \<and> rs_reader st \<in> {NoReader, Finished True, Finished False} \<and>
      rs_runner st = Stopped \<and> ex_descriptors (exporter_of st) = [] \<and>
      (\<forall>es' st'. run (exporter_move env cfg cl lib cd) st es' st' \<longrightarrow> ex_client (exporter_of st') = ex_client (exporter_of st)))"
proof -
  have sound: "locked cfg st \<and> grouped st \<and> closing st" using orderly.run_keeps [OF assms started_orderly] .
  then have "rs_group st = members st" "0 \<le> members st"
    using reader_members_nonneg [of "rs_reader st"] by (simp_all add: grouped_def members_def)
  moreover have "list_all returned (rs_pushes st) \<and> reader_over (rs_reader st) \<and> rs_runner st = Stopped \<and>
      ex_descriptors (exporter_of st) = []" if "rs_life st = Down False"
    using sound that unfolding closing_def reader_over_def by simp
  moreover have "ex_client (exporter_of st') = ex_client (exporter_of st)"
    if "rs_life st = Down False" "run (exporter_move env cfg cl lib cd) st es' st'" for es' st'
    using closed.run_keeps [OF that(2), of "ex_client (exporter_of st)"] sound that(1) by blast
  ultimately show ?thesis by auto
qed

subsection \<open>Runs of an example\<close>

text \<open>A push of a batch of one metric, up to its requests.\<close>

lemma push_to_requests:
  assumes st: "rs_pushes st = []" "rs_owner st = None" "rs_crashed st = None" "rs_life st = Up"
    and item: "metric_work env cfg rms = [item]" "push_item env cfg item (Map.empty, exporter_of st) = Inr (pd, me)" "ranges_over pids pd"
  obtains st' where
    "run (exporter_move env cfg cl lib cd) st [PushBegins rms, Progress, Progress, PushGathered 0 pd pids] st'"
    "at_push st' 0 (Sending (requests_of pids pd) [])" "rs_exporter st' = (rs_exporter st)\<lparr>lx_exporter := me\<rparr>"
    "rs_reader st' = rs_reader st" "rs_crashed st' = None" "rs_life st' = Up" "rs_cancelled st' = rs_cancelled st"
    "rs_runner st' = rs_runner st"
proof -
  let ?move = "exporter_move env cfg cl lib cd"
  define s1 where "s1 = st\<lparr>rs_pushes := [Entering rms]\<rparr>"
  define s2 where "s2 = s1\<lparr>rs_pushes := [Gathering [item] Map.empty], rs_owner := (if ec_wal cfg = None then rs_owner s1 else Some 0)\<rparr>"
  define s3 where "s3 = (set_exporter me s2)\<lparr>rs_pushes := [Gathering [] pd]\<rparr>"
  define s4 where "s4 = s3\<lparr>rs_pushes := [Sending (requests_of pids pd) []]\<rparr>"
  have "?move st (PushBegins rms) s1"
    using begin_push [of st env cfg cl lib cd] st by (intro by_push) (simp_all add: s1_def)
  moreover have "?move s1 Progress s2"
    using enter [of s1 0 rms cfg env cl lib cd] st item(1) by (intro by_push) (simp_all add: s1_def s2_def updates)
  moreover have "?move s2 Progress s3"
    using map_metric [of s2 0 item "[]" Map.empty env cfg pd me cl lib cd] st item(2)
    by (intro by_push) (simp_all add: s1_def s2_def s3_def updates)
  moreover have "?move s3 (PushGathered 0 pd pids) s4"
    using range_pending [of s3 0 pd pids env cfg cl lib cd] st item(3)
    by (intro by_push) (simp_all add: s1_def s2_def s3_def s4_def updates)
  ultimately have "run ?move st [PushBegins rms, Progress, Progress, PushGathered 0 pd pids] s4"
    by (intro run_Cons [of ?move] run_single [of ?move])
  then show thesis
    by (rule that) (use st in \<open>simp_all add: s1_def s2_def s3_def s4_def updates\<close>)
qed

lemma example_work: "\<exists>item. metric_work env example_exporter_config example_resources = [item]"
  by (simp add: metric_work_def scope_work_def example_resources_def example_exporter_config_def Let_def)

abbreviation direct_move :: "(unit \<times> client_call list, nat \<times> string list) running \<Rightarrow> run_event \<Rightarrow> (unit \<times> client_call list, nat \<times> string list) running \<Rightarrow> bool" where
  "direct_move \<equiv> exporter_move example_env example_exporter_config (recording accepting_client) list_log name_codec"

definition unlogged :: "(unit \<times> client_call list, nat \<times> string list) log_exporter" where
  "unlogged = \<lparr>lx_exporter = fresh_exporter ((), []) DisabledNormalizer, lx_log = (1, []), lx_open = False, lx_slept = []\<rparr>"

lemma client_is_closed_last_witness:
  "\<exists>st. run direct_move (started example_exporter_config unlogged) [ShutdownSignal, Progress, Progress, Progress] st \<and>
    rs_life st = Down False \<and> rs_runner st = Stopped \<and> rs_group st = 0"
proof -
  let ?move = "direct_move" and ?s0 = "started example_exporter_config unlogged"
  define s1 where "s1 = ?s0\<lparr>rs_life := Waiting\<rparr>"
  define s2 where "s2 = s1\<lparr>rs_runner := Draining\<rparr>"
  define s3 where "s3 = add_group (- 1) (s2\<lparr>rs_runner := Stopped\<rparr>)"
  define s4 where "s4 = s3\<lparr>rs_life := Down False\<rparr>"
  note states = s1_def s2_def s3_def s4_def started_def unlogged_def fresh_exporter_def example_exporter_config_def add_group_def
  have "?move ?s0 ShutdownSignal s1"
    using signal_shutdown [of ?s0] by (intro by_life) (simp_all add: states)
  moreover have "?move s1 Progress s2"
    using start_drain [of s1 example_exporter_config "recording accepting_client"] by (intro by_runner) (simp_all add: states)
  moreover have "?move s2 Progress s3"
    using stop_runner [of s2 example_exporter_config "recording accepting_client"] by (intro by_runner) (simp_all add: states)
  moreover have "?move s3 Progress s4"
    using group_done [of s3] by (intro by_life) (simp_all add: states)
  ultimately have "run ?move ?s0 [ShutdownSignal, Progress, Progress, Progress] s4"
    by (intro run_Cons [of ?move] run_single [of ?move])
  moreover have down: "rs_life s4 = Down False" by (simp add: s4_def)
  ultimately show ?thesis using client_is_closed_last [of example_env example_exporter_config "recording accepting_client"] by fastforce
qed

end
