(* ===== verification/LogRun.thy ===== *)
theory LogRun
  imports ExporterRun
begin

text \<open>
  The write-ahead log while the exporter runs: what the log holds and what was sent agree in every
  interleaving, shutdown flushes it and comes to an end, and two ways in which requests stay in it.
\<close>

subsection \<open>The log while the exporter runs\<close>

text \<open>The calls that try the requests \<open>rs\<close> one after the other, each at least once and at most twelve times.\<close>

inductive tried :: "exporter_config \<Rightarrow> ts_request list \<Rightarrow> client_call list \<Rightarrow> bool" for cfg where
  tried_none: "tried cfg [] []"
| tried_next: "tried cfg rs cs \<Longrightarrow> 1 \<le> k \<Longrightarrow> k \<le> 12 \<Longrightarrow> tried cfg (rs @ [r]) (cs @ replicate k (sent_as cfg r))"

text \<open>One reading of the log in terms of its queue.\<close>

lemma read_step:
  assumes lawful: "wal_lawful lib view live" and codec: "codec_ok cd"
    and st: "readable cd view st" "live (lx_log st)" "readWALAndExport cfg (recording cl) lib cd st = (e, st')"
  shows "readable cd view st' \<and> live (lx_log st') \<and>
    (case e of
       Some x \<Rightarrow> queue_of cd view st = [] \<and> queue_of cd view st' = [] \<and> entries view st' = entries view st \<and>
         sent_series (lx_exporter st') = sent_series (lx_exporter st)
     | None \<Rightarrow> length (entries view st') + length (queue_of cd view st') < length (entries view st) + length (queue_of cd view st) \<and>
         (queue_of cd view st' = queue_of cd view st \<and> sent_series (lx_exporter st') = sent_series (lx_exporter st) \<or>
          (\<exists>r k. queue_of cd view st = r # queue_of cd view st' \<and> 1 \<le> k \<and> k \<le> 12 \<and>
            sent_series (lx_exporter st') = sent_series (lx_exporter st) @ replicate k (sent_as cfg r))))"
proof -
  obtain m where m: "cd_marshal cd emptyReq = Inr m" "cd_unmarshal cd m = Inr emptyReq"
    using codec by (auto simp: codec_ok_def)
  have usable: "usable_log live st" using st(2) by (simp add: usable_log_def)
  show ?thesis
  proof (cases "entries view st = [] \<or> (\<exists>b req. entries view st = [b] \<and> cd_unmarshal cd b = Inr req \<and> isEmptyReq req)")
    case True
    then have "queue_of cd view st = []" by (auto simp: queue_of_def decoded_def)
    with read_ends [OF lawful usable True, where cfg = cfg and cl = "recording cl"] st show ?thesis
      by (auto simp: queue_of_def entries_def readable_def)
  next
    case False
    then obtain b bs req where b: "entries view st = b # bs" "cd_unmarshal cd b = Inr req" "bs \<noteq> [] \<or> \<not> isEmptyReq req"
      using st(1) by (cases "entries view st") (auto simp: readable_def)
    obtain w w' where step: "e = None"
        "st' = (retry_loop cfg (recording cl) (max_backoff cfg) req 0 (st\<lparr>lx_log := w, lx_open := True\<rparr>))\<lparr>lx_log := w'\<rparr>"
        "snd (view w') = (if bs = [] then [m] else bs)" "live w'"
      using read_pops [OF lawful m(1) usable b, where cfg = cfg and cl = "recording cl"] st(3) by auto
    have queue: "queue_of cd view st = (if isEmptyReq req then [] else [req]) @ filter (\<lambda>r. \<not> isEmptyReq r) (List.map (decoded cd) bs)"
      "queue_of cd view st' = filter (\<lambda>r. \<not> isEmptyReq r) (List.map (decoded cd) bs)"
      using b m by (auto simp: queue_of_def decoded_def entries_def step(2,3))
    have lengths: "length (entries view st') \<le> length (entries view st)" "bs \<noteq> [] \<Longrightarrow> length (entries view st') < length (entries view st)"
      using b step(3) by (auto simp: entries_def step(2))
    have "readable cd view st'" using st(1) b(1) m by (simp add: readable_def entries_def step(2,3))
    moreover have "\<exists>k. 1 \<le> k \<and> k \<le> 12 \<and> sent_series (lx_exporter st') = sent_series (lx_exporter st) @ replicate k (sent_as cfg req)"
      if "\<not> isEmptyReq req"
      using retries_log [OF that, where i = 0 and st = "st\<lparr>lx_log := w, lx_open := True\<rparr>" and cfg = cfg and cl = cl and mx = "max_backoff cfg"]
      by (auto simp: step(2) attempts_log_def sent_series_def)
    moreover have "sent_series (lx_exporter st') = sent_series (lx_exporter st)" if "isEmptyReq req"
      using that by (simp add: step(2) retry_empty)
    ultimately show ?thesis using step queue lengths b(3) by auto
  qed
qed

lemma log_step:
  assumes lawful: "wal_lawful lib view live" and codec: "codec_ok cd"
    and st: "readable cd view st" "\<not> isEmptyReq r" "log_request lib cd r st = (e, st')"
  shows "if e = None then live (lx_log st) \<and> live (lx_log st') \<and> readable cd view st' \<and> queue_of cd view st' = queue_of cd view st @ [r]
    else st' = st"
proof (cases "isl (cd_marshal cd r) \<or> \<not> live (lx_log st)")
  case True
  have "\<exists>x. wl_last lib (lx_log st) = Inl x" if "\<not> live (lx_log st)" using lawful that unfolding wal_lawful_def by blast
  with True st(3) show ?thesis by (auto simp: log_request_def isl_def split: sum.splits)
next
  case False
  then obtain b where b: "cd_marshal cd r = Inr b" by (auto simp: isl_def) (metis sumE)
  obtain w' where w': "log_request lib cd r st = (None, st\<lparr>lx_log := w'\<rparr>)" "snd (view w') = entries view st @ [b]" "live w'"
    using log_request_appends [OF lawful b] False by blast
  have decode: "cd_unmarshal cd b = Inr r" using b codec by (simp add: codec_ok_def)
  from False w' st decode show ?thesis
    by (auto simp: readable_def queue_of_def entries_def decoded_def)
qed

definition log_sound :: "codec \<Rightarrow> ('w \<Rightarrow> nat \<times> string list) \<Rightarrow> ('w \<Rightarrow> bool) \<Rightarrow> ('c, 'w) running \<Rightarrow> bool" where
  "log_sound cd view live st \<longleftrightarrow>
     readable cd view (rs_exporter st) \<and> ((\<forall>b. rs_reader st \<noteq> Finished b) \<longrightarrow> live (lx_log (rs_exporter st))) \<and>
     list_all unsent_ok (rs_pushes st)"

lemma queue_exporter [simp]:
  "queue_of cd view (lx\<lparr>lx_exporter := me\<rparr>) = queue_of cd view lx"
  "entries view (lx\<lparr>lx_exporter := me\<rparr>) = entries view lx"
  "readable cd view (lx\<lparr>lx_exporter := me\<rparr>) = readable cd view lx"
  by (simp_all add: queue_of_def entries_def readable_def)

text \<open>\<open>logged\<close>: the requests that the calls of \<open>PushMetrics\<close> wrote to the log, in order.\<close>

fun logged_by :: "run_event \<Rightarrow> ts_request list" where
  "logged_by (PushLogged i r None) = [r]"
| "logged_by e = []"

definition logged :: "run_event list \<Rightarrow> ts_request list" where
  "logged es = concat (List.map logged_by es)"

lemma logged_snoc [simp]: "logged [] = []" "logged (es @ [e]) = logged es @ logged_by e"
  by (simp_all add: logged_def)

text \<open>What a move does to the log and to the series calls: nothing, or one of three things.\<close>

datatype log_effect = Quiet | Appended ts_request | Popped "ts_request option"

definition log_moves :: "exporter_config \<Rightarrow> codec \<Rightarrow> ('w \<Rightarrow> nat \<times> string list) \<Rightarrow>
    ('c \<times> client_call list, 'w) running \<Rightarrow> ('c \<times> client_call list, 'w) running \<Rightarrow> log_effect \<Rightarrow> bool" where
  "log_moves cfg cd view st st' eff \<longleftrightarrow> (case eff of
     Quiet \<Rightarrow> queue_of cd view (rs_exporter st') = queue_of cd view (rs_exporter st) \<and>
       sent_series (exporter_of st') = sent_series (exporter_of st)
   | Appended r \<Rightarrow> queue_of cd view (rs_exporter st') = queue_of cd view (rs_exporter st) @ [r] \<and>
       sent_series (exporter_of st') = sent_series (exporter_of st)
   | Popped None \<Rightarrow> queue_of cd view (rs_exporter st') = queue_of cd view (rs_exporter st) \<and>
       sent_series (exporter_of st') = sent_series (exporter_of st)
   | Popped (Some r) \<Rightarrow> queue_of cd view (rs_exporter st) = r # queue_of cd view (rs_exporter st') \<and>
       (\<exists>k. 1 \<le> k \<and> k \<le> 12 \<and> sent_series (exporter_of st') = sent_series (exporter_of st) @ replicate k (sent_as cfg r)))"

lemma push_log:
  assumes "push_move env cfg (recording cl) lib cd st e st'" "ec_wal cfg \<noteq> None"
    and lawful: "wal_lawful lib view live" and codec: "codec_ok cd" and sound: "log_sound cd view live st"
  shows "log_sound cd view live st' \<and>
    log_moves cfg cd view st st' (case logged_by e of [] \<Rightarrow> Quiet | r # rs \<Rightarrow> Appended r)"
  using assms(1)
proof cases
  case (begin_push rms)
  then show ?thesis using sound by (simp add: log_sound_def log_moves_def unsent_ok_def)
next
  case (enter i rms)
  then show ?thesis using sound by (simp add: log_sound_def log_moves_def updates list_all_update unsent_ok_def)
next
  case (map_metric i w ws pd pd' me)
  then show ?thesis using sound push_item_keeps [OF map_metric(4)]
    by (simp add: log_sound_def log_moves_def updates list_all_update unsent_ok_def sent_series_def calls_of_def)
next
  case (map_panics i w ws pd p)
  then show ?thesis using sound by (simp add: log_sound_def log_moves_def)
next
  case (map_disturbed i w ws pd n tss pd' me)
  then show ?thesis using sound disturbed_keeps [OF map_disturbed(6)]
    by (simp add: log_sound_def log_moves_def updates list_all_update unsent_ok_def sent_series_def calls_of_def)
next
  case (disturbed_panics i w ws pd p)
  then show ?thesis using sound by (simp add: log_sound_def log_moves_def)
next
  case (range_pending i pd pids)
  then show ?thesis using sound
    by (simp add: log_sound_def log_moves_def updates list_all_update unsent_ok_def requests_nonempty)
next
  case (send_request i r rs errs e me)
  with assms(2) show ?thesis by simp
next
  case (write_request i r rs errs e lx)
  then have "unsent_ok (Sending (r # rs) errs)" using sound by (auto simp: log_sound_def intro: at_push_unsent)
  then have r: "\<not> isEmptyReq r" "unsent_ok (Sending rs (errs @ write_failures e))" by (simp_all add: unsent_ok_def)
  have "readable cd view (rs_exporter st)" using sound by (simp add: log_sound_def)
  from log_step [OF lawful codec this r(1) write_request(5)] write_request(1,2) sound r(2) log_request_keeps [OF write_request(5)]
  show ?thesis by (cases e) (simp_all add: log_sound_def log_moves_def updates list_all_update)
next
  case (return_push i errs)
  then show ?thesis using sound by (simp add: log_sound_def log_moves_def updates list_all_update unsent_ok_def)
qed

lemma log_sound_frame:
  "rs_exporter st' = (rs_exporter st)\<lparr>lx_exporter := me\<rparr> \<Longrightarrow> rs_pushes st' = rs_pushes st \<Longrightarrow>
    (\<And>b. rs_reader st' = Finished b \<longleftrightarrow> rs_reader st = Finished b) \<Longrightarrow> log_sound cd view live st \<Longrightarrow> log_sound cd view live st'"
  by (simp add: log_sound_def)

lemma reader_reads:
  assumes lawful: "wal_lawful lib view live" and codec: "codec_ok cd" and sound: "log_sound cd view live st"
    and "rs_reader st \<in> {Polling, Flushing}" "readWALAndExport cfg (recording cl) lib cd (rs_exporter st) = (e, lx)"
    and "rs_exporter st' = lx" "rs_pushes st' = rs_pushes st" "\<And>b. rs_reader st' \<noteq> Finished b"
  shows "log_sound cd view live st' \<and> (\<exists>r. log_moves cfg cd view st st' (Popped r)) \<and>
    (e \<noteq> None \<longrightarrow> queue_of cd view lx = [])"
proof -
  have st: "readable cd view (rs_exporter st)" "live (lx_log (rs_exporter st))" "list_all unsent_ok (rs_pushes st)"
    using sound assms(4) by (auto simp: log_sound_def)
  note step = read_step [OF lawful codec st(1,2) assms(5)]
  have "log_sound cd view live st'" using step st(3) assms(6-8) by (simp add: log_sound_def)
  moreover have "\<exists>r. log_moves cfg cd view st st' (Popped r)"
  proof (cases "\<exists>r. queue_of cd view (rs_exporter st) = r # queue_of cd view lx")
    case True
    then obtain r where "queue_of cd view (rs_exporter st) = r # queue_of cd view lx" by blast
    with step have "log_moves cfg cd view st st' (Popped (Some r))"
      unfolding log_moves_def assms(6) by (cases e) auto
    then show ?thesis by blast
  next
    case False
    with step have "log_moves cfg cd view st st' (Popped None)"
      unfolding log_moves_def assms(6) by (cases e) auto
    then show ?thesis by blast
  qed
  moreover have "e \<noteq> None \<longrightarrow> queue_of cd view lx = []" using step by (cases e) auto
  ultimately show ?thesis by blast
qed

lemma quiet_pops: "log_moves cfg cd view st st' Quiet \<Longrightarrow> log_moves cfg cd view st st' (Popped None)"
  by (simp add: log_moves_def)

lemma quiet: "rs_exporter st' = rs_exporter st \<Longrightarrow> log_moves cfg cd view st st' Quiet"
  by (simp add: log_moves_def)

lemma close_view:
  "wal_lawful lib view live \<Longrightarrow> log_sound cd view live st \<Longrightarrow> rs_reader st = Leaving b \<Longrightarrow>
    wl_close lib (lx_log (rs_exporter st)) = (e, w) \<Longrightarrow> view w = view (lx_log (rs_exporter st))"
  unfolding wal_lawful_def log_sound_def by (metis prod.inject reader.simps)

lemma reader_log:
  assumes "reader_move cfg (recording cl) lib cd st e st'"
    and lawful: "wal_lawful lib view live" and codec: "codec_ok cd" and sound: "log_sound cd view live st"
  shows "log_sound cd view live st' \<and> (\<exists>r. log_moves cfg cd view st st' (Popped r)) \<and> logged_by e = []"
  using assms(1)
proof cases
  case (flush_entry lx)
  then show ?thesis using reader_reads [OF lawful codec sound _ flush_entry(5), of st'] by simp
next
  case (flush_ends x lx)
  then show ?thesis using reader_reads [OF lawful codec sound _ flush_ends(5), of st'] by simp
next
  case (read_entry lx)
  then show ?thesis using reader_reads [OF lawful codec sound _ read_entry(5), of st'] by simp
next
  case (read_fails x lx)
  then show ?thesis using reader_reads [OF lawful codec sound _ read_fails(5), of st'] by (simp add: updates)
next
  case (finish_reader flushed x w)
  have "view w = view (lx_log (rs_exporter st))" using close_view [OF lawful sound finish_reader(3,4)] .
  then have "queue_of cd view (rs_exporter st') = queue_of cd view (rs_exporter st)"
    "readable cd view (rs_exporter st') = readable cd view (rs_exporter st)" "exporter_of st' = exporter_of st"
    by (simp_all add: finish_reader(2) queue_of_def entries_def readable_def add_group_def)
  then have "log_moves cfg cd view st st' Quiet" "log_sound cd view live st'"
    using sound finish_reader(2) by (auto simp: log_moves_def log_sound_def add_group_def)
  then show ?thesis using finish_reader(1) quiet_pops by fastforce
qed (use sound in \<open>auto intro!: exI [of _ None] quiet_pops quiet simp: log_sound_def updates\<close>)

lemma runner_log:
  assumes "runner_move cfg (recording cl) st e st'" "log_sound cd view live st"
  shows "log_sound cd view live st' \<and> log_moves cfg cd view st st' Quiet \<and> logged_by e = []"
  using assms(1) by cases (use assms(2) in \<open>simp_all add: log_sound_def log_moves_def updates\<close>)

lemma life_log:
  assumes "life_move st e st'" "log_sound cd view live st"
  shows "log_sound cd view live st' \<and> log_moves cfg cd view st st' Quiet \<and> logged_by e = []"
  using assms(1) by cases (use assms(2) in \<open>simp_all add: log_sound_def log_moves_def updates sent_series_def calls_of_def\<close>)

lemma move_log:
  assumes "exporter_move env cfg (recording cl) lib cd st e st'" "ec_wal cfg \<noteq> None"
    and "wal_lawful lib view live" "codec_ok cd" "log_sound cd view live st"
  obtains r where "log_sound cd view live st'" "logged_by e = []" "log_moves cfg cd view st st' (Popped r)"
  | r where "log_sound cd view live st'" "logged_by e = [r]" "log_moves cfg cd view st st' (Appended r)"
  using assms(1)
proof cases
  case by_push
  have "logged_by e = [] \<or> (\<exists>r. logged_by e = [r])" by (cases e rule: logged_by.cases) simp_all
  with push_log [OF by_push(2) assms(2-5)] show ?thesis using that quiet_pops by (metis list.simps(4,5))
next
  case by_reader
  with reader_log [OF _ assms(3-5)] show ?thesis using that(1) by metis
next
  case by_runner
  with runner_log [OF _ assms(5)] show ?thesis using that(1) quiet_pops by metis
next
  case by_life
  with life_log [OF _ assms(5)] show ?thesis using that(1) quiet_pops by metis
qed

definition flush_complete :: "codec \<Rightarrow> ('w \<Rightarrow> nat \<times> string list) \<Rightarrow> ('c, 'w) running \<Rightarrow> bool" where
  "flush_complete cd view st \<longleftrightarrow>
     (rs_reader st \<in> {Leaving True, Finished True} \<longrightarrow> queue_of cd view (rs_exporter st) = [])"

definition run_sound :: "exporter_config \<Rightarrow> codec \<Rightarrow> ('w \<Rightarrow> nat \<times> string list) \<Rightarrow> ('w \<Rightarrow> bool) \<Rightarrow>
    ('c, 'w) running \<Rightarrow> bool" where
  "run_sound cfg cd view live st \<longleftrightarrow>
     locked cfg st \<and> grouped st \<and> closing st \<and> log_sound cd view live st \<and> flush_complete cd view st"

lemma move_flush:
  assumes "exporter_move env cfg (recording cl) lib cd st e st'" "wal_lawful lib view live" "codec_ok cd"
    and sound: "closing st" "log_sound cd view live st" and "flush_complete cd view st"
  shows "flush_complete cd view st'"
  using assms(1)
proof cases
  case by_push
  have "rs_life st = Up" using push_while_up [OF by_push(2)] sound(1) unfolding closing_def by blast
  then have "rs_reader st \<notin> {Leaving True, Finished True}" using sound(1) by (simp add: closing_up)
  then have "rs_reader st' \<notin> {Leaving True, Finished True}"
    using push_frame(5) [OF by_push(2)] by (elim disjE conjE; simp)
  then show ?thesis by (simp add: flush_complete_def)
next
  case by_reader
  show ?thesis using by_reader(2)
  proof cases
    case (flush_ends x lx)
    then show ?thesis using reader_reads [OF assms(2,3) sound(2) _ flush_ends(5), of st'] by (simp add: flush_complete_def)
  next
    case (finish_reader flushed x w)
    have "view w = view (lx_log (rs_exporter st))" using close_view [OF assms(2) sound(2) finish_reader(3,4)] .
    then show ?thesis using assms(6) finish_reader(3)
      by (simp add: finish_reader(2) flush_complete_def queue_of_def entries_def updates)
  qed (simp_all add: flush_complete_def updates)
next
  case by_runner
  show ?thesis using by_runner(2) by cases (use assms(6) in \<open>simp_all add: flush_complete_def updates\<close>)
next
  case by_life
  show ?thesis using by_life(2) by cases (use assms(6) in \<open>simp_all add: flush_complete_def updates\<close>)
qed

lemma move_sound:
  assumes "exporter_move env cfg (recording cl) lib cd st e st'" "ec_wal cfg \<noteq> None"
    and "wal_lawful lib view live" "codec_ok cd" "run_sound cfg cd view live st"
  shows "run_sound cfg cd view live st'"
  using assms(5) move_locked [OF assms(1)] move_grouped [OF assms(1)] move_closing [OF assms(1)]
    move_flush [OF assms(1,3,4)] move_log [OF assms(1-4)]
  unfolding run_sound_def by metis

text \<open>The requests that were in the log or written to it are those tried and, behind them, those still there.\<close>

definition conserved :: "exporter_config \<Rightarrow> codec \<Rightarrow> ('w \<Rightarrow> nat \<times> string list) \<Rightarrow> ('c \<times> client_call list, 'w) log_exporter \<Rightarrow>
    run_event list \<Rightarrow> ('c \<times> client_call list, 'w) running \<Rightarrow> bool" where
  "conserved cfg cd view lx es st \<longleftrightarrow> (\<exists>popped cs. tried cfg popped cs \<and>
     sent_series (exporter_of st) = sent_series (lx_exporter lx) @ cs \<and>
     queue_of cd view lx @ logged es = popped @ queue_of cd view (rs_exporter st))"

lemma move_conserves:
  assumes "exporter_move env cfg (recording cl) lib cd st e st'" "ec_wal cfg \<noteq> None"
    and "wal_lawful lib view live" "codec_ok cd" "log_sound cd view live st" "conserved cfg cd view lx es st"
  shows "conserved cfg cd view lx (es @ [e]) st'"
proof -
  obtain popped cs where c: "tried cfg popped cs"
    "sent_series (exporter_of st) = sent_series (lx_exporter lx) @ cs"
    "queue_of cd view lx @ logged es = popped @ queue_of cd view (rs_exporter st)"
    using assms(6) unfolding conserved_def by blast
  from move_log [OF assms(1-5)] show ?thesis
  proof cases
    case (1 r)
    show ?thesis
    proof (cases r)
      case None
      with 1 c show ?thesis unfolding conserved_def by (auto simp: log_moves_def)
    next
      case (Some q)
      then obtain k where k: "1 \<le> k" "k \<le> 12" "queue_of cd view (rs_exporter st) = q # queue_of cd view (rs_exporter st')"
        "sent_series (exporter_of st') = sent_series (exporter_of st) @ replicate k (sent_as cfg q)"
        using 1 by (auto simp: log_moves_def)
      show ?thesis unfolding conserved_def
        by (rule exI [of _ "popped @ [q]"], rule exI [of _ "cs @ replicate k (sent_as cfg q)"])
          (use tried_next [OF c(1) k(1,2)] c k 1 in simp)
    qed
  next
    case (2 r)
    show ?thesis unfolding conserved_def
      by (rule exI [of _ popped], rule exI [of _ cs]) (use c 2 in \<open>simp add: log_moves_def flip: append_assoc\<close>)
  qed
qed

definition log_context :: "exporter_config \<Rightarrow> 'w wal_lib \<Rightarrow> codec \<Rightarrow> ('w \<Rightarrow> nat \<times> string list) \<Rightarrow> ('w \<Rightarrow> bool) \<Rightarrow> bool" where
  "log_context cfg lib cd view live \<longleftrightarrow> ec_wal cfg \<noteq> None \<and> wal_lawful lib view live \<and> codec_ok cd"

interpretation log_run: followed "exporter_move env cfg (recording cl) lib cd"
    "\<lambda>st. log_context cfg lib cd view live \<and> run_sound cfg cd view live st" "conserved cfg cd view lx"
  for env cfg cl lib cd view live lx
  by unfold_locales
    (auto simp: log_context_def run_sound_def intro: move_conserves dest: move_sound [unfolded run_sound_def])

lemma started_sound:
  assumes "ec_wal cfg \<noteq> None" "readable cd view lx" "live (lx_log lx)"
  shows "run_sound cfg cd view live (started cfg lx)"
  using assms started_orderly [of cfg lx]
  by (simp add: run_sound_def log_sound_def flush_complete_def) (simp add: started_def)

lemma started_conserved: "conserved cfg cd view lx [] (started cfg lx)"
  by (auto simp: conserved_def started_def intro!: tried_none)

text \<open>C1. However pushes, readings of the log, descriptors, sweeps, cancellation and shutdown interleave, the log loses
and repeats nothing: the requests it held at the start and those written since are, in order, the
requests already tried, each between one and twelve times without another request in between, and
those still in the log; and when the reader ended by flushing, none is left.\<close>

theorem running_log_conserves_requests:
  assumes "log_context cfg lib cd view live" "readable cd view lx" "live (lx_log lx)"
    and "run (exporter_move env cfg (recording cl) lib cd) (started cfg lx) es st"
  shows "\<exists>popped cs. tried cfg popped cs \<and>
    sent_series (exporter_of st) = sent_series (lx_exporter lx) @ cs \<and>
    queue_of cd view lx @ logged es = popped @ queue_of cd view (rs_exporter st) \<and>
    (rs_reader st = Finished True \<longrightarrow> queue_of cd view (rs_exporter st) = [])"
proof -
  have sound: "log_context cfg lib cd view live \<and> run_sound cfg cd view live (started cfg lx)"
    using assms(1) started_sound [of cfg cd view lx live] by (simp add: assms log_context_def)
  have "run_sound cfg cd view live st" using log_run.run_keeps [OF assms(4) sound] by blast
  moreover have "conserved cfg cd view lx es st"
    using log_run.run_follows [OF assms(4) sound started_conserved] .
  ultimately show ?thesis by (auto simp: conserved_def run_sound_def flush_complete_def)
qed

subsection \<open>Shutdown\<close>

fun reader_rank :: "reader \<Rightarrow> nat" where
  "reader_rank Polling = 6"
| "reader_rank Arming = 5"
| "reader_rank (Watching b) = 4"
| "reader_rank Reading = 3"
| "reader_rank Flushing = 2"
| "reader_rank (Leaving b) = 1"
| "reader_rank r = 0"

fun runner_rank :: "descriptor_runner \<Rightarrow> nat" where
  "runner_rank Serving = 2" | "runner_rank Draining = 1" | "runner_rank Stopped = 0"

definition log_rank :: "codec \<Rightarrow> ('w \<Rightarrow> nat \<times> string list) \<Rightarrow> ('c, 'w) running \<Rightarrow> nat" where
  "log_rank cd view st = length (entries view (rs_exporter st)) + length (queue_of cd view (rs_exporter st))"

text \<open>The moves that are left, sweeps aside.\<close>

definition moves_left :: "codec \<Rightarrow> ('w \<Rightarrow> nat \<times> string list) \<Rightarrow> ('c, 'w) running \<Rightarrow> nat" where
  "moves_left cd view st = reader_rank (rs_reader st) + runner_rank (rs_runner st) + length (ex_descriptors (exporter_of st)) +
     (if rs_reader st = NoReader then 0 else log_rank cd view st) + (if rs_life st = Waiting then 1 else 0) +
     (if rs_cancelled st then 0 else 1)"

definition move_price :: "run_event \<Rightarrow> nat" where
  "move_price e = (if e = CacheTick then 0 else 1)"

lemma price_length: "sum_list (List.map move_price es) = length (filter (\<lambda>e. e \<noteq> CacheTick) es)"
  by (induction es) (simp_all add: move_price_def)

definition shut_sound :: "exporter_config \<Rightarrow> 'w wal_lib \<Rightarrow> codec \<Rightarrow> ('w \<Rightarrow> nat \<times> string list) \<Rightarrow> ('w \<Rightarrow> bool) \<Rightarrow>
    ('c, 'w) running \<Rightarrow> bool" where
  "shut_sound cfg lib cd view live st \<longleftrightarrow> log_context cfg lib cd view live \<and> run_sound cfg cd view live st \<and>
     rs_life st \<noteq> Up \<and> rs_crashed st = None"

lemma reader_pays:
  assumes "reader_move cfg (recording cl) lib cd st e st'" "shut_sound cfg lib cd view live st"
  shows "1 + moves_left cd view st' \<le> moves_left cd view st"
proof -
  have lawful: "wal_lawful lib view live" and codec: "codec_ok cd" and sound: "log_sound cd view live st" "rs_life st \<noteq> Up"
    using assms(2) by (simp_all add: shut_sound_def log_context_def run_sound_def)
  have live: "readable cd view (rs_exporter st)" "rs_reader st \<in> {Polling, Flushing} \<Longrightarrow> live (lx_log (rs_exporter st))"
    using sound(1) by (auto simp: log_sound_def)
  show ?thesis using assms(1)
  proof cases
    case (flush_entry lx)
    then show ?thesis using read_step [OF lawful codec live(1) live(2) flush_entry(5)] read_keeps [OF flush_entry(5)]
      by (simp add: moves_left_def log_rank_def same_exporter_def)
  next
    case (flush_ends x lx)
    then show ?thesis using read_step [OF lawful codec live(1) live(2) flush_ends(5)] read_keeps [OF flush_ends(5)]
      by (simp add: moves_left_def log_rank_def same_exporter_def)
  next
    case (read_entry lx)
    then show ?thesis using read_step [OF lawful codec live(1) live(2) read_entry(5)] read_keeps [OF read_entry(5)]
      by (simp add: moves_left_def log_rank_def same_exporter_def)
  next
    case (read_fails x lx)
    then show ?thesis using read_step [OF lawful codec live(1) live(2) read_fails(5)] read_keeps [OF read_fails(5)]
      by (simp add: moves_left_def log_rank_def same_exporter_def updates)
  next
    case (finish_reader flushed x w)
    have "view w = view (lx_log (rs_exporter st))" using close_view [OF lawful sound(1) finish_reader(3,4)] .
    then show ?thesis using finish_reader(2,3) by (simp add: moves_left_def log_rank_def updates entries_def queue_of_def)
  qed (use sound(2) in \<open>simp_all add: moves_left_def log_rank_def updates\<close>)
qed

lemma descriptor_turn_left: "ds \<noteq> [] \<Longrightarrow> Suc (length (drop 1 ds)) = length ds"
  by (cases ds) simp_all

lemma runner_pays:
  "runner_move cfg cl st e st' \<Longrightarrow> 1 + moves_left cd view st' \<le> moves_left cd view st"
  by (erule runner_move.cases)
    (auto simp: moves_left_def log_rank_def updates frame dest: descriptor_turn_left)

lemma life_pays:
  "life_move st e st' \<Longrightarrow> rs_life st \<noteq> Up \<Longrightarrow> move_price e + moves_left cd view st' \<le> moves_left cd view st"
  by (erule life_move.cases) (simp_all add: moves_left_def log_rank_def updates move_price_def)

lemma shut_move:
  assumes "exporter_move env cfg (recording cl) lib cd st e st'" "shut_sound cfg lib cd view live st"
  shows "shut_sound cfg lib cd view live st' \<and> move_price e + moves_left cd view st' \<le> moves_left cd view st"
proof -
  have st: "log_context cfg lib cd view live" "run_sound cfg cd view live st" "rs_life st \<noteq> Up" "rs_crashed st = None"
    using assms(2) by (simp_all add: shut_sound_def)
  have "run_sound cfg cd view live st'" using move_sound [OF assms(1)] st by (simp add: log_context_def)
  moreover have "rs_life st' \<noteq> Up \<and> rs_crashed st' = None \<and> move_price e + moves_left cd view st' \<le> moves_left cd view st"
    using assms(1)
  proof cases
    case by_push
    have "list_all returned (rs_pushes st)" using st(2,3) unfolding run_sound_def closing_def by blast
    with push_while_up [OF by_push(2)] st(3) show ?thesis by simp
  next
    case by_reader
    have "rs_life st' = rs_life st" "rs_crashed st' = rs_crashed st" "move_price e \<le> 1"
      using by_reader(2) by (cases; simp add: updates move_price_def)+
    with reader_pays [OF by_reader(2) assms(2)] st show ?thesis by simp
  next
    case by_runner
    have "rs_life st' = rs_life st" "rs_crashed st' = rs_crashed st" "move_price e \<le> 1"
      using by_runner(2) by (cases; simp add: updates move_price_def)+
    with runner_pays [OF by_runner(2), of cd view] st show ?thesis by simp
  next
    case by_life
    have "rs_life st' \<noteq> Up" "rs_crashed st' = rs_crashed st"
      using by_life(2) st(3) by (cases; simp add: updates)+
    with life_pays [OF by_life(2) st(3), of cd view] st show ?thesis by simp
  qed
  ultimately show ?thesis using st(1) by (simp add: shut_sound_def)
qed

interpretation shutting: paid "exporter_move env cfg (recording cl) lib cd" "shut_sound cfg lib cd view live" move_price
    "moves_left cd view"
  for env cfg cl lib cd view live
  by unfold_locales (use shut_move in metis)+

definition shut_down :: "('c, 'w) running \<Rightarrow> bool" where
  "shut_down st \<longleftrightarrow> (\<exists>b. rs_life st = Down b) \<and> reader_over (rs_reader st) \<and> rs_runner st = Stopped"

text \<open>Until everything has ended some goroutine can move.\<close>

lemma shutdown_progress:
  assumes "shut_sound cfg lib cd view live st" "\<not> shut_down st"
  shows "\<exists>st'. exporter_move env cfg (recording cl) lib cd st Progress st'"
proof -
  have st: "rs_life st \<noteq> Up" "rs_crashed st = None" "locked cfg st" "list_all returned (rs_pushes st)" "rs_group st = members st"
    "ec_wal cfg \<noteq> None"
    using assms(1) unfolding shut_sound_def run_sound_def grouped_def closing_def log_context_def by blast+
  have owner: "rs_owner st = None"
  proof (rule ccontr)
    assume "rs_owner st \<noteq> None"
    then obtain i where "i < length (rs_pushes st)" "busy (rs_pushes st ! i)" using st(3,6) by (auto simp: locked_def)
    with st(4) returned_not_busy show False by (auto simp: list_all_length)
  qed
  have runner: ?thesis if "rs_runner st \<noteq> Stopped"
  proof (cases "rs_runner st = Serving")
    case True
    then show ?thesis using start_drain [OF True st(1)] by_runner [OF st(2)] by blast
  next
    case False
    with that have "rs_runner st = Draining" by (cases "rs_runner st") simp_all
    then show ?thesis using drain [of st] stop_runner [of st] by_runner [OF st(2)] by metis
  qed
  have reader: ?thesis if "\<not> reader_over (rs_reader st)"
  proof -
    obtain e lx where r: "readWALAndExport cfg (recording cl) lib cd (rs_exporter st) = (e, lx)" by fastforce
    obtain c w where w: "wl_close lib (lx_log (rs_exporter st)) = (c, w)" by fastforce
    have "\<exists>st'. reader_move cfg (recording cl) lib cd st Progress st'"
    proof (cases "rs_reader st")
      case Reading
      show ?thesis by (rule exI, rule start_flush [OF Reading st(1)])
    next
      case Polling
      show ?thesis
        by (cases e) (use r read_entry [OF Polling owner] read_fails [OF Polling owner] in blast)+
    next
      case Arming
      show ?thesis by (rule exI, rule arm [OF Arming])
    next
      case (Watching b)
      show ?thesis by (rule exI, rule see_signal [OF Watching]) (use st(1) in simp)
    next
      case Flushing
      show ?thesis
        by (cases e) (use r flush_entry [OF Flushing owner] flush_ends [OF Flushing owner] in blast)+
    next
      case (Leaving b)
      show ?thesis by (rule exI, rule finish_reader [OF Leaving w])
    qed (use that in auto)
    then show ?thesis using by_reader [OF st(2)] by blast
  qed
  show ?thesis
  proof (cases "reader_over (rs_reader st) \<and> rs_runner st = Stopped")
    case True
    then have "rs_group st = 0" using st(5) by (simp add: members_def reader_over_def del: reader_over_simps)
    moreover have "rs_life st = Waiting" using True assms(2) st(1) by (cases "rs_life st") (auto simp: shut_down_def)
    ultimately show ?thesis using group_done by_life [OF st(2)] by blast
  qed (use runner reader in blast)
qed

text \<open>C15. Once \<open>Shutdown\<close> has closed the signal channel, the exporter comes to its end: apart from sweeps at most \<open>moves_left\<close>
moves follow, whatever their order, before the end there is always a goroutine that can move, and at
the end, unless the context of \<open>Start\<close> was cancelled, the log holds no request.\<close>

theorem shutdown_completes:
  assumes "log_context cfg lib cd view live" "readable cd view lx" "live (lx_log lx)"
    and "run (exporter_move env cfg (recording cl) lib cd) (started cfg lx) es st" "rs_life st \<noteq> Up" "rs_crashed st = None"
    and "run (exporter_move env cfg (recording cl) lib cd) st es' st'"
  shows "length (filter (\<lambda>e. e \<noteq> CacheTick) es') \<le> moves_left cd view st \<and>
    (shut_down st' \<or> (\<exists>st''. exporter_move env cfg (recording cl) lib cd st' Progress st'')) \<and>
    (shut_down st' \<and> \<not> rs_cancelled st' \<longrightarrow> queue_of cd view (rs_exporter st') = [])"
proof -
  have "run_sound cfg cd view live st"
    using log_run.run_keeps [OF assms(4)] assms(1) started_sound [of cfg cd view lx live] assms(2,3)
    by (simp add: log_context_def)
  then have st: "shut_sound cfg lib cd view live st" using assms(1,5,6) by (simp add: shut_sound_def)
  have st': "shut_sound cfg lib cd view live st'" using shutting.run_keeps [OF assms(7) st] .
  then have last: "flush_complete cd view st'" "closing st'" "locked cfg st'" "ec_wal cfg \<noteq> None"
    by (simp_all add: shut_sound_def run_sound_def log_context_def)
  have "queue_of cd view (rs_exporter st') = []" if "shut_down st'" "\<not> rs_cancelled st'"
  proof -
    have "rs_reader st' \<noteq> NoReader" "rs_reader st' \<noteq> Finished False"
      using last(2-4) that(2) by (auto simp: locked_def closing_def)
    then show ?thesis using that(1) last(1) by (simp add: shut_down_def flush_complete_def)
  qed
  moreover have "length (filter (\<lambda>e. e \<noteq> CacheTick) es') \<le> moves_left cd view st"
    using shutting.run_pays [OF assms(7) st] by (simp add: price_length)
  ultimately show ?thesis using shutdown_progress [OF st'] by blast
qed

subsection \<open>Requests that stay in the log\<close>

text \<open>An event without which a watch goes on: the log is not written, nothing else touches its files and neither
signal comes.\<close>

definition unnoticed :: "run_event \<Rightarrow> bool" where
  "unnoticed e \<longleftrightarrow> logged_by e = [] \<and> e \<notin> {FilesChanged, ShutdownSignal, ContextDone}"

definition asleep :: "('c, 'w) running \<Rightarrow> bool" where
  "asleep st \<longleftrightarrow> rs_reader st = Watching False \<and> rs_life st = Up \<and> \<not> rs_cancelled st"

lemma unlogged_reader:
  "push_move env cfg cl lib cd st e st' \<Longrightarrow> logged_by e = [] \<Longrightarrow> rs_reader st' = rs_reader st"
  by (erule push_move.cases) (auto simp: updates)

lemma sleeps_on:
  assumes "exporter_move env cfg (recording cl) lib cd st e st'" "unnoticed e" "asleep st" "log_context cfg lib cd view live"
    "run_sound cfg cd view live st"
  shows "asleep st' \<and> queue_of cd view (rs_exporter st') = queue_of cd view (rs_exporter st)"
proof -
  have st: "log_sound cd view live st" "ec_wal cfg \<noteq> None" "wal_lawful lib view live" "codec_ok cd"
    using assms(4,5) by (simp_all add: log_context_def run_sound_def)
  have none: "logged_by e = []" using assms(2) by (simp add: unnoticed_def)
  from assms(1) show ?thesis
  proof cases
    case by_push
    have "asleep st'" using push_frame(1,3) [OF by_push(2)] unlogged_reader [OF by_push(2) none] assms(3)
      by (simp add: asleep_def)
    then show ?thesis using push_log [OF by_push(2) st(2-4,1)] none by (simp add: log_moves_def)
  next
    case by_reader
    show ?thesis using by_reader(2) by cases (use assms(2,3) in \<open>simp_all add: asleep_def unnoticed_def\<close>)
  next
    case by_runner
    have "asleep st'" using by_runner(2) by cases (use assms(3) in \<open>simp_all add: asleep_def updates\<close>)
    then show ?thesis using runner_log [OF by_runner(2) st(1)] by (simp add: log_moves_def)
  next
    case by_life
    have "asleep st'" using by_life(2) by cases (use assms(2,3) in \<open>simp_all add: asleep_def unnoticed_def updates\<close>)
    then show ?thesis using life_log [OF by_life(2) st(1)] by (simp add: log_moves_def)
  qed
qed

interpretation sleeping: followed "exporter_move env cfg (recording cl) lib cd"
    "\<lambda>st. log_context cfg lib cd view live \<and> run_sound cfg cd view live st"
    "\<lambda>es st. list_all unnoticed es \<longrightarrow> asleep st \<and> queue_of cd view (rs_exporter st) = q"
  for env cfg cl lib cd view live q
  by unfold_locales (use sleeps_on in fastforce)

lemma started_run_sound:
  assumes "log_context cfg lib cd view live" "readable cd view lx" "live (lx_log lx)"
    and "run (exporter_move env cfg (recording cl) lib cd) (started cfg lx) es st"
  shows "run_sound cfg cd view live st"
  using log_run.run_keeps [OF assms(4)] assms started_sound [of cfg cd view lx live] by (simp add: log_context_def)

text \<open>C20. A wake-up can be lost: the watch of the log's files begins only after the log was found empty and released, so a
request that is written between the two is not noticed. From every reachable state in which the reader
has found the log empty and a push is about to write a request, the push writes it, the watch begins,
and the reader sleeps with the request in the log until the next write, a signal or a foreign change.\<close>

theorem write_before_watch_is_missed:
  assumes "log_context cfg lib cd view live" "readable cd view lx" "live (lx_log lx)"
    and "run (exporter_move env cfg (recording cl) lib cd) (started cfg lx) es st" "rs_crashed st = None"
    and "rs_reader st = Arming" "rs_life st = Up" "\<not> rs_cancelled st"
    and "at_push st i (Sending (r # rs) errs)" "cd_marshal cd r = Inr b"
  shows "\<exists>st2. run (exporter_move env cfg (recording cl) lib cd) st [PushLogged i r None, Progress] st2 \<and>
    queue_of cd view (rs_exporter st2) = queue_of cd view (rs_exporter st) @ [r] \<and>
    (\<forall>es' st'. run (exporter_move env cfg (recording cl) lib cd) st2 es' st' \<and> list_all unnoticed es' \<longrightarrow>
      rs_reader st' = Watching False \<and> queue_of cd view (rs_exporter st') = queue_of cd view (rs_exporter st) @ [r])"
proof -
  let ?move = "exporter_move env cfg (recording cl) lib cd"
  have given: "ec_wal cfg \<noteq> None" "wal_lawful lib view live" "codec_ok cd" using assms(1) by (simp_all add: log_context_def)
  have sound: "run_sound cfg cd view live st" using started_run_sound [OF assms(1-4)] .
  then have st: "log_sound cd view live st" by (simp add: run_sound_def)
  then have "live (lx_log (rs_exporter st))" using assms(6) by (simp add: log_sound_def)
  then obtain w where "log_request lib cd r (rs_exporter st) = (None, (rs_exporter st)\<lparr>lx_log := w\<rparr>)"
    using log_request_appends [OF given(2) assms(10)] by blast
  from write_request [OF assms(9) given(1) this] obtain st1 where
    st1: "push_move env cfg (recording cl) lib cd st (PushLogged i r None) st1" "rs_reader st1 = Arming" "rs_crashed st1 = None"
      "rs_life st1 = Up" "\<not> rs_cancelled st1"
    using assms(5-8) by (force simp: notify_def updates)
  let ?st2 = "st1\<lparr>rs_reader := Watching False\<rparr>"
  have move1: "?move st (PushLogged i r None) st1" using st1(1) assms(5) by (rule by_push [rotated])
  have move2: "?move st1 Progress ?st2" using arm [OF st1(2)] st1(3) by (rule by_reader [rotated])
  have queue: "queue_of cd view (rs_exporter ?st2) = queue_of cd view (rs_exporter st) @ [r]"
    using push_log [OF st1(1) given st] by (simp add: log_moves_def)
  have "asleep ?st2" using st1 by (simp add: asleep_def)
  have sound2: "run_sound cfg cd view live ?st2"
    using move_sound [OF move2 given] move_sound [OF move1 given sound] by blast
  have "rs_reader st' = Watching False \<and> queue_of cd view (rs_exporter st') = queue_of cd view (rs_exporter st) @ [r]"
    if "run ?move ?st2 es' st'" "list_all unnoticed es'" for es' st'
    using sleeping.run_follows [OF that(1), of view live "queue_of cd view (rs_exporter st) @ [r]"] that(2)
      assms(1) sound2 \<open>asleep ?st2\<close> queue by (simp add: asleep_def)
  moreover have "run ?move st [PushLogged i r None, Progress] ?st2"
    by (rule run_Cons [of ?move, OF move1], rule run_single [of ?move, OF move2])
  ultimately show ?thesis using queue by blast
qed

text \<open>What the log holds when its oldest entry cannot be unmarshalled.\<close>

definition jammed :: "codec \<Rightarrow> ('w \<Rightarrow> nat \<times> string list) \<Rightarrow> ('w \<Rightarrow> bool) \<Rightarrow> string list \<Rightarrow> client_call list \<Rightarrow>
    ('c \<times> client_call list, 'w) running \<Rightarrow> bool" where
  "jammed cd view live bs cs st \<longleftrightarrow>
     (\<exists>new. entries view (rs_exporter st) = bs @ new) \<and> ((\<forall>b. rs_reader st \<noteq> Finished b) \<longrightarrow> live (lx_log (rs_exporter st))) \<and>
     sent_series (exporter_of st) = cs"

lemma read_jammed:
  assumes "wal_lawful lib view live" "live (lx_log st)" "entries view st = b # bs" "cd_unmarshal cd b = Inl x"
  shows "\<exists>w. readWALAndExport cfg cl lib cd st = (Some (UnmarshalError x), st\<lparr>lx_log := w, lx_open := True\<rparr>) \<and>
    view w = view (lx_log st) \<and> live w"
proof -
  have "usable_log live st" using assms(2) by (simp add: usable_log_def)
  from setupWAL_lawful [OF assms(1) this] obtain w where
    w: "setupWAL lib st = (Inr (fst (view (lx_log st)), last_index (view (lx_log st))), st\<lparr>lx_log := w, lx_open := True\<rparr>)"
      "view w = view (lx_log st)" "live w"
    using assms(3) by auto
  with assms show ?thesis
    by (intro exI [of _ w]) (simp add: readWALAndExport_def read_lawful [OF assms(1) w(3)] entries_def)
qed

lemma log_request_entries:
  assumes "wal_lawful lib view live" "log_request lib cd r st = (e, st')"
  shows "\<exists>new. entries view st' = entries view st @ new" "live (lx_log st) \<Longrightarrow> live (lx_log st')"
proof -
  have "st' = st \<or> (\<exists>b. entries view st' = entries view st @ [b] \<and> live (lx_log st'))"
  proof (cases "isl (cd_marshal cd r) \<or> \<not> live (lx_log st)")
    case True
    have "\<exists>x. wl_last lib (lx_log st) = Inl x" if "\<not> live (lx_log st)" using assms(1) that unfolding wal_lawful_def by blast
    with True assms(2) show ?thesis by (auto simp: log_request_def isl_def split: sum.splits)
  next
    case False
    then obtain b where b: "cd_marshal cd r = Inr b" by (auto simp: isl_def) (metis sumE)
    with log_request_appends [OF assms(1) b, of st] False assms(2) show ?thesis by (auto simp: entries_def)
  qed
  then show "\<exists>new. entries view st' = entries view st @ new" "live (lx_log st) \<Longrightarrow> live (lx_log st')" by auto
qed

lemma move_jammed:
  assumes "exporter_move env cfg (recording cl) lib cd st e st'" "ec_wal cfg \<noteq> None" "wal_lawful lib view live"
    "cd_unmarshal cd b = Inl x" "jammed cd view live (b # bs) cs st"
  shows "jammed cd view live (b # bs) cs st'"
proof -
  obtain new where st: "entries view (rs_exporter st) = b # (bs @ new)" "sent_series (exporter_of st) = cs"
    "(\<forall>b. rs_reader st \<noteq> Finished b) \<longrightarrow> live (lx_log (rs_exporter st))"
    using assms(5) by (auto simp: jammed_def)
  have same: "jammed cd view live (b # bs) cs st'"
    if "lx_log (rs_exporter st') = lx_log (rs_exporter st)" "sent_series (exporter_of st') = sent_series (exporter_of st)"
      "\<And>b. rs_reader st' = Finished b \<longleftrightarrow> rs_reader st = Finished b"
    using that assms(5) by (simp add: jammed_def entries_def)
  have reading: "jammed cd view live (b # bs) cs st'"
    if "readWALAndExport cfg (recording cl) lib cd (rs_exporter st) = (e', lx)" "rs_exporter st' = lx"
      "rs_reader st \<in> {Polling, Flushing}" "\<And>b. rs_reader st' \<noteq> Finished b" for e' lx
  proof -
    have "live (lx_log (rs_exporter st))" using st(3) that(3) by auto
    from read_jammed [OF assms(3) this st(1) assms(4), of cfg "recording cl"] that(1,2) st
    show ?thesis by (auto simp: jammed_def entries_def)
  qed
  from assms(1) show ?thesis
  proof cases
    case by_push
    have reader: "\<And>b. rs_reader st' = Finished b \<longleftrightarrow> rs_reader st = Finished b"
      using push_frame(5) [OF by_push(2)] by (elim disjE conjE; simp)
    show ?thesis using by_push(2)
    proof cases
      case (map_metric i w ws pd pd' me)
      then show ?thesis using push_item_keeps [OF map_metric(4)] reader
        by (intro same) (simp_all add: updates sent_series_def calls_of_def)
    next
      case (map_disturbed i w ws pd n tss pd' me)
      then show ?thesis using disturbed_keeps [OF map_disturbed(6)] reader
        by (intro same) (simp_all add: updates sent_series_def calls_of_def)
    next
      case (send_request i r rs errs e' me)
      with assms(2) show ?thesis by simp
    next
      case (write_request i r rs errs e' lx)
      have "rs_exporter st' = lx" using write_request(2) by simp
      then show ?thesis
        using log_request_entries [OF assms(3) write_request(5)] log_request_keeps [OF write_request(5)] st reader
        by (auto simp: jammed_def)
    qed (intro same reader; simp add: updates)+
  next
    case by_reader
    show ?thesis using by_reader(2)
    proof cases
      case (flush_entry lx)
      then show ?thesis by (intro reading [of None lx]) simp_all
    next
      case (flush_ends y lx)
      then show ?thesis by (intro reading [of "Some y" lx]) simp_all
    next
      case (read_entry lx)
      then show ?thesis by (intro reading [of None lx]) simp_all
    next
      case (read_fails y lx)
      then show ?thesis by (intro reading [of "Some y" lx]) (simp_all add: updates)
    next
      case (finish_reader flushed y w)
      have "live (lx_log (rs_exporter st))" using st(3) finish_reader(3) by simp
      then have "view w = view (lx_log (rs_exporter st))"
        using assms(3) finish_reader(4) unfolding wal_lawful_def by (metis prod.inject)
      then show ?thesis using st by (auto simp: finish_reader(2) jammed_def entries_def updates)
    qed (intro same; simp add: updates)+
  next
    case by_runner
    show ?thesis using by_runner(2) by cases (intro same; simp add: updates)+
  next
    case by_life
    show ?thesis using by_life(2) by cases (intro same; simp add: updates sent_series_def calls_of_def)+
  qed
qed

interpretation jam: kept "exporter_move env cfg (recording cl) lib cd"
    "\<lambda>st. (log_context cfg lib cd view live \<and> cd_unmarshal cd b = Inl x) \<and> jammed cd view live (b # bs) cs st"
  for env cfg cl lib cd view live b x bs cs
  by unfold_locales (use move_jammed in \<open>fastforce simp: log_context_def\<close>)

text \<open>C21. An entry that cannot be unmarshalled is never removed: while it is the oldest entry no time series is sent, whatever
is pushed and however the goroutines move, the flush at shutdown included, and the log only grows.\<close>

theorem unreadable_entry_blocks_log:
  assumes "log_context cfg lib cd view live" "live (lx_log lx)" "entries view lx = b # bs" "cd_unmarshal cd b = Inl x"
    and "run (exporter_move env cfg (recording cl) lib cd) (started cfg lx) es st"
  shows "(\<exists>new. entries view (rs_exporter st) = b # bs @ new) \<and>
    sent_series (exporter_of st) = sent_series (lx_exporter lx)"
proof -
  have "jammed cd view live (b # bs) (sent_series (lx_exporter lx)) (started cfg lx)"
    using assms(2,3) by (simp add: jammed_def started_def)
  with jam.run_keeps [OF assms(5), of view live b x bs "sent_series (lx_exporter lx)"] assms(1,4)
  show ?thesis by (simp add: jammed_def)
qed

subsection \<open>Runs of an example\<close>

definition logging_config :: exporter_config where
  "logging_config = example_exporter_config\<lparr>ec_wal := Some \<lparr>wc_directory = [], wc_max_backoff = 0\<rparr>\<rparr>"

definition empty_log :: "((unit \<times> client_call list), nat \<times> string list) log_exporter" where
  "empty_log = \<lparr>lx_exporter = fresh_exporter ((), []) DisabledNormalizer, lx_log = (1, []), lx_open = True, lx_slept = []\<rparr>"

abbreviation example_move :: "codec \<Rightarrow> (unit \<times> client_call list, nat \<times> string list) running \<Rightarrow> run_event \<Rightarrow>
    (unit \<times> client_call list, nat \<times> string list) running \<Rightarrow> bool" where
  "example_move cd \<equiv> exporter_move example_env logging_config (recording accepting_client) list_log cd"

lemma example_context: "codec_ok cd \<Longrightarrow> log_context logging_config list_log cd list_view (\<lambda>w. True)"
  by (simp add: log_context_def logging_config_def list_log_lawful)

lemma gather_logging: "gather env (cfg\<lparr>ec_wal := w\<rparr>) rms me = gather env cfg rms me"
proof -
  have metric: "push_metric env (cfg\<lparr>ec_wal := w\<rparr>) = (push_metric env cfg :: _ \<Rightarrow> _ \<Rightarrow> _ \<Rightarrow> _ \<Rightarrow> pending \<times> 'a exporter \<Rightarrow> _)"
    by (simp add: fun_eq_iff push_metric_def queue_metric_def offer_descriptor_def [abs_def] cong: if_cong)
  have project: "resource_project env (cfg\<lparr>ec_wal := w\<rparr>) = resource_project env cfg"
    by (simp add: fun_eq_iff resource_project_def cong: option.case_cong)
  show ?thesis
    by (simp add: gather_def push_resource_def [abs_def] push_scope_def [abs_def] metric project)
qed

text \<open>The reader takes one turn from the start.\<close>

lemma first_reading:
  obtains e lx' st where "readWALAndExport logging_config (recording accepting_client) list_log cd lx = (e, lx')"
    "run (example_move cd) (started logging_config lx) [Progress, Progress] st"
    "rs_exporter st = lx'" "rs_reader st = (if e = None then Reading else Arming)" "rs_pushes st = []" "rs_owner st = None"
    "rs_crashed st = None" "rs_life st = Up" "\<not> rs_cancelled st"
proof -
  let ?s0 = "started logging_config lx" and ?move = "example_move cd"
  let ?s1 = "?s0\<lparr>rs_reader := Polling\<rparr>"
  have s0: "rs_reader ?s0 = Reading" "\<not> rs_cancelled ?s0" "rs_life ?s0 = Up" "rs_crashed ?s0 = None" "rs_crashed ?s1 = None"
    "rs_reader ?s1 = Polling" "rs_owner ?s1 = None" "rs_exporter ?s1 = lx" "rs_pushes ?s1 = []" "rs_life ?s1 = Up" "\<not> rs_cancelled ?s1"
    by (simp_all add: started_def logging_config_def)
  have move1: "?move ?s0 Progress ?s1" by (rule by_reader [OF s0(4)], rule poll [OF s0(1-3)])
  obtain e lx' where r: "readWALAndExport logging_config (recording accepting_client) list_log cd (rs_exporter ?s1) = (e, lx')"
    by fastforce
  let ?s2 = "if e = None then ?s1\<lparr>rs_exporter := lx', rs_reader := Reading\<rparr>
    else add_group 1 (?s1\<lparr>rs_exporter := lx', rs_reader := Arming\<rparr>)"
  have "?move ?s1 Progress ?s2"
    by (rule by_reader [OF s0(5)], cases e) (use r read_entry [OF s0(6,7)] read_fails [OF s0(6,7)] in auto)
  then have "run ?move ?s0 [Progress, Progress] ?s2"
    by (intro run_Cons [of ?move, OF move1] run_single [of ?move])
  then show thesis
    using that [of e lx' ?s2] r s0 by (simp add: add_group_def)
qed

lemma running_log_conserves_requests_witness:
  "\<exists>st popped cs. run (example_move name_codec) (started logging_config example_log) [Progress, Progress] st \<and>
    tried logging_config popped cs \<and> sent_series (exporter_of st) = cs \<and>
    queue_of name_codec list_view example_log = popped @ queue_of name_codec list_view (rs_exporter st)"
proof -
  obtain e lx' st where st: "run (example_move name_codec) (started logging_config example_log) [Progress, Progress] st"
    using first_reading [of name_codec example_log] by metis
  have "sent_series (lx_exporter example_log) = []" "logged [Progress, Progress] = []"
    by (simp_all add: example_log_def sent_series_def calls_of_def fresh_exporter_def logged_def)
  with running_log_conserves_requests [OF example_context [OF name_codec_ok] example_log_readable TrueI st] st
  show ?thesis by auto
qed

lemma example_signal:
  "run (example_move cd) (started logging_config lx) [ShutdownSignal] ((started logging_config lx)\<lparr>rs_life := Waiting\<rparr>)"
  by (rule run_single [of "example_move cd"], rule by_life, simp add: started_def, rule signal_shutdown) (simp_all add: started_def)

lemma shutdown_completes_witness:
  "\<exists>st'. exporter_move example_env logging_config (recording accepting_client) list_log name_codec
    ((started logging_config example_log)\<lparr>rs_life := Waiting\<rparr>) Progress st'"
proof -
  let ?st = "(started logging_config example_log)\<lparr>rs_life := Waiting\<rparr>"
  have "rs_life ?st \<noteq> Up" "rs_crashed ?st = None" "\<not> shut_down ?st"
    by (simp_all add: started_def shut_down_def)
  with shutdown_completes [OF example_context [OF name_codec_ok] example_log_readable TrueI example_signal _ _
      run_start [of "example_move name_codec" ?st]]
  show ?thesis by blast
qed

text \<open>A codec that only knows the empty request.\<close>

definition marker_codec :: codec where
  "marker_codec = \<lparr>cd_marshal = (\<lambda>r. if r = emptyReq then Inr [] else Inl ''unsupported''),
     cd_unmarshal = (\<lambda>b. if b = [] then Inr emptyReq else Inl ''bad'')\<rparr>"

lemma unreadable_entry_blocks_log_witness:
  "\<exists>st new. run (example_move marker_codec) (started logging_config example_log) [Progress, Progress] st \<and>
    entries list_view (rs_exporter st) = [''projects/p'', ''projects/q''] @ new \<and> sent_series (exporter_of st) = []"
proof -
  obtain e lx' st where st: "run (example_move marker_codec) (started logging_config example_log) [Progress, Progress] st"
    using first_reading [of marker_codec example_log] by metis
  have "codec_ok marker_codec" by (auto simp: codec_ok_def marker_codec_def split: if_splits)
  moreover have "entries list_view example_log = ''projects/p'' # [''projects/q'']" "cd_unmarshal marker_codec ''projects/p'' = Inl ''bad''"
    by (simp_all add: entries_def list_view_def example_log_def marker_codec_def)
  moreover have "sent_series (lx_exporter example_log) = []"
    by (simp add: example_log_def sent_series_def calls_of_def fresh_exporter_def)
  ultimately show ?thesis
    using unreadable_entry_blocks_log [OF example_context TrueI _ _ st] st by fastforce
qed

text \<open>The reader finds the log empty; then a push begins, locks the log and maps its one metric.\<close>

lemma logging_work: "\<exists>item. metric_work env logging_config example_resources = [item]"
  by (simp add: metric_work_def scope_work_def example_resources_def logging_config_def example_exporter_config_def Let_def)

lemma push_before_watch:
  obtains q st es where "codec_ok (single_codec q)" "at_push st 0 (Sending [q] [])" "rs_reader st = Arming" "rs_crashed st = None"
    "rs_life st = Up" "\<not> rs_cancelled st"
    "run (example_move (single_codec q)) (started logging_config empty_log) es st"
proof -
  obtain item where item: "metric_work example_env logging_config example_resources = [item]" using logging_work by blast
  obtain ts me where g: "gather example_env logging_config example_resources (lx_exporter empty_log) = Inr ([''p'' \<mapsto> [ts]], me)"
    using gather_example gather_logging unfolding logging_config_def by metis
  then have push: "push_item example_env logging_config item (Map.empty, lx_exporter empty_log) = Inr ([''p'' \<mapsto> [ts]], me)"
    by (simp add: gather_work item fold_res_single del: fold_res.simps)
  let ?q = "\<lparr>rq_name = projectName ''p'', rq_series = [ts]\<rparr>"
  let ?cd = "single_codec ?q"
  let ?move = "example_move ?cd"
  obtain e lx st where read: "readWALAndExport logging_config (recording accepting_client) list_log ?cd empty_log = (e, lx)"
    and run: "run ?move (started logging_config empty_log) [Progress, Progress] st"
    and st: "rs_exporter st = lx" "rs_reader st = (if e = None then Reading else Arming)" "rs_pushes st = []" "rs_owner st = None"
      "rs_crashed st = None" "rs_life st = Up" "\<not> rs_cancelled st"
    by (rule first_reading)
  have e: "e = Some (LogError ErrNotFound)" "lx_exporter lx = lx_exporter empty_log"
    using read_ends [OF list_log_lawful, of empty_log ?cd logging_config "recording accepting_client"] read
    by (auto simp: usable_log_def entries_def empty_log_def list_view_def)
  have order: "ranges_over [''p''] [''p'' \<mapsto> [ts]]" "requests_of [''p''] [''p'' \<mapsto> [ts]] = [?q]"
    by (simp_all add: ranges_over_def requests_of_def project_requests_def chunks.simps sendBatchSize_def)
  have "push_item example_env logging_config item (Map.empty, exporter_of st) = Inr ([''p'' \<mapsto> [ts]], me)"
    using push st(1) e(2) by simp
  from push_to_requests [OF st(3-6) item this order(1)] obtain st' where st':
    "run ?move st [PushBegins example_resources, Progress, Progress, PushGathered 0 [''p'' \<mapsto> [ts]] [''p'']] st'"
    "at_push st' 0 (Sending [?q] [])" "rs_reader st' = rs_reader st" "rs_crashed st' = None" "rs_life st' = Up"
    "rs_cancelled st' = rs_cancelled st"
    unfolding order(2) by metis
  have "rs_reader st' = Arming" "\<not> rs_cancelled st'" using st'(3,6) st(2,7) e(1) by simp_all
  from that [OF single_codec_ok st'(2) this(1) st'(4,5) this(2) run_trans [of ?move, OF st'(1) run]] show thesis .
qed

lemma write_before_watch_is_missed_witness:
  "\<exists>q es st st2. run (example_move (single_codec q)) (started logging_config empty_log) es st \<and>
    run (example_move (single_codec q)) st [PushLogged 0 q None, Progress] st2 \<and>
    queue_of (single_codec q) list_view (rs_exporter st2) = queue_of (single_codec q) list_view (rs_exporter st) @ [q] \<and>
    rs_reader st2 = Watching False"
proof -
  obtain q st es where st: "codec_ok (single_codec q)" "at_push st 0 (Sending [q] [])" "rs_reader st = Arming" "rs_crashed st = None"
    "rs_life st = Up" "\<not> rs_cancelled st" "run (example_move (single_codec q)) (started logging_config empty_log) es st"
    by (rule push_before_watch)
  have log: "readable (single_codec q) list_view empty_log" "\<exists>b. cd_marshal (single_codec q) q = Inr b"
    by (simp_all add: readable_def entries_def empty_log_def list_view_def single_codec_def)
  then obtain b where b: "cd_marshal (single_codec q) q = Inr b" by blast
  obtain st2 where st2: "run (example_move (single_codec q)) st [PushLogged 0 q None, Progress] st2"
    "queue_of (single_codec q) list_view (rs_exporter st2) = queue_of (single_codec q) list_view (rs_exporter st) @ [q]"
    "\<forall>es' st'. run (example_move (single_codec q)) st2 es' st' \<and> list_all unnoticed es' \<longrightarrow> rs_reader st' = Watching False \<and>
      queue_of (single_codec q) list_view (rs_exporter st') = queue_of (single_codec q) list_view (rs_exporter st) @ [q]"
    using write_before_watch_is_missed [OF example_context [OF st(1)] log(1) TrueI st(7) st(4,3,5,6,2) b] by blast
  have "rs_reader st2 = Watching False" using st2(3) [rule_format, of "[]" st2] run_start [of "example_move (single_codec q)" st2] by simp
  with st(7) st2(1,2) show ?thesis by blast
qed

end
