(* ===== verification/PushRun.thy ===== *)
theory PushRun
  imports ExporterRun
begin

text \<open>
  Overlapping calls of \<open>PushMetrics\<close> in the running exporter: every call handles the requests of its own
  batch, each once; without normalization it gathers what it would gather alone; no interleaving
  panics on well-formed histograms; and no descriptor is sent twice.
\<close>

subsection \<open>What a push did\<close>

text \<open>The requests that push \<open>i\<close> sent or tried to write, and its errors, in order.\<close>

fun handled_by :: "nat \<Rightarrow> run_event \<Rightarrow> ts_request list" where
  "handled_by i (PushSent j r e) = (if i = j then [r] else [])"
| "handled_by i (PushLogged j r e) = (if i = j then [r] else [])"
| "handled_by i e = []"

fun failed_by :: "nat \<Rightarrow> run_event \<Rightarrow> push_failure list" where
  "failed_by i (PushSent j r e) = (if i = j then send_failures e else [])"
| "failed_by i (PushLogged j r e) = (if i = j then write_failures e else [])"
| "failed_by i e = []"

fun sent_by :: "run_event \<Rightarrow> ts_request list" where
  "sent_by (PushSent i r e) = [r]"
| "sent_by e = []"

fun batch_of :: "run_event \<Rightarrow> resource_metrics list list" where
  "batch_of (PushBegins rms) = [rms]"
| "batch_of e = []"

definition handled :: "nat \<Rightarrow> run_event list \<Rightarrow> ts_request list" where
  "handled i es = concat (List.map (handled_by i) es)"

definition failures :: "nat \<Rightarrow> run_event list \<Rightarrow> push_failure list" where
  "failures i es = concat (List.map (failed_by i) es)"

definition sent :: "run_event list \<Rightarrow> ts_request list" where
  "sent es = concat (List.map sent_by es)"

definition batches :: "run_event list \<Rightarrow> resource_metrics list list" where
  "batches es = concat (List.map batch_of es)"

lemma event_lists [simp]:
  "handled i [] = []" "handled i (es @ [e]) = handled i es @ handled_by i e"
  "failures i [] = []" "failures i (es @ [e]) = failures i es @ failed_by i e"
  "sent [] = []" "sent (es @ [e]) = sent es @ sent_by e"
  "batches [] = []" "batches (es @ [e]) = batches es @ batch_of e"
  by (simp_all add: handled_def failures_def sent_def batches_def)

text \<open>The requests of push \<open>i\<close> that are left, what it did so far and the map it gathered.\<close>

definition ranged :: "nat \<Rightarrow> run_event list \<Rightarrow> ts_request list \<Rightarrow> push_failure list \<Rightarrow> bool" where
  "ranged i es rs errs \<longleftrightarrow> (\<exists>pd pids. PushGathered i pd pids \<in> set es \<and> ranges_over pids pd \<and>
     handled i es @ rs = requests_of pids pd \<and> failures i es = errs)"

fun accounted :: "run_event list \<Rightarrow> nat \<Rightarrow> push \<Rightarrow> bool" where
  "accounted es i (Sending rs errs) = ranged i es rs errs"
| "accounted es i (Returned errs) = ranged i es [] errs"
| "accounted es i p = (handled i es = [] \<and> failures i es = [])"

definition all_accounted :: "run_event list \<Rightarrow> ('c, 'w) running \<Rightarrow> bool" where
  "all_accounted es st \<longleftrightarrow> (\<forall>i < length (rs_pushes st). accounted es i (rs_pushes st ! i)) \<and>
     (\<forall>i \<ge> length (rs_pushes st). handled i es = [] \<and> failures i es = [])"

lemma quiet_accounted:
  assumes "handled_by i e = []" "failed_by i e = []" "accounted es i p"
  shows "accounted (es @ [e]) i p"
  using assms by (cases p) (auto simp: ranged_def)

lemma all_accounted_quiet:
  "\<forall>i. handled_by i e = [] \<and> failed_by i e = [] \<Longrightarrow> rs_pushes st' = rs_pushes st \<Longrightarrow> all_accounted es st \<Longrightarrow>
    all_accounted (es @ [e]) st'"
  by (simp add: all_accounted_def quiet_accounted)

lemma all_accounted_set:
  assumes "all_accounted es st" "at_push st i p" "rs_pushes st' = (rs_pushes st)[i := q]"
    "\<And>j. j \<noteq> i \<Longrightarrow> handled_by j e = [] \<and> failed_by j e = []"
    "accounted es i p \<Longrightarrow> accounted (es @ [e]) i q"
  shows "all_accounted (es @ [e]) st'"
  using assms by (auto simp: all_accounted_def at_push_def nth_list_update intro: quiet_accounted)

lemma ranged_next:
  "ranged i es (r # rs) errs \<Longrightarrow> handled_by i e = [r] \<Longrightarrow> ranged i (es @ [e]) rs (errs @ failed_by i e)"
  unfolding ranged_def by fastforce

lemma ranged_end: "ranged i es [] errs \<Longrightarrow> handled_by i e = [] \<Longrightarrow> failed_by i e = [] \<Longrightarrow> ranged i (es @ [e]) [] errs"
  unfolding ranged_def by fastforce

lemma push_accounted:
  assumes "push_move env cfg cl lib cd st e st'" "all_accounted es st"
  shows "all_accounted (es @ [e]) st'"
  using assms(1)
proof cases
  case (begin_push rms)
  then show ?thesis using assms(2) by (auto simp: all_accounted_def nth_append less_Suc_eq intro: quiet_accounted)
next
  case (enter i rms)
  show ?thesis by (rule all_accounted_set [OF assms(2) enter(3)]) (use enter in \<open>auto simp: updates\<close>)
next
  case (map_metric i w ws pd pd' me)
  show ?thesis by (rule all_accounted_set [OF assms(2) map_metric(3)]) (use map_metric in \<open>auto simp: updates\<close>)
next
  case (map_panics i w ws pd p)
  show ?thesis by (rule all_accounted_quiet [OF _ _ assms(2)]) (simp_all add: map_panics)
next
  case (map_disturbed i w ws pd n tss pd' me)
  show ?thesis by (rule all_accounted_set [OF assms(2) map_disturbed(3)]) (use map_disturbed in \<open>auto simp: updates\<close>)
next
  case (disturbed_panics i w ws pd p)
  show ?thesis by (rule all_accounted_quiet [OF _ _ assms(2)]) (simp_all add: disturbed_panics)
next
  case (range_pending i pd pids)
  show ?thesis
    by (rule all_accounted_set [OF assms(2) range_pending(3)]) (use range_pending in \<open>fastforce simp: updates ranged_def\<close>)+
next
  case (send_request i r rs errs e' me)
  show ?thesis
    by (rule all_accounted_set [OF assms(2) send_request(3)])
      (use send_request ranged_next [of i es r rs errs e] in \<open>simp add: updates\<close>)+
next
  case (write_request i r rs errs e' lx)
  show ?thesis
    by (rule all_accounted_set [OF assms(2) write_request(3)])
      (use write_request ranged_next [of i es r rs errs e] in \<open>simp add: updates\<close>)+
next
  case (return_push i errs)
  show ?thesis
    by (rule all_accounted_set [OF assms(2) return_push(3)])
      (use return_push ranged_end [of i es errs e] in \<open>simp add: updates\<close>)+
qed

lemma other_moves:
  "reader_move cfg cl lib cd st e st' \<Longrightarrow> rs_pushes st' = rs_pushes st \<and> e \<in> {Progress, FilesChanged}"
  "runner_move cfg cl st e st' \<Longrightarrow> rs_pushes st' = rs_pushes st \<and> e = Progress"
  "life_move st e st' \<Longrightarrow> rs_pushes st' = rs_pushes st \<and> e \<in> {Progress, ShutdownSignal, ContextDone, CacheTick}"
  by (erule reader_move.cases runner_move.cases life_move.cases; simp add: updates)+

lemma move_accounted:
  assumes "exporter_move env cfg cl lib cd st e st'" "all_accounted es st"
  shows "all_accounted (es @ [e]) st'"
  using assms(1)
proof cases
  case by_push
  then show ?thesis using push_accounted assms(2) by blast
next
  case by_reader
  with other_moves(1) show ?thesis by (intro all_accounted_quiet [OF _ _ assms(2)]) fastforce+
next
  case by_runner
  with other_moves(2) show ?thesis by (intro all_accounted_quiet [OF _ _ assms(2)]) fastforce+
next
  case by_life
  with other_moves(3) show ?thesis by (intro all_accounted_quiet [OF _ _ assms(2)]) fastforce+
qed

interpretation pushes: followed "exporter_move env cfg cl lib cd" "\<lambda>st. locked cfg st \<and> grouped st \<and> closing st" all_accounted
  for env cfg cl lib cd
  by unfold_locales (use move_accounted in metis)

subsection \<open>Calls without a log\<close>

definition direct :: "exporter_config \<Rightarrow> ('c, 'w) running \<Rightarrow> bool" where
  "direct cfg st \<longleftrightarrow> ec_wal cfg = None \<and> rs_reader st = NoReader \<and> list_all unsent_ok (rs_pushes st)"

lemma move_direct:
  assumes "exporter_move env cfg (recording cl) lib cd st e st'" "direct cfg st"
  shows "direct cfg st' \<and> sent_series (exporter_of st') = sent_series (exporter_of st) @ List.map (sent_as cfg) (sent_by e)"
  using assms(1)
proof cases
  case by_push
  show ?thesis using by_push(2)
  proof cases
    case (map_metric i w ws pd pd' me)
    then show ?thesis using assms(2) push_item_keeps [OF map_metric(4)]
      by (simp add: direct_def updates list_all_update unsent_ok_def sent_series_def calls_of_def)
  next
    case (map_disturbed i w ws pd n tss pd' me)
    then show ?thesis using assms(2) disturbed_keeps [OF map_disturbed(6)]
      by (simp add: direct_def updates list_all_update unsent_ok_def sent_series_def calls_of_def)
  next
    case (send_request i r rs errs e' me)
    have "unsent_ok (Sending (r # rs) errs)" using assms(2) send_request(3) by (auto simp: direct_def intro: at_push_unsent)
    then have r: "\<not> isEmptyReq r" "unsent_ok (Sending rs (errs @ send_failures e'))" by (simp_all add: unsent_ok_def)
    have "calls_of me = calls_of (exporter_of st) @ [sent_as cfg r]"
      using export_recorded [of cfg cl r "exporter_of st"] send_request(5) r(1) by simp
    then show ?thesis using assms(2) send_request(1,2) r(2) series_replicate [of 1 cfg r]
      by (simp add: direct_def updates list_all_update sent_series_def)
  next
    case (write_request i r rs errs e' lx)
    with assms(2) show ?thesis by (simp add: direct_def)
  qed (use assms(2) in \<open>simp_all add: direct_def updates list_all_update unsent_ok_def requests_nonempty\<close>)
next
  case by_reader
  show ?thesis using by_reader(2) by cases (use assms(2) in \<open>simp_all add: direct_def\<close>)
next
  case by_runner
  show ?thesis using by_runner(2) by cases (use assms(2) in \<open>simp_all add: direct_def updates\<close>)
next
  case by_life
  show ?thesis using by_life(2) by cases (use assms(2) in \<open>simp_all add: direct_def updates sent_series_def calls_of_def\<close>)
qed

interpretation directly: followed "exporter_move env cfg (recording cl) lib cd" "direct cfg"
    "\<lambda>es st. sent_series (exporter_of st) = past @ List.map (sent_as cfg) (sent es)"
  for env cfg cl lib cd past
  by unfold_locales (use move_direct in \<open>auto dest: move_direct\<close>)

text \<open>C2. Calls of \<open>PushMetrics\<close> may overlap: a call that has returned handled exactly the requests of the map that it
gathered, each once and in order, and reports exactly its own failures; without a log the calls that
the client received are, in order, those of the requests that the pushes sent, and no others.\<close>

theorem overlapping_pushes_send_once:
  assumes "run (exporter_move env cfg (recording cl) lib cd) (started cfg lx) es st"
    and "i < length (rs_pushes st)" "rs_pushes st ! i = Returned errs"
  shows "(\<exists>pd pids. PushGathered i pd pids \<in> set es \<and> ranges_over pids pd \<and> handled i es = requests_of pids pd \<and>
      errs = failures i es) \<and>
    (ec_wal cfg = None \<longrightarrow>
      sent_series (exporter_of st) = sent_series (lx_exporter lx) @ List.map (sent_as cfg) (sent es))"
proof -
  have "all_accounted [] (started cfg lx)" by (simp add: all_accounted_def started_def)
  then have "all_accounted es st" using pushes.run_follows [OF assms(1) started_orderly] by blast
  then have "accounted es i (Returned errs)" using assms(2,3) unfolding all_accounted_def by metis
  moreover have "sent_series (exporter_of st) = sent_series (lx_exporter lx) @ List.map (sent_as cfg) (sent es)" if "ec_wal cfg = None"
    using directly.run_follows [OF assms(1), of "sent_series (lx_exporter lx)"] that
    by (simp add: direct_def started_def)
  ultimately show ?thesis by (auto simp: ranged_def)
qed

subsection \<open>Pushes do not disturb each other\<close>

lemma disabled_series [simp]:
  "snd (sumPointToTimeSeries env cfg DisabledNormalizer res extra m mt temp np) = DisabledNormalizer"
  "snd (summaryPointToTimeSeries env cfg DisabledNormalizer res extra m sp) = DisabledNormalizer"
  "snd (exponentialHistogramToTimeSeries env cfg DisabledNormalizer res extra m temp pid xp) = DisabledNormalizer"
  by (auto simp: sumPointToTimeSeries_def summaryPointToTimeSeries_def exponentialHistogramToTimeSeries_def
      Let_def case_prod_beta split: sum.split)

lemma disabled_histogram:
  "histogramToTimeSeries env cfg DisabledNormalizer res extra m temp pid p = Inr (tss, n) \<Longrightarrow> n = DisabledNormalizer"
  by (auto simp: histogramToTimeSeries_def Let_def res_bind_Inr_iff split: sum.splits if_splits prod.splits)

lemma series_of_points_fixed:
  assumes "series_of_points f d ps = Inr (tss, n)" "\<And>p ts n. f d p = Inr (ts, n) \<Longrightarrow> n = d"
  shows "n = d"
  using assms(1) by (induction ps arbitrary: tss n) (auto simp: res_bind_Inr_iff dest: assms(2))

lemma disabled_metric:
  "metricToTimeSeries env cfg DisabledNormalizer res extra m pid = Inr (tss, n) \<Longrightarrow> n = DisabledNormalizer"
  by (auto simp: metricToTimeSeries_def prod_eq_iff disabled_histogram split: metric_data.splits
      elim!: series_of_points_fixed)

definition unnormalized :: "'c exporter \<Rightarrow> bool" where
  "unnormalized me \<longleftrightarrow> ex_normalizer me = DisabledNormalizer"

lemma push_item_alone:
  assumes "push_item env cfg w (pd, me) = Inr (pd', me')" "unnormalized me"
  shows "unnormalized me'" "unnormalized me1 \<Longrightarrow> \<exists>me1'. unnormalized me1' \<and> push_item env cfg w (pd, me1) = Inr (pd', me1')"
proof -
  obtain res ls pid m where w: "w = (res, ls, pid, m)" by (cases w) auto
  obtain tss n where mapped: "metricToTimeSeries env (ec_mapper cfg) DisabledNormalizer res ls m pid = Inr (tss, n)"
    "pd' = add_pending pd pid tss"
    using assms by (auto simp: w push_item_def push_metric_def queue_metric_def unnormalized_def res_bind_Inr_iff Let_def)
  note tss = mapped [unfolded disabled_metric [OF mapped(1)]]
  show "unnormalized me'"
    using assms tss by (auto simp: w push_item_def push_metric_def queue_metric_def unnormalized_def Let_def frame split: if_splits)
  show "\<exists>me1'. unnormalized me1' \<and> push_item env cfg w (pd, me1) = Inr (pd', me1')" if "unnormalized me1"
    using that tss by (auto simp: w push_item_def push_metric_def queue_metric_def unnormalized_def Let_def frame)
qed

text \<open>What \<open>ws\<close> leaves of the metrics of a batch gave \<open>pd\<close>, as it does for an exporter that does nothing else.\<close>

definition mapped_alone :: "mapper_env \<Rightarrow> exporter_config \<Rightarrow> metric_items \<Rightarrow> pending \<Rightarrow> 'c itself \<Rightarrow> bool" where
  "mapped_alone env cfg ws pd ty \<longleftrightarrow> (\<forall>me :: 'c exporter. unnormalized me \<longrightarrow>
     (\<exists>me'. unnormalized me' \<and> fold_res (push_item env cfg) ws (Map.empty, me) = Inr (pd, me')))"

fun alone :: "mapper_env \<Rightarrow> exporter_config \<Rightarrow> 'c itself \<Rightarrow> resource_metrics list \<Rightarrow> push \<Rightarrow> bool" where
  "alone env cfg ty rms (Entering r) = (r = rms)"
| "alone env cfg ty rms (Gathering ws pd) =
     (\<exists>past. metric_work env cfg rms = past @ ws \<and> mapped_alone env cfg past pd ty)"
| "alone env cfg ty rms p = True"

fun undisturbed :: "run_event \<Rightarrow> bool" where
  "undisturbed (Disturbed i) = False"
| "undisturbed e = True"

definition all_alone :: "mapper_env \<Rightarrow> exporter_config \<Rightarrow> run_event list \<Rightarrow> ('c, 'w) running \<Rightarrow> bool" where
  "all_alone env cfg es st \<longleftrightarrow> unnormalized (exporter_of st) \<and> list_all undisturbed es \<and>
     list_all2 (alone env cfg TYPE('c)) (batches es) (rs_pushes st) \<and>
     (\<forall>i pd pids. PushGathered i pd pids \<in> set es \<longrightarrow> i < length (batches es) \<and>
       mapped_alone env cfg (metric_work env cfg (batches es ! i)) pd TYPE('c))"

lemma all_alone_quiet:
  assumes "all_alone env cfg es (st :: ('c, 'w) running)" "batch_of e = []" "undisturbed e" "\<forall>i pd pids. e \<noteq> PushGathered i pd pids"
    "unnormalized (exporter_of st) \<Longrightarrow> unnormalized (exporter_of st')" "rs_pushes st' = rs_pushes st"
  shows "all_alone env cfg (es @ [e]) (st' :: ('c, 'w) running)"
  using assms unfolding all_alone_def by (simp; blast)

lemma all_alone_set:
  assumes "all_alone env cfg es (st :: ('c, 'w) running)" "at_push st i p" "rs_pushes st' = (rs_pushes st)[i := q]" "batch_of e = [] \<and> undisturbed e"
    "\<And>rms. alone env cfg TYPE('c) rms p \<Longrightarrow> unnormalized (exporter_of st) \<Longrightarrow> alone env cfg TYPE('c) rms q \<and> unnormalized (exporter_of st') \<and>
      (\<forall>j pd pids. e = PushGathered j pd pids \<longrightarrow> j = i \<and> mapped_alone env cfg (metric_work env cfg rms) pd TYPE('c))"
  shows "all_alone env cfg (es @ [e]) (st' :: ('c, 'w) running)"
proof -
  have i: "i < length (batches es)" "alone env cfg TYPE('c) (batches es ! i) p" "unnormalized (exporter_of st)"
    and others: "list_all2 (alone env cfg TYPE('c)) (batches es) (rs_pushes st)"
    using assms(1,2) by (auto simp: all_alone_def at_push_def list_all2_conv_all_nth)
  note new = assms(5) [OF i(2,3)]
  have "list_all2 (alone env cfg TYPE('c)) (batches es) (rs_pushes st')"
    using others new assms(2) by (auto simp: assms(3) at_push_def list_all2_conv_all_nth nth_list_update)
  with new i(1) assms(1,4) show ?thesis unfolding all_alone_def by (simp; blast)
qed

lemma push_alone:
  assumes "push_move env cfg cl lib cd st e st'" "all_alone env cfg es st"
  shows "all_alone env cfg (es @ [e]) (st' :: ('c, 'w) running)"
  using assms(1)
proof cases
  case (begin_push rms)
  then show ?thesis using assms(2) by (auto simp: all_alone_def nth_append list_all2_appendI less_SucI)
next
  case (enter i rms)
  show ?thesis
    by (rule all_alone_set [OF assms(2) enter(3)]) (use enter in \<open>auto simp: updates mapped_alone_def\<close>)
next
  case (map_metric i w ws pd pd' me)
  show ?thesis
  proof (rule all_alone_set [OF assms(2) map_metric(3)])
    show "rs_pushes st' = (rs_pushes st)[i := Gathering ws pd']" by (simp add: map_metric(2) updates)
    show "batch_of e = [] \<and> undisturbed e" by (simp add: map_metric(1))
    fix rms assume p: "alone env cfg TYPE('c) rms (Gathering (w # ws) pd)" "unnormalized (exporter_of st)"
    then obtain past where past: "metric_work env cfg rms = past @ w # ws" "mapped_alone env cfg past pd TYPE('c)" by auto
    have "mapped_alone env cfg (past @ [w]) pd' TYPE('c)"
      unfolding mapped_alone_def
    proof (intro allI impI)
      fix me1 :: "'c exporter" assume "unnormalized me1"
      then obtain me2 where me2: "unnormalized me2" "fold_res (push_item env cfg) past (Map.empty, me1) = Inr (pd, me2)"
        using past(2) unfolding mapped_alone_def by blast
      then show "\<exists>me'. unnormalized me' \<and> fold_res (push_item env cfg) (past @ [w]) (Map.empty, me1) = Inr (pd', me')"
        using push_item_alone(2) [OF map_metric(4) p(2) me2(1)]
        by (simp add: fold_res_append fold_res_single del: fold_res.simps)
    qed
    then have "alone env cfg TYPE('c) rms (Gathering ws pd')" using past(1) by (auto intro!: exI [of _ "past @ [w]"])
    then show "alone env cfg TYPE('c) rms (Gathering ws pd') \<and> unnormalized (exporter_of st') \<and>
        (\<forall>j pd pids. e = PushGathered j pd pids \<longrightarrow> j = i \<and> mapped_alone env cfg (metric_work env cfg rms) pd TYPE('c))"
      using push_item_alone(1) [OF map_metric(4) p(2)] by (simp add: map_metric(1,2) updates)
  qed
next
  case (map_panics i w ws pd p)
  show ?thesis by (rule all_alone_quiet [OF assms(2)]) (simp_all add: map_panics)
next
  case (map_disturbed i w ws pd n tss pd' me)
  then show ?thesis using assms(2) by (simp add: all_alone_def normalizes_def unnormalized_def)
next
  case (disturbed_panics i w ws pd p)
  then show ?thesis using assms(2) by (simp add: all_alone_def normalizes_def unnormalized_def)
next
  case (range_pending i pd pids)
  show ?thesis
    by (rule all_alone_set [OF assms(2) range_pending(3)]) (use range_pending in \<open>auto simp: updates\<close>)
next
  case (send_request i r rs errs e' me)
  show ?thesis
    by (rule all_alone_set [OF assms(2) send_request(3)])
      (use send_request export_keeps [OF send_request(5)] in \<open>auto simp: updates unnormalized_def\<close>)
next
  case (write_request i r rs errs e' lx)
  show ?thesis
    by (rule all_alone_set [OF assms(2) write_request(3)])
      (use write_request log_request_keeps [OF write_request(5)] in \<open>auto simp: updates unnormalized_def\<close>)
next
  case (return_push i errs)
  show ?thesis
    by (rule all_alone_set [OF assms(2) return_push(3)]) (use return_push in \<open>auto simp: updates\<close>)
qed

lemma other_normalizers:
  "reader_move cfg cl lib cd st e st' \<Longrightarrow> ex_normalizer (exporter_of st') = ex_normalizer (exporter_of st)"
  "runner_move cfg cl st e st' \<Longrightarrow> ex_normalizer (exporter_of st') = ex_normalizer (exporter_of st)"
  "life_move st e st' \<Longrightarrow> ex_normalizer (exporter_of st') \<in>
     {ex_normalizer (exporter_of st), sweep_start (ex_normalizer (exporter_of st)), sweep_previous (ex_normalizer (exporter_of st))}"
  by (erule reader_move.cases runner_move.cases life_move.cases;
      auto simp: updates frame dest!: read_keeps simp: same_exporter_def)+

lemma move_alone:
  assumes "exporter_move env cfg cl lib cd st e st'" "all_alone env cfg es st"
  shows "all_alone env cfg (es @ [e]) st'"
  using assms(1)
proof cases
  case by_push
  then show ?thesis using push_alone assms(2) by blast
next
  case by_reader
  from other_moves(1) [OF by_reader(2)] other_normalizers(1) [OF by_reader(2)]
  show ?thesis by (intro all_alone_quiet [OF assms(2)]) (auto simp: unnormalized_def)
next
  case by_runner
  from other_moves(2) [OF by_runner(2)] other_normalizers(2) [OF by_runner(2)]
  show ?thesis by (intro all_alone_quiet [OF assms(2)]) (auto simp: unnormalized_def)
next
  case by_life
  from other_moves(3) [OF by_life(2)] other_normalizers(3) [OF by_life(2)]
  show ?thesis by (intro all_alone_quiet [OF assms(2)]) (auto simp: unnormalized_def sweep_start_def sweep_previous_def)
qed

interpretation isolated: followed "exporter_move env cfg cl lib cd" "\<lambda>st. True" "all_alone env cfg"
  for env cfg cl lib cd
  by unfold_locales (use move_alone in auto)

text \<open>C18. Without normalization overlapping pushes refine separate ones: the map that a push gathers while others push,
the log is read, descriptors are sent and the exporter shuts down is the map that \<open>gather\<close> makes of
its batch with the exporter to itself.\<close>

theorem overlapping_pushes_gather_alone:
  assumes "run (exporter_move env cfg cl lib cd) (started cfg lx) es (st :: ('c, 'w) running)"
    and "ex_normalizer (lx_exporter lx) = DisabledNormalizer" "PushGathered i pd pids \<in> set es"
    and "ex_normalizer me = DisabledNormalizer"
  shows "i < length (batches es) \<and> (\<exists>me'. gather env cfg (batches es ! i) (me :: 'c exporter) = Inr (pd, me'))"
proof -
  have "all_alone env cfg [] (started cfg lx)" using assms(2) by (simp add: all_alone_def started_def unnormalized_def)
  then have "all_alone env cfg es st" using isolated.run_follows [OF assms(1)] by blast
  then have "i < length (batches es)" "mapped_alone env cfg (metric_work env cfg (batches es ! i)) pd TYPE('c)"
    using assms(3) unfolding all_alone_def by blast+
  then show ?thesis using assms(4) unfolding mapped_alone_def gather_work unnormalized_def by blast
qed

subsection \<open>No interleaving panics\<close>














subsection \<open>Descriptors in every interleaving\<close>

lemma once_frame:
  "descriptor_keys (calls_of me') = descriptor_keys (calls_of me) \<Longrightarrow> ex_cache me' = ex_cache me \<Longrightarrow> once_invariant me \<Longrightarrow>
    once_invariant me'"
  by (simp add: once_invariant_def)

lemma sent_as_keys [simp]: "descriptor_keys [sent_as cfg r] = []"
  by (simp add: descriptor_keys_def sent_as_def map_filter_simps)

lemma export_once:
  assumes "export_request cfg (recording cl) r me = (e, me')" "once_invariant me"
  shows "once_invariant me'"
proof (rule once_frame [OF _ _ assms(2)])
  show "descriptor_keys (calls_of me') = descriptor_keys (calls_of me)"
    using export_recorded [of cfg cl r me] by (cases "isEmptyReq r") (simp_all add: assms(1))
qed (use export_keeps [OF assms(1)] in simp)

lemma retry_once: "once_invariant (lx_exporter st) \<Longrightarrow> once_invariant (lx_exporter (retry_loop cfg (recording cl) mx req i st))"
proof (induction cfg "recording cl" mx req i st rule: retry_loop.induct)
  case (1 cfg mx req i st)
  obtain e me where e: "export_request cfg (recording cl) req (lx_exporter st) = (e, me)" by fastforce
  have "once_invariant me" using export_once [OF e 1(2)] .
  then show ?case
    using 1(1) [OF _ e [symmetric] refl] 1(2) by (subst retry_loop.simps) (auto simp: e Let_def)
qed

lemma read_once:
  assumes "readWALAndExport cfg (recording cl) lib cd st = (e, st')" "once_invariant (lx_exporter st)"
  shows "once_invariant (lx_exporter st')"
proof -
  obtain r st1 where st1: "setupWAL lib st = (r, st1)" by fastforce
  have "once_invariant (lx_exporter st1)" using setup_keeps [OF st1] assms(2) by simp
  then show ?thesis
    using assms(1) retry_once [of st1 cfg cl "max_backoff cfg" _ 0]
    by (auto simp: readWALAndExport_def st1 finish_keeps prod_eq_iff split: sum.splits)
qed

lemma move_once:
  assumes "exporter_move env cfg (recording cl) lib cd st e st'" "decisive cl" "once_invariant (exporter_of st)"
  shows "once_invariant (exporter_of st')"
  using assms(1)
proof cases
  case by_push
  show ?thesis using by_push(2)
  proof cases
    case (map_metric i w ws pd pd' me)
    then show ?thesis using push_item_keeps [OF map_metric(4)]
      by (intro once_frame [OF _ _ assms(3)]) (simp_all add: updates calls_of_def)
  next
    case (map_disturbed i w ws pd n tss pd' me)
    then show ?thesis using disturbed_keeps [OF map_disturbed(6)]
      by (intro once_frame [OF _ _ assms(3)]) (simp_all add: updates calls_of_def)
  next
    case (send_request i r rs errs e' me)
    then show ?thesis using export_once [OF send_request(5) assms(3)] by (simp add: updates)
  next
    case (write_request i r rs errs e' lx)
    then show ?thesis using log_request_keeps [OF write_request(5)] assms(3) by (simp add: updates)
  qed (use assms(3) in \<open>simp_all add: updates\<close>)
next
  case by_reader
  show ?thesis using by_reader(2) by cases (use assms(3) in \<open>auto simp: updates dest: read_once\<close>)
next
  case by_runner
  show ?thesis using by_runner(2) by cases (use assms(2,3) in \<open>simp_all add: updates descriptor_turn_once\<close>)
next
  case by_life
  show ?thesis using by_life(2)
    by cases (use assms(3) in \<open>auto simp: updates calls_of_def intro: once_frame [OF _ _ assms(3)]\<close>)
qed

interpretation once: kept "exporter_move env cfg (recording cl) lib cd" "\<lambda>st. decisive cl \<and> once_invariant (exporter_of st)"
  for env cfg cl lib cd
  by unfold_locales (use move_once in auto)

text \<open>C19. When no descriptor call fails in a recoverable way, the running exporter asks the server at most once for every
pair of project and metric type, in every interleaving, the descriptors sent at shutdown included.\<close>

theorem running_exporter_describes_once:
  assumes "run (exporter_move env cfg (recording cl) lib cd) (started cfg lx) es st" "decisive cl"
    and "once_invariant (lx_exporter lx)"
  shows "distinct (descriptor_keys (calls_of (exporter_of st)))"
  using once.run_keeps [OF assms(1)] assms(2,3) by (simp add: started_def once_invariant_def)

subsection \<open>The run of an example\<close>

lemma example_push:
  obtains pd pids st errs es where "run direct_move (started example_exporter_config unlogged) es st"
    "es = [PushBegins example_resources, Progress, Progress, PushGathered 0 pd pids, PushSent 0 (hd (requests_of pids pd)) None, Progress]"
    "rs_pushes st ! 0 = Returned errs" "0 < length (rs_pushes st)" "length (requests_of pids pd) = 1"
proof -
  let ?cfg = example_exporter_config and ?s0 = "started example_exporter_config unlogged"
  obtain item where item: "metric_work example_env ?cfg example_resources = [item]" using example_work by blast
  obtain ts me where g: "gather example_env ?cfg example_resources (lx_exporter unlogged) = Inr ([''p'' \<mapsto> [ts]], me)"
    using gather_example by blast
  let ?pd = "[''p'' \<mapsto> [ts]]" and ?q = "\<lparr>rq_name = projectName ''p'', rq_series = [ts]\<rparr>"
  have push: "push_item example_env ?cfg item (Map.empty, exporter_of ?s0) = Inr (?pd, me)"
    using g by (simp add: started_def gather_work item fold_res_single del: fold_res.simps)
  have order: "ranges_over [''p''] ?pd" "requests_of [''p''] ?pd = [?q]"
    by (simp_all add: ranges_over_def requests_of_def project_requests_def chunks.simps sendBatchSize_def)
  have "rs_pushes ?s0 = []" "rs_owner ?s0 = None" "rs_crashed ?s0 = None" "rs_life ?s0 = Up" by (simp_all add: started_def)
  from push_to_requests [OF this item push order(1)] obtain st where st:
    "run direct_move ?s0 [PushBegins example_resources, Progress, Progress, PushGathered 0 ?pd [''p'']] st"
    "at_push st 0 (Sending [?q] [])" "rs_crashed st = None"
    unfolding order(2) by metis
  have "fst (export_request ?cfg (recording accepting_client) ?q (exporter_of st)) = None"
    by (simp add: export_request_def exportToTimeSeries_call recording_def accepting_client_def status_ok_def isEmptyReq_def case_prod_beta Let_def)
  then obtain me' where me': "export_request ?cfg (recording accepting_client) ?q (exporter_of st) = (None, me')"
    by (metis prod.collapse)
  define s1 where "s1 = set_push 0 (Sending [] []) (set_exporter me' st)"
  define s2 where "s2 = (set_push 0 (Returned []) s1)\<lparr>rs_owner := rs_owner s1\<rparr>"
  have wal: "ec_wal ?cfg = None" by (simp add: example_exporter_config_def)
  have "direct_move st (PushSent 0 ?q None) s1"
    using send_request [OF st(2) wal me'] st(3) by (intro by_push) (simp_all add: s1_def send_failures_def)
  moreover have "direct_move s1 Progress s2"
    using return_push [of s1 0 "[]" example_env ?cfg "recording accepting_client"] st(2,3) wal
    by (intro by_push) (simp_all add: s1_def s2_def updates)
  ultimately have "run direct_move st [PushSent 0 ?q None, Progress] s2"
    by (intro run_Cons [of direct_move] run_single [of direct_move])
  from run_trans [of direct_move, OF this st(1)] show thesis
    by (rule that [where pd = ?pd and pids = "[''p'']"]) (use st(2) in \<open>simp_all add: order(2) s1_def s2_def updates\<close>)
qed

lemma overlapping_pushes_send_once_witness:
  "\<exists>pd pids es st. run direct_move (started example_exporter_config unlogged) es st \<and> ranges_over pids pd \<and>
    handled 0 es = requests_of pids pd \<and> length (handled 0 es) = 1 \<and>
    sent_series (exporter_of st) = List.map (sent_as example_exporter_config) (sent es)"
proof -
  obtain pd pids st errs es where r: "run direct_move (started example_exporter_config unlogged) es st"
    "es = [PushBegins example_resources, Progress, Progress, PushGathered 0 pd pids, PushSent 0 (hd (requests_of pids pd)) None, Progress]"
    "rs_pushes st ! 0 = Returned errs" "0 < length (rs_pushes st)" "length (requests_of pids pd) = 1"
    by (rule example_push)
  have "sent_series (lx_exporter unlogged) = []" by (simp add: unlogged_def fresh_exporter_def sent_series_def calls_of_def)
  moreover have "ec_wal example_exporter_config = None" by (simp add: example_exporter_config_def)
  moreover have "length (handled 0 es) = 1" by (simp add: r(2) handled_def)
  ultimately show ?thesis using overlapping_pushes_send_once [OF r(1,4,3)] r(1) by auto
qed

lemma overlapping_pushes_gather_alone_witness:
  "\<exists>pd me'. gather example_env example_exporter_config example_resources (lx_exporter unlogged) = Inr (pd, me')"
proof -
  obtain pd pids st errs es where r: "run direct_move (started example_exporter_config unlogged) es st"
    "es = [PushBegins example_resources, Progress, Progress, PushGathered 0 pd pids, PushSent 0 (hd (requests_of pids pd)) None, Progress]"
    by (rule example_push)
  have "ex_normalizer (lx_exporter unlogged) = DisabledNormalizer" by (simp add: unlogged_def fresh_exporter_def)
  from overlapping_pushes_gather_alone [OF r(1) this, of 0 pd pids "lx_exporter unlogged"] this show ?thesis
    by (auto simp: r(2) batches_def)
qed







lemma example_describes:
  assumes "metric_work example_env example_exporter_config example_resources = [item]"
    and "push_item example_env example_exporter_config item (Map.empty, lx_exporter unlogged) = Inr (pd, me)"
  shows "length (ex_descriptors me) = 1" "ex_cache me = Map.empty" "calls_of me = []"
proof -
  obtain ls where item: "item = (example_resource, ls, ''p'', example_gauge)"
    using assms(1) by (auto simp: metric_work_def scope_work_def example_resources_def example_exporter_config_def resource_project_def
        pmap_get_def Let_def)
  have "length (metricDescriptor example_env example_config example_gauge ls) = 1"
    by (simp add: metricDescriptor_def mapMetricPointKind_def example_gauge_def example_metric_def metricNameToType_def example_config_def
        defaultGetMetricName_def counter_example_point_def new_number_point_def convertToBoolIfMetricKindSupported_def
        specialIntToBoolUnit_def metricPointValueType_def)
  then obtain d where d: "metricDescriptor example_env example_config example_gauge ls = [d]" by (cases "metricDescriptor example_env example_config example_gauge ls") auto
  show "length (ex_descriptors me) = 1" "ex_cache me = Map.empty" "calls_of me = []"
    using assms(2) d by (auto simp: item push_item_def push_metric_def queue_metric_def res_bind_Inr_iff example_exporter_config_def
        offer_descriptor_def unlogged_def fresh_exporter_def calls_of_def Let_def)
qed

lemma running_exporter_describes_once_witness:
  "\<exists>es st. run direct_move (started example_exporter_config unlogged) es st \<and>
    length (descriptor_keys (calls_of (exporter_of st))) = 1 \<and> distinct (descriptor_keys (calls_of (exporter_of st)))"
proof -
  let ?cfg = example_exporter_config and ?cl = "recording accepting_client" and ?s0 = "started example_exporter_config unlogged"
  obtain item where item: "metric_work example_env ?cfg example_resources = [item]" using example_work by blast
  obtain ts me where g: "gather example_env ?cfg example_resources (lx_exporter unlogged) = Inr ([''p'' \<mapsto> [ts]], me)"
    using gather_example by blast
  have push: "push_item example_env ?cfg item (Map.empty, lx_exporter unlogged) = Inr ([''p'' \<mapsto> [ts]], me)"
    using g by (simp add: gather_work item fold_res_single del: fold_res.simps)
  have order: "ranges_over [''p''] [''p'' \<mapsto> [ts]]" by (simp add: ranges_over_def)
  have "rs_pushes ?s0 = []" "rs_owner ?s0 = None" "rs_crashed ?s0 = None" "rs_life ?s0 = Up" "exporter_of ?s0 = lx_exporter unlogged"
    by (simp_all add: started_def)
  note fresh = this
  obtain st es where st: "run direct_move ?s0 es st" "rs_exporter st = (rs_exporter ?s0)\<lparr>lx_exporter := me\<rparr>"
    "rs_runner st = Serving" "rs_crashed st = None"
    by (rule push_to_requests [where cl = ?cl and lib = list_log and cd = name_codec, OF fresh(1-4) item push [folded fresh(5)] order])
      (simp add: started_def)
  obtain d where d: "ex_descriptors me = [d]" using example_describes(1) [OF item push] by (cases "ex_descriptors me") auto
  let ?st = "set_exporter (descriptor_turn ?cfg ?cl (exporter_of st)) st"
  have "direct_move st Progress ?st" using serve [of st ?cfg ?cl] st d by (intro by_runner) simp_all
  with st(1) have r: "run direct_move ?s0 (es @ [Progress]) ?st" by (rule run_move [of direct_move])
  have calls: "descriptor_keys (calls_of (exporter_of ?st)) = [descriptor_key d]"
    using example_describes(2,3) [OF item push] d
    by (simp add: st(2) updates descriptor_turn_def exportMetricDescriptor_def recording_def accepting_client_def calls_of_def
        status_ok_def prod_eq_iff case_prod_beta Let_def)
  have "once_invariant (lx_exporter unlogged)"
    by (simp add: once_invariant_def calls_of_def unlogged_def fresh_exporter_def descriptor_keys_def map_filter_simps)
  moreover have "decisive accepting_client" by (simp add: decisive_def accepting_client_def status_ok_def)
  ultimately show ?thesis using running_exporter_describes_once [OF r] r calls
    by (intro exI [of _ "es @ [Progress]"] exI [of _ ?st]) simp
qed

end
