(* ===== verification/Pipeline.thy ===== *)
theory Pipeline
  imports CollectorConfig LogRun PushRun
begin

text \<open>
  The components of the metrics exporter together: from the configuration (\<open>CollectorConfig\<close>) through
  construction and start to the calls that a push makes (\<open>MetricsExporter\<close>).
\<close>

subsection \<open>From the configuration to the requests of a push\<close>

lemma fold_res_invariant_on:
  assumes "fold_res f xs s = Inr s'" "I s" "\<And>x s s'. x \<in> set xs \<Longrightarrow> I s \<Longrightarrow> f x s = Inr s' \<Longrightarrow> I s'"
  shows "I s'"
  using assms by (induction xs arbitrary: s) (auto simp: res_bind_Inr_iff)

definition pushed_resources :: "exporter_config \<Rightarrow> resource_metrics list \<Rightarrow> resource_metrics list" where
  "pushed_resources cfg rms = (case ec_extra_metrics cfg of Some f \<Rightarrow> f rms | None \<Rightarrow> rms)"

lemma push_metric_projects:
  assumes "push_metric env cfg res ls pid m st = Inr st'"
  shows "dom (fst st') \<subseteq> insert pid (dom (fst st))"
proof -
  obtain tss where "fst st' = add_pending (fst st) pid tss"
    using assms by (auto simp: push_metric_def queue_metric_def res_bind_Inr_iff Let_def split: prod.splits if_splits)
  then show ?thesis by (auto simp: add_pending_def)
qed

lemma push_resource_projects:
  assumes "push_resource env cfg rm st = Inr st'" "resource_project env cfg (rm_resource rm) \<in> P" "dom (fst st) \<subseteq> P"
  shows "dom (fst st') \<subseteq> P"
proof -
  let ?I = "\<lambda>st :: pending \<times> 'a exporter. dom (fst st) \<subseteq> P"
  have metric: "?I st'" if "?I st" "push_metric env cfg res ls (resource_project env cfg (rm_resource rm)) m st = Inr st'" for res ls m st st'
    using push_metric_projects [OF that(2)] that(1) assms(2) by blast
  have scope: "?I st'" if "?I st" "push_scope env cfg (rm_resource rm) sm st = Inr st'" for sm st st'
    using that(2) that(1) unfolding push_scope_def Let_def by (rule fold_res_invariant) (rule metric)
  show ?thesis using assms(1,3) unfolding push_resource_def by (rule fold_res_invariant) (rule scope)
qed

lemma gather_projects:
  assumes "gather env cfg rms me = Inr (pd, me')"
  shows "dom pd \<subseteq> (\<lambda>rm. resource_project env cfg (rm_resource rm)) ` set (pushed_resources cfg rms)" (is "_ \<subseteq> ?projects")
proof -
  let ?I = "\<lambda>st :: pending \<times> 'a exporter. dom (fst st) \<subseteq> ?projects"
  have "?I (pd, me')"
  proof (rule fold_res_invariant_on [where I = ?I])
    show "fold_res (push_resource env cfg) (pushed_resources cfg rms) (Map.empty, me) = Inr (pd, me')"
      using assms unfolding gather_def pushed_resources_def .
    show "?I st'" if "rm \<in> set (pushed_resources cfg rms)" "?I st" "push_resource env cfg rm st = Inr st'" for rm st st'
      using push_resource_projects [OF that(3) imageI [OF that(1)] that(2)] .
  qed simp
  then show ?thesis by simp
qed

text \<open>The series that each resource contributes, with the project they go to: what pushing it alone, onto no pending series,
leaves pending. The normalizer and the channel of descriptors are as the resources before it leave them.\<close>

definition pending_series :: "pending \<Rightarrow> string \<Rightarrow> time_series list" where
  "pending_series pd p = (case pd p of Some tss \<Rightarrow> tss | None \<Rightarrow> [])"

fun resource_series :: "mapper_env \<Rightarrow> exporter_config \<Rightarrow> resource_metrics list \<Rightarrow> 'c exporter \<Rightarrow> (string \<times> time_series list) list" where
  "resource_series env cfg [] me = []"
| "resource_series env cfg (rm # rms) me = (case push_resource env cfg rm (Map.empty, me) of
     Inl panic \<Rightarrow> []
   | Inr (pd, me') \<Rightarrow> (let p = resource_project env cfg (rm_resource rm) in (p, pending_series pd p) # resource_series env cfg rms me'))"

definition series_for :: "string \<Rightarrow> (string \<times> time_series list) list \<Rightarrow> time_series list" where
  "series_for p parts = concat (List.map snd (filter (\<lambda>part. fst part = p) parts))"

text \<open>What is pending already only stands in front.\<close>

definition extends_pending :: "pending \<Rightarrow> pending \<Rightarrow> pending \<Rightarrow> bool" where
  "extends_pending before added after \<longleftrightarrow> (\<forall>p. pending_series after p = pending_series before p @ pending_series added p)"

lemma extends_empty: "extends_pending pd Map.empty pd"
  by (simp add: extends_pending_def pending_series_def)

lemma pending_add: "pending_series (add_pending pd p tss) q = pending_series pd q @ (if q = p then tss else [])"
  by (simp add: pending_series_def add_pending_def split: option.split)

lemma push_metric_extends:
  assumes "push_metric env cfg res ls pid m (pd, me) = Inr (pd', me')" "extends_pending before added pd"
  shows "\<exists>added'. push_metric env cfg res ls pid m (added, me) = Inr (added', me') \<and> extends_pending before added' pd'"
proof -
  obtain r where r: "metricToTimeSeries env (ec_mapper cfg) (ex_normalizer me) res ls m pid = Inr r"
    and st: "queue_metric env cfg ls pid m (pd, me) r = (pd', me')"
    using assms(1) unfolding push_metric_def res_bind_Inr_iff snd_conv sum.inject by blast
  have "queue_metric env cfg ls pid m (added, me) r = (add_pending added pid (fst r), me')" "pd' = add_pending pd pid (fst r)"
    using st by (simp_all add: queue_metric_def Let_def)
  moreover have "extends_pending before (add_pending added pid tss) (add_pending pd pid tss)" for tss
    using assms(2) by (simp add: extends_pending_def pending_add)
  ultimately show ?thesis by (simp add: push_metric_def r)
qed

lemma fold_res_extends:
  assumes "fold_res f xs (pd, me) = Inr (pd', me')" "extends_pending before added pd"
    and "\<And>x pd me pd' me' added. f x (pd, me) = Inr (pd', me') \<Longrightarrow> extends_pending before added pd \<Longrightarrow>
      \<exists>added'. f x (added, me) = Inr (added', me') \<and> extends_pending before added' pd'"
  shows "\<exists>added'. fold_res f xs (added, me) = Inr (added', me') \<and> extends_pending before added' pd'"
  using assms(1,2)
proof (induction xs arbitrary: pd me added)
  case (Cons x xs)
  from Cons.prems(1) obtain pd1 me1 where one: "f x (pd, me) = Inr (pd1, me1)" "fold_res f xs (pd1, me1) = Inr (pd', me')"
    by (auto simp: res_bind_Inr_iff)
  from assms(3) [OF one(1) Cons.prems(2)] obtain added1 where "f x (added, me) = Inr (added1, me1)" "extends_pending before added1 pd1"
    by blast
  with Cons.IH [OF one(2)] show ?case by fastforce
qed auto

lemma push_resource_extends:
  assumes "push_resource env cfg rm (pd, me) = Inr (pd', me')"
  obtains added where "push_resource env cfg rm (Map.empty, me) = Inr (added, me')" "extends_pending pd added pd'"
    "dom added \<subseteq> {resource_project env cfg (rm_resource rm)}"
proof -
  have scope: "\<exists>added'. push_scope env cfg r sm (added, me) = Inr (added', me') \<and> extends_pending pd added' pd''"
    if "push_scope env cfg r sm (pd0, me) = Inr (pd'', me')" "extends_pending pd added pd0" for r sm pd0 me pd'' me' added
    using that unfolding push_scope_def Let_def by (rule fold_res_extends) (rule push_metric_extends)
  have "\<exists>added. push_resource env cfg rm (Map.empty, me) = Inr (added, me') \<and> extends_pending pd added pd'"
    using assms extends_empty unfolding push_resource_def by (rule fold_res_extends) (rule scope)
  then obtain added where added: "push_resource env cfg rm (Map.empty, me) = Inr (added, me')" "extends_pending pd added pd'"
    by blast
  from push_resource_projects [OF added(1), of "{resource_project env cfg (rm_resource rm)}"] that [OF added] show thesis by simp
qed

lemma resources_gathered:
  assumes "fold_res (push_resource env cfg) rms (pd, me) = Inr (pd', me')"
  shows "pending_series pd' p = pending_series pd p @ series_for p (resource_series env cfg rms me)"
  using assms
proof (induction rms arbitrary: pd me)
  case (Cons rm rms)
  from Cons.prems obtain pd1 me1 where one: "push_resource env cfg rm (pd, me) = Inr (pd1, me1)"
    "fold_res (push_resource env cfg) rms (pd1, me1) = Inr (pd', me')"
    by (auto simp: res_bind_Inr_iff)
  obtain added where added: "push_resource env cfg rm (Map.empty, me) = Inr (added, me1)" "extends_pending pd added pd1"
    "dom added \<subseteq> {resource_project env cfg (rm_resource rm)}"
    using one(1) by (rule push_resource_extends)
  let ?own = "resource_project env cfg (rm_resource rm)"
  have "pending_series added p = (if ?own = p then pending_series added ?own else [])"
    using added(3) by (cases "?own = p") (auto simp: pending_series_def split: option.split)
  also have "\<dots> @ series_for p (resource_series env cfg rms me1) = series_for p (resource_series env cfg (rm # rms) me)"
    by (simp add: series_for_def added(1) Let_def)
  finally have "pending_series added p @ series_for p (resource_series env cfg rms me1) =
      series_for p (resource_series env cfg (rm # rms) me)" .
  then show ?case using Cons.IH [OF one(2)] added(2) unfolding extends_pending_def by (simp del: resource_series.simps)
qed (simp add: series_for_def)

lemma gathered_series:
  assumes "gather env cfg rms me = Inr (pd, me')"
  shows "pending_series pd p = series_for p (resource_series env cfg (pushed_resources cfg rms) me)"
proof -
  have "fold_res (push_resource env cfg) (pushed_resources cfg rms) (Map.empty, me) = Inr (pd, me')"
    using assms unfolding gather_def pushed_resources_def .
  from resources_gathered [OF this, of p] show ?thesis by (simp add: pending_series_def)
qed

lemma new_metrics_exporter:
  assumes "NewGoogleCloudMetricsExporter limit compile counters info timeout cfg = Inr (Inr me)"
  shows "gm_config me = SetUserAgent info cfg" "gm_quota me = cg_quota cfg" "gm_state me = None"
  using assms by (auto simp: NewGoogleCloudMetricsExporter_def SetUserAgent_def Let_def res_bind_Inr_iff split: list.splits if_splits)

lemma Start_metrics_frame:
  assumes "Start_metrics env new_client lib disk scopes host me = (None, me')"
  obtains cc where "gm_config me' = set_metric_client cc (gm_config me)\<lparr>cg_project := cg_project (gm_config me')\<rparr>"
    "gm_quota me' = gm_quota me"
proof -
  obtain cc opts cfg where cfg: "generateClientOptions env scopes cc (set_metric_client cc (gm_config me)) = (Inr opts, cfg)"
    "gm_config me' = cfg" "gm_quota me' = gm_quota me"
    using assms by (auto simp: Start_metrics_def Let_def split: sum.splits prod.splits if_splits)
  from generated_project(2) [OF cfg(1)] show thesis using that cfg(2,3) by metis
qed

text \<open>What \<open>Start\<close> leaves is the state from which the step relation of \<open>ExporterRun\<close> runs: the group counts the
goroutines that were started, and with a log its handle is open.\<close>

lemma started_exporter_runs:
  assumes "Start_metrics env new_client lib disk scopes host me = (None, me')" "gm_goroutines me = []" "gm_state me' = Some st"
    and lawful: "wal_lawful lib view live"
  shows "rs_group (started (run_config me') st) = int (length (gm_goroutines me'))"
    and "ec_wal (run_config me') \<noteq> None \<Longrightarrow> live (lx_log st) \<and> view (lx_log st) = view disk"
proof -
  obtain cc opts cfg c where cfg: "generateClientOptions env scopes cc (set_metric_client cc (gm_config me)) = (Inr opts, cfg)"
    "with_authenticator env host (gm_config me) (mt_client (cg_metric (gm_config me))) = Inr cc"
    "new_client opts = Inr c" "gm_config me' = cfg"
    using assms(1) by (auto simp: Start_metrics_def Let_def split: sum.splits prod.splits if_splits)
  let ?st = "\<lparr>lx_exporter = fresh_exporter c (if mt_normalization (cg_metric (gm_config me)) then StandardNormalizer NewStandardNormalizer
      else gm_normalizer me), lx_log = disk, lx_open = False, lx_slept = []\<rparr>"
  have run: "ec_wal (run_config me') = mt_wal (cg_metric cfg)"
    by (simp add: run_config_def Let_def cfg(4))
  have "usable_log live ?st" by (simp add: usable_log_def)
  from setupWAL_lawful [OF lawful this] obtain r w where w: "setupWAL lib ?st = (Inr r, ?st\<lparr>lx_log := w, lx_open := True\<rparr>)"
    "view w = view disk" "live w"
    by auto
  have "if ec_wal (run_config me') = None then gm_goroutines me' = [DescriptorRunner]
      else gm_goroutines me' = [LogRunner, DescriptorRunner] \<and> st = ?st\<lparr>lx_log := w, lx_open := True\<rparr>"
    using assms(1-3) w(1) unfolding run by (auto simp: Start_metrics_def Let_def cfg split: if_splits)
  then show "rs_group (started (run_config me') st) = int (length (gm_goroutines me'))"
    and "ec_wal (run_config me') \<noteq> None \<Longrightarrow> live (lx_log st) \<and> view (lx_log st) = view disk"
    using w(2,3) by (auto simp: started_def split: if_splits)
qed

lemma push_without_log:
  assumes "PushMetrics env cfg cl lib cd order rms (Some st) = Inr (errs, Some st')" "ec_wal cfg = None"
  obtains es me where "PushMetricsDirectly env cfg cl order rms (lx_exporter st) = Inr (es, me)" "lx_exporter st' = me"
proof (cases "PushMetricsDirectly env cfg cl order rms (lx_exporter st)")
  case (Inr r)
  then show thesis using assms that [of "fst r" "snd r"] by (auto simp: PushMetrics_def case_prod_beta)
qed (use assms in \<open>simp add: PushMetrics_def\<close>)

text \<open>C37. A constructed exporter refuses to push. Once it is started without a log, a push makes one call per request, in
the order of the requests, and charges each to its project when destination quota is configured. No request is empty
or larger than 200 series; each goes to the project of a resource of the batch, which is the one its attributes set or else
the configured project, or that of the default credentials, never empty; and the series sent to a project are those
of its resources, every one once and in order.\<close>

theorem started_exporter_pushes_to_its_project:
  assumes "NewGoogleCloudMetricsExporter limit compile counters info timeout cfg = Inr (Inr me)"
    and "Start_metrics env new_client lib disk scopes host me = (None, me')" "gm_state me' = Some st" "ec_wal (run_config me') = None"
    and "\<And>pd. finite (dom pd) \<Longrightarrow> ranges_over (order pd) pd"
    and "PushMetrics menv (run_config me') (recording cl) lib cd order rms (gm_state me') = Inr (errs, Some st')"
  shows "PushMetrics menv (run_config me) (recording cl) lib cd order rms (gm_state me) = Inr ([NotStarted], None) \<and>
    (\<exists>project reqs. usable_project env scopes cfg project \<and>
      calls_of (lx_exporter st') = calls_of (lx_exporter st) @ List.map (\<lambda>r. SeriesCall
        (if mt_service_series (cg_metric cfg) then CreateServiceTimeSeries else CreateTimeSeries)
        (if cg_quota cfg then Some (drop (length ''projects/'') (rq_name r)) else None) r) reqs \<and>
      (\<forall>r \<in> set reqs. 0 < length (rq_series r) \<and> length (rq_series r) \<le> 200 \<and>
        (\<exists>rm \<in> set (pushed_resources (run_config me') rms). rq_name r = ''projects/'' @
          (case pmap_get (rm_resource rm) ''gcp.project.id'' of Some v \<Rightarrow> me_as_string menv v | None \<Rightarrow> project))) \<and>
      (\<forall>p. concat (List.map rq_series (filter (\<lambda>r. rq_name r = ''projects/'' @ p) reqs)) =
        series_for p (resource_series menv (run_config me') (pushed_resources (run_config me') rms) (lx_exporter st))))"
proof -
  let ?run = "run_config me'"
  have config: "gm_config me = SetUserAgent info cfg" "gm_quota me = cg_quota cfg" "gm_state me = None"
    using new_metrics_exporter [OF assms(1)] .
  have "usable_project env scopes (gm_config me) = usable_project env scopes cfg"
    by (rule usable_project_cong) (simp add: config SetUserAgent_def)
  then have usable: "usable_project env scopes cfg (ec_project ?run)"
    using Start_metrics_None [OF assms(2)] by (simp add: run_config_def Let_def)
  obtain cc where frame: "gm_config me' = set_metric_client cc (gm_config me)\<lparr>cg_project := cg_project (gm_config me')\<rparr>"
    "gm_quota me' = gm_quota me"
    using Start_metrics_frame [OF assms(2)] .
  have "mt_service_series (cg_metric (gm_config me')) = mt_service_series (cg_metric cfg)"
    by (subst frame(1)) (simp add: set_metric_client_def config(1) SetUserAgent_def)
  then have quota: "ec_destination_quota ?run = cg_quota cfg" "ec_service_series ?run = mt_service_series (cg_metric cfg)"
    by (simp_all add: run_config_def Let_def frame(2) config(2))
  obtain errs' ex where direct: "PushMetricsDirectly menv ?run (recording cl) order rms (lx_exporter st) = Inr (errs', ex)"
    "lx_exporter st' = ex"
    by (rule push_without_log [OF assms(6) [unfolded assms(3)] assms(4)])
  then obtain pd ex1 where g: "gather menv ?run rms (lx_exporter st) = Inr (pd, ex1)"
    by (auto simp: PushMetricsDirectly_def res_bind_Inr_iff)
  have projects: "dom pd \<subseteq> (\<lambda>rm. resource_project menv ?run (rm_resource rm)) ` set (pushed_resources ?run rms)"
    using gather_projects [OF g] .
  then have order: "ranges_over (order pd) pd" using assms(5) finite_subset by blast
  let ?reqs = "requests_of (order pd) pd"
  have ok: "0 < length (rq_series r) \<and> length (rq_series r) \<le> 200 \<and> (\<exists>p \<in> dom pd. rq_name r = ''projects/'' @ p)" if "r \<in> set ?reqs" for r
    using that order project_requests_bounds by (fastforce simp: requests_of_def sendBatchSize_def ranges_over_def projectName_def)
  have "ex = snd (export_all ?run (recording cl) ?reqs ex1)"
    using direct(1) by (simp add: PushMetricsDirectly_def g prod_eq_iff)
  moreover have "filter (\<lambda>r. \<not> isEmptyReq r) ?reqs = ?reqs"
    using ok by (intro filter_True) (auto simp: isEmptyReq_def)
  ultimately have calls: "calls_of ex = calls_of (lx_exporter st) @ List.map (sent_as ?run) ?reqs"
    using gather_client [OF g] by (simp add: export_all_recorded) (simp add: calls_of_def)
  have "sent_as ?run r = SeriesCall (if mt_service_series (cg_metric cfg) then CreateServiceTimeSeries else CreateTimeSeries)
      (if cg_quota cfg then Some (drop (length ''projects/'') (rq_name r)) else None) r" if r: "r \<in> set ?reqs" for r
  proof -
    obtain p where "rq_name r = ''projects/'' @ p" using ok [OF r] by blast
    then show ?thesis by (simp only: sent_as_def quota_project_def quota trim_prefix_append append_eq_conv_conj) simp
  qed
  then have sent: "List.map (sent_as ?run) ?reqs = List.map (\<lambda>r. SeriesCall
      (if mt_service_series (cg_metric cfg) then CreateServiceTimeSeries else CreateTimeSeries)
      (if cg_quota cfg then Some (drop (length ''projects/'') (rq_name r)) else None) r) ?reqs" by simp
  have named: "\<exists>rm \<in> set (pushed_resources ?run rms). rq_name r = ''projects/'' @
      (case pmap_get (rm_resource rm) ''gcp.project.id'' of Some v \<Rightarrow> me_as_string menv v | None \<Rightarrow> ec_project ?run)" if "r \<in> set ?reqs" for r
    using ok [OF that] projects by (fastforce simp: resource_project_def)
  have series: "concat (List.map rq_series (filter (\<lambda>r. rq_name r = ''projects/'' @ p) ?reqs)) =
      series_for p (resource_series menv ?run (pushed_resources ?run rms) (lx_exporter st))" for p
  proof (cases "p \<in> dom pd")
    case True
    then have "concat (List.map rq_series (filter (\<lambda>r. rq_name r = projectName p) ?reqs)) = pending_series pd p"
      using order by (subst requests_of_project) (auto simp: ranges_over_def project_requests_series pending_series_def)
    then show ?thesis using gathered_series [OF g, of p] by (simp add: projectName_def)
  next
    case False
    then have "filter (\<lambda>r. rq_name r = ''projects/'' @ p) ?reqs = []" using ok by (fastforce simp: filter_empty_conv)
    then show ?thesis using gathered_series [OF g, of p] False by (simp add: pending_series_def domIff)
  qed
  show ?thesis
  proof (intro conjI exI [of _ "ec_project ?run"] exI [of _ ?reqs])
    show "PushMetrics menv (run_config me) (recording cl) lib cd order rms (gm_state me) = Inr ([NotStarted], None)"
      by (simp add: PushMetrics_def config(3))
    show "usable_project env scopes cfg (ec_project ?run)" by (rule usable)
    show "calls_of (lx_exporter st') = calls_of (lx_exporter st) @ List.map (\<lambda>r. SeriesCall
        (if mt_service_series (cg_metric cfg) then CreateServiceTimeSeries else CreateTimeSeries)
        (if cg_quota cfg then Some (drop (length ''projects/'') (rq_name r)) else None) r) ?reqs"
      unfolding direct(2) calls sent ..
    show "\<forall>r \<in> set ?reqs. 0 < length (rq_series r) \<and> length (rq_series r) \<le> 200 \<and>
        (\<exists>rm \<in> set (pushed_resources ?run rms). rq_name r = ''projects/'' @
          (case pmap_get (rm_resource rm) ''gcp.project.id'' of Some v \<Rightarrow> me_as_string menv v | None \<Rightarrow> ec_project ?run))"
      using ok named by blast
    show "\<forall>p. concat (List.map rq_series (filter (\<lambda>r. rq_name r = ''projects/'' @ p) ?reqs)) =
        series_for p (resource_series menv ?run (pushed_resources ?run rms) (lx_exporter st))"
      using series by blast
  qed
qed

text \<open>A configuration that runs as the example of the metrics exporter.\<close>

definition pipeline_config :: config where
  "pipeline_config = (exporter_DefaultConfig (\<lambda>v. []))\<lparr>cg_project := ''p'', cg_quota := True,
     cg_metric := (cg_metric (exporter_DefaultConfig (\<lambda>v. [])))\<lparr>mt_map_resource := (\<lambda>attrs. example_resource),
       mt_prefix := mc_prefix example_config, mt_known_domains := mc_known_domains example_config,
       mt_get_name := mc_get_metric_name example_config, mt_library_labels := mc_library_labels example_config,
       mt_deviation := mc_deviation example_config, mt_normalization := False\<rparr>\<rparr>"

definition recorded_client :: "client_option list \<Rightarrow> (string, unit \<times> client_call list) res" where
  "recorded_client opts = Inr ((), [])"

definition pipeline_new :: "(unit \<times> client_call list, nat \<times> string list) metrics_exporter" where
  "pipeline_new = \<lparr>gm_config = SetUserAgent example_info pipeline_config, gm_mapper = SetUserAgent example_info pipeline_config,
     gm_filters = [], gm_timeout = 5, gm_normalizer = DisabledNormalizer, gm_quota = True, gm_state = None,
     gm_compressed = False, gm_goroutines = [], gm_shutdown = False\<rparr>"

lemma pipeline_new: "NewGoogleCloudMetricsExporter example_chan_limit strict_compiler (\<lambda>c. None) example_info 5 pipeline_config = Inr (Inr pipeline_new)"
  by (simp add: NewGoogleCloudMetricsExporter_def pipeline_new_def pipeline_config_def exporter_DefaultConfig_def SetUserAgent_def
      Let_def counter_names_def List.map_filter_def example_chan_limit_def)

definition pipeline_state :: "(unit \<times> client_call list, nat \<times> string list) log_exporter" where
  "pipeline_state = \<lparr>lx_exporter = fresh_exporter ((), []) DisabledNormalizer, lx_log = (1, []), lx_open = False, lx_slept = []\<rparr>"

lemma pipeline_start:
  "\<exists>me'. Start_metrics example_env recorded_client list_log (1, []) [] None pipeline_new = (None, me') \<and>
     gm_state me' = Some pipeline_state \<and> run_config me' = example_exporter_config"
  by (simp add: Start_metrics_def pipeline_new_def pipeline_config_def exporter_DefaultConfig_def SetUserAgent_def Let_def
      with_authenticator_def generateClientOptions_def endpoint_options_def credential_options_def set_metric_client_def
      no_client_config_def given_options_def recorded_client_def pipeline_state_def run_config_def example_exporter_config_def)

lemma started_exporter_pushes_to_its_project_witness:
  "\<exists>me' errs st' calls. Start_metrics example_env recorded_client list_log (1, []) [] None pipeline_new = (None, me') \<and>
    PushMetrics MetricMapper.example_env (run_config pipeline_new) (recording accepting_client) list_log name_codec
      (\<lambda>pd. sorted_list_of_set (dom pd)) example_resources (gm_state pipeline_new) = Inr ([NotStarted], None) \<and>
    PushMetrics MetricMapper.example_env (run_config me') (recording accepting_client) list_log name_codec
      (\<lambda>pd. sorted_list_of_set (dom pd)) example_resources (gm_state me') = Inr (errs, Some st') \<and>
    calls_of (lx_exporter st') = calls_of (lx_exporter pipeline_state) @ calls \<and>
    (\<forall>call \<in> set calls. \<exists>r. call = SeriesCall CreateTimeSeries (Some ''p'') r \<and> rq_name r = ''projects/p'')"
proof -
  let ?order = "\<lambda>pd :: pending. sorted_list_of_set (dom pd)"
  obtain me' where start: "Start_metrics example_env recorded_client list_log (1, []) [] None pipeline_new = (None, me')"
    "gm_state me' = Some pipeline_state" and run: "run_config me' = example_exporter_config"
    using pipeline_start by blast
  obtain ts ex1 where g: "gather MetricMapper.example_env example_exporter_config example_resources (lx_exporter pipeline_state) =
      Inr ([''p'' \<mapsto> [ts]], ex1)"
    using gather_example by blast
  obtain errs ex where "PushMetricsDirectly MetricMapper.example_env example_exporter_config (recording accepting_client) ?order
      example_resources (lx_exporter pipeline_state) = Inr (errs, ex)"
    using push_returns [OF g] by meson
  then have push: "\<exists>errs st'. PushMetrics MetricMapper.example_env (run_config me') (recording accepting_client) list_log name_codec ?order
      example_resources (gm_state me') = Inr (errs, Some st')"
    by (simp add: PushMetrics_def start(2) run) (simp add: example_exporter_config_def)
  then obtain errs st' where p: "PushMetrics MetricMapper.example_env (run_config me') (recording accepting_client) list_log name_codec ?order
      example_resources (gm_state me') = Inr (errs, Some st')" by blast
  have wal: "ec_wal (run_config me') = None" by (simp add: run example_exporter_config_def)
  have order: "ranges_over (?order pd) pd" if "finite (dom pd)" for pd using that by (simp add: ranges_over_def)
  have own: "pmap_get (rm_resource rm) k = None" if "rm \<in> set (pushed_resources (run_config me') example_resources)" for rm k
    using that by (simp add: run pushed_resources_def example_exporter_config_def example_resources_def pmap_get_def)
  have project: "project = ''p''" if "usable_project example_env [] pipeline_config project" for project
    using that by (simp add: usable_project_def pipeline_config_def)
  have config: "cg_quota pipeline_config" "\<not> mt_service_series (cg_metric pipeline_config)"
    by (simp_all add: pipeline_config_def exporter_DefaultConfig_def)
  from started_exporter_pushes_to_its_project [OF pipeline_new start wal order p] obtain project reqs where result:
    "PushMetrics MetricMapper.example_env (run_config pipeline_new) (recording accepting_client) list_log name_codec ?order
      example_resources (gm_state pipeline_new) = Inr ([NotStarted], None)"
    "usable_project example_env [] pipeline_config project"
    "calls_of (lx_exporter st') = calls_of (lx_exporter pipeline_state) @ List.map (\<lambda>r. SeriesCall CreateTimeSeries
      (Some (drop (length ''projects/'') (rq_name r))) r) reqs"
    "\<forall>r \<in> set reqs. \<exists>rm \<in> set (pushed_resources (run_config me') example_resources). rq_name r = ''projects/'' @
      (case pmap_get (rm_resource rm) ''gcp.project.id'' of Some v \<Rightarrow> me_as_string MetricMapper.example_env v | None \<Rightarrow> project)"
    by (simp only: config if_True if_False) blast
  from result(2,4) have "\<forall>r \<in> set reqs. rq_name r = ''projects/p''" using own project by fastforce
  with start(1) p result(1,3) show ?thesis by (intro exI conjI) auto
qed

end
