(* ===== verification/CloudMock.thy ===== *)
theory CloudMock
  imports ExportLog Logs Traces
begin

text \<open>
  The mock servers of the Google Cloud APIs that the tests run the exporters against
  (internal/cloudmock): what each handler records and answers, the accessors that pop what was recorded,
  and the servers as clients of the exporters. A handler holds the lock of its server, so it is one step.
  The context of a call carries the values of its user agent header, or no metadata at all; a status that
  is not an error reaches the client without details.
\<close>

subsection \<open>Monitoring\<close>

record metrics_server =
  ms_agent :: string
  ms_descriptors :: "md_request list"
  ms_series :: "ts_request list"
  ms_service_series :: "ts_request list"
  ms_retry_count :: nat

type_synonym call_context = "string list option"

text \<open>\<open>strings.Join\<close>, and the agent of a call.\<close>

fun join_strings :: "string \<Rightarrow> string list \<Rightarrow> string" where
  "join_strings sep [] = []"
| "join_strings sep [s] = s"
| "join_strings sep (s # t # ss) = s @ sep @ join_strings sep (t # ss)"

definition agent_of :: "call_context \<Rightarrow> string \<Rightarrow> string" where
  "agent_of ctx old = (case ctx of Some agents \<Rightarrow> join_strings '';'' agents | None \<Rightarrow> old)"

definition pop_descriptors :: "metrics_server \<Rightarrow> md_request list \<times> metrics_server" where
  "pop_descriptors m = (ms_descriptors m, m\<lparr>ms_descriptors := []\<rparr>)"

definition pop_agent :: "metrics_server \<Rightarrow> string \<times> metrics_server" where
  "pop_agent m = (ms_agent m, m\<lparr>ms_agent := []\<rparr>)"

definition pop_series :: "metrics_server \<Rightarrow> ts_request list \<times> metrics_server" where
  "pop_series m = (ms_series m, m\<lparr>ms_series := []\<rparr>)"

definition pop_service_series :: "metrics_server \<Rightarrow> ts_request list \<times> metrics_server" where
  "pop_service_series m = (ms_service_series m, m\<lparr>ms_service_series := []\<rparr>)"

definition appendCreateMetricDescriptorReq :: "md_request \<Rightarrow> metrics_server \<Rightarrow> metrics_server" where
  "appendCreateMetricDescriptorReq req m = m\<lparr>ms_descriptors := ms_descriptors m @ [req]\<rparr>"

definition appendCreateTimeSeriesReq :: "call_context \<Rightarrow> ts_request \<Rightarrow> metrics_server \<Rightarrow> metrics_server" where
  "appendCreateTimeSeriesReq ctx req m = m\<lparr>ms_series := ms_series m @ [req], ms_agent := agent_of ctx (ms_agent m)\<rparr>"

definition appendCreateServiceTimeSeriesReq :: "call_context \<Rightarrow> ts_request \<Rightarrow> metrics_server \<Rightarrow> metrics_server" where
  "appendCreateServiceTimeSeriesReq ctx req m =
     m\<lparr>ms_service_series := ms_service_series m @ [req], ms_agent := agent_of ctx (ms_agent m)\<rparr>"

text \<open>The code of an answer is chosen by words in the name of the project.\<close>

definition answer_code :: "ts_request \<Rightarrow> metrics_server \<Rightarrow> grpc_code \<times> metrics_server" where
  "answer_code req m =
     (if str_contains (rq_name req) ''notfound'' then (NotFound, m)
      else if str_contains (rq_name req) ''unavailable'' \<and> ms_retry_count m = 0
      then (Unavailable, m\<lparr>ms_retry_count := ms_retry_count m + 1\<rparr>)
      else if str_contains (rq_name req) ''deadline_exceeded'' \<and> ms_retry_count m = 0
      then (DeadlineExceeded, m\<lparr>ms_retry_count := ms_retry_count m + 1\<rparr>)
      else (OK, m))"

definition mock_CreateTimeSeries :: "call_context \<Rightarrow> ts_request \<Rightarrow> metrics_server \<Rightarrow> grpc_status \<times> metrics_server" where
  "mock_CreateTimeSeries ctx req m0 =
     (let (code, m) = answer_code req m0 in
      if code = NotFound \<or> code = Unavailable \<or> code = DeadlineExceeded
      then (\<lparr>gs_code = code, gs_summaries = [(word_of_nat (length (rq_series req)), 0)]\<rparr>, m)
      else (status_ok, appendCreateTimeSeriesReq ctx req m))"

definition mock_CreateServiceTimeSeries :: "call_context \<Rightarrow> ts_request \<Rightarrow> metrics_server \<Rightarrow> grpc_status \<times> metrics_server" where
  "mock_CreateServiceTimeSeries ctx req m = (status_ok, appendCreateServiceTimeSeriesReq ctx req m)"

definition mock_CreateMetricDescriptor :: "md_request \<Rightarrow> metrics_server \<Rightarrow> grpc_status \<times> metrics_server" where
  "mock_CreateMetricDescriptor req m = (status_ok, appendCreateMetricDescriptorReq req m)"

definition NewMetricTestServer :: metrics_server where
  "NewMetricTestServer = \<lparr>ms_agent = [], ms_descriptors = [], ms_series = [], ms_service_series = [], ms_retry_count = 0\<rparr>"

definition mock_monitoring :: "call_context \<Rightarrow> metrics_server monitoring_client" where
  "mock_monitoring ctx = \<lparr>
     cl_series = (\<lambda>k q req m. case k of
         CreateTimeSeries \<Rightarrow> mock_CreateTimeSeries ctx req m
       | CreateServiceTimeSeries \<Rightarrow> mock_CreateServiceTimeSeries ctx req m),
     cl_descriptor = (\<lambda>q req m. mock_CreateMetricDescriptor req m)\<rparr>"

subsection \<open>Tracing\<close>

record traces_server =
  tsv_agent :: string
  tsv_requests :: "write_request list"
  tsv_retries :: nat

text \<open>The options: an error to answer with, and a delay in nanoseconds, which the model does not wait for.\<close>

record mock_config =
  mk_error :: "string option"
  mk_delay :: int

definition WithDelay :: "int \<Rightarrow> mock_config \<Rightarrow> mock_config" where
  "WithDelay t cfg = cfg\<lparr>mk_delay := t\<rparr>"

definition WithErrorResponse :: "string option \<Rightarrow> mock_config \<Rightarrow> mock_config" where
  "WithErrorResponse e cfg = cfg\<lparr>mk_error := e\<rparr>"

definition appendBatchWriteSpansRequest :: "call_context \<Rightarrow> write_request \<Rightarrow> traces_server \<Rightarrow> traces_server" where
  "appendBatchWriteSpansRequest ctx req t = t\<lparr>tsv_requests := tsv_requests t @ [req], tsv_agent := agent_of ctx (tsv_agent t)\<rparr>"

definition BatchWriteSpans :: "mock_config \<Rightarrow> call_context \<Rightarrow> write_request \<Rightarrow> traces_server \<Rightarrow> string option \<times> traces_server" where
  "BatchWriteSpans cfg ctx req t = (case mk_error cfg of
     Some e \<Rightarrow> (Some e, t\<lparr>tsv_retries := tsv_retries t + 1\<rparr>)
   | None \<Rightarrow> (None, appendBatchWriteSpansRequest ctx req t))"

definition CreateBatchWriteSpansRequests :: "traces_server \<Rightarrow> write_request list \<times> traces_server" where
  "CreateBatchWriteSpansRequests t = (tsv_requests t, t\<lparr>tsv_requests := []\<rparr>)"

definition traces_UserAgent :: "traces_server \<Rightarrow> string \<times> traces_server" where
  "traces_UserAgent t = (tsv_agent t, t\<lparr>tsv_agent := []\<rparr>)"

text \<open>A server with the configuration that its options make, one after the other.\<close>

definition NewTracesTestServer :: "(mock_config \<Rightarrow> mock_config) list \<Rightarrow> mock_config \<times> traces_server" where
  "NewTracesTestServer opts = (fold (\<lambda>opt c. opt c) opts \<lparr>mk_error = None, mk_delay = 0\<rparr>,
     \<lparr>tsv_agent = [], tsv_requests = [], tsv_retries = 0\<rparr>)"

definition mock_tracing :: "mock_config \<Rightarrow> call_context \<Rightarrow> traces_server trace_client" where
  "mock_tracing cfg ctx q timeout req t = BatchWriteSpans cfg ctx req t"

subsection \<open>Logging\<close>

record logs_server =
  lsv_agent :: string
  lsv_requests :: "log_entry list list"

definition appendWriteLogEntriesRequest :: "call_context \<Rightarrow> log_entry list \<Rightarrow> logs_server \<Rightarrow> logs_server" where
  "appendWriteLogEntriesRequest ctx req l = l\<lparr>lsv_requests := lsv_requests l @ [req], lsv_agent := agent_of ctx (lsv_agent l)\<rparr>"

definition WriteLogEntries :: "call_context \<Rightarrow> log_entry list \<Rightarrow> logs_server \<Rightarrow> write_error option \<times> logs_server" where
  "WriteLogEntries ctx req l = (None, appendWriteLogEntriesRequest ctx req l)"

definition CreateWriteLogEntriesRequests :: "logs_server \<Rightarrow> log_entry list list \<times> logs_server" where
  "CreateWriteLogEntriesRequests l = (lsv_requests l, l\<lparr>lsv_requests := []\<rparr>)"

definition logs_UserAgent :: "logs_server \<Rightarrow> string \<times> logs_server" where
  "logs_UserAgent l = (lsv_agent l, l\<lparr>lsv_agent := []\<rparr>)"

definition NewLoggingTestServer :: logs_server where
  "NewLoggingTestServer = \<lparr>lsv_agent = [], lsv_requests = []\<rparr>"

definition mock_logging :: "call_context \<Rightarrow> logs_server log_client" where
  "mock_logging ctx q batch l = WriteLogEntries ctx batch l"

subsection \<open>The exporter against the mock server\<close>

definition refused :: "ts_request \<Rightarrow> bool" where
  "refused req \<longleftrightarrow> str_contains (rq_name req) ''notfound''"

definition outage :: "ts_request \<Rightarrow> metrics_server \<Rightarrow> bool" where
  "outage req m \<longleftrightarrow> \<not> refused req \<and> ms_retry_count m = 0 \<and>
     (str_contains (rq_name req) ''unavailable'' \<or> str_contains (rq_name req) ''deadline_exceeded'')"

lemma mock_answers:
  "refused req \<Longrightarrow> mock_CreateTimeSeries ctx req m =
     (\<lparr>gs_code = NotFound, gs_summaries = [(word_of_nat (length (rq_series req)), 0)]\<rparr>, m)"
  "outage req m \<Longrightarrow> \<exists>s. mock_CreateTimeSeries ctx req m = (s, m\<lparr>ms_retry_count := 1\<rparr>) \<and> gs_code s \<in> {Unavailable, DeadlineExceeded}"
  "\<not> refused req \<Longrightarrow> \<not> outage req m \<Longrightarrow> mock_CreateTimeSeries ctx req m = (status_ok, appendCreateTimeSeriesReq ctx req m)"
  by (auto simp: refused_def outage_def mock_CreateTimeSeries_def answer_code_def Let_def)

lemma mock_export:
  assumes "\<not> isEmptyReq req" "\<not> ec_service_series cfg" "mock_CreateTimeSeries ctx req (ex_client me) = (s, m)"
  shows "\<exists>counter. export_request cfg (mock_monitoring ctx) req me =
    (if gs_code s = OK then None else Some s, me\<lparr>ex_client := m, ex_counter := counter\<rparr>)"
  using assms by (intro exI [of _ "counter_add (ex_counter me) s (point_counts req s)"])
    (simp add: export_request_def exportToTimeSeries_call mock_monitoring_def)

definition delivered :: "('c, 'w) log_exporter \<Rightarrow> 'c" where
  "delivered st = ex_client (lx_exporter st)"

lemma retry_stops:
  assumes "\<not> isEmptyReq req" "\<not> ec_service_series cfg" "i < 12"
    and "mock_CreateTimeSeries ctx req (delivered st) = (s, m)" "gs_code s = OK \<or> isNotRecoverable s \<or> mx \<le> 2 ^ i * second"
  shows "delivered (retry_loop cfg (mock_monitoring ctx) mx req i st) = m \<and>
    lx_slept (retry_loop cfg (mock_monitoring ctx) mx req i st) = lx_slept st"
proof -
  obtain counter where e: "export_request cfg (mock_monitoring ctx) req (lx_exporter st) =
      (if gs_code s = OK then None else Some s, (lx_exporter st)\<lparr>ex_client := m, ex_counter := counter\<rparr>)"
    using mock_export [OF assms(1,2)] assms(4) unfolding delivered_def by blast
  show ?thesis
    using assms(3,5) by (subst (1 2) retry_loop.simps) (auto simp: e Let_def delivered_def)
qed

lemma retry_continues:
  assumes "\<not> isEmptyReq req" "\<not> ec_service_series cfg" "i < 12"
    and "mock_CreateTimeSeries ctx req (delivered st) = (s, m)" "gs_code s \<noteq> OK" "\<not> isNotRecoverable s" "2 ^ i * second < mx"
  obtains st1 where "retry_loop cfg (mock_monitoring ctx) mx req i st = retry_loop cfg (mock_monitoring ctx) mx req (Suc i) st1"
    "delivered st1 = m" "lx_slept st1 = lx_slept st @ [2 ^ i]"
proof -
  obtain counter where e: "export_request cfg (mock_monitoring ctx) req (lx_exporter st) =
      (Some s, (lx_exporter st)\<lparr>ex_client := m, ex_counter := counter\<rparr>)"
    using mock_export [OF assms(1,2)] assms(4,5) unfolding delivered_def by fastforce
  show thesis
    by (rule that [of "st\<lparr>lx_exporter := (lx_exporter st)\<lparr>ex_client := m, ex_counter := counter\<rparr>, lx_slept := lx_slept st @ [2 ^ i]\<rparr>"])
      (use assms(3,6,7) in \<open>subst retry_loop.simps, simp_all add: e Let_def delivered_def\<close>)
qed

text \<open>Against the mock server the retries of the log deliver a request once: at the first try, or after one
second when the server has its one outage, unless the longest wait is a second or less; a request that the
server refuses is tried once and lost. An export without the log loses the request of the outage too.\<close>

theorem log_survives_one_outage:
  assumes "\<not> isEmptyReq req" "\<not> ec_service_series cfg"
  shows "ms_series (delivered (retry_loop cfg (mock_monitoring ctx) mx req 0 st)) = ms_series (delivered st) @
      (if refused req \<or> outage req (delivered st) \<and> mx \<le> second then [] else [req]) \<and>
    lx_slept (retry_loop cfg (mock_monitoring ctx) mx req 0 st) = lx_slept st @
      (if outage req (delivered st) \<and> second < mx then [1] else []) \<and>
    ms_series (ex_client (snd (export_request cfg (mock_monitoring ctx) req (lx_exporter st)))) = ms_series (delivered st) @
      (if refused req \<or> outage req (delivered st) then [] else [req])"
proof (intro conjI)
  let ?m = "delivered st"
  have ok: "status_ok = \<lparr>gs_code = OK, gs_summaries = []\<rparr>" by (simp add: status_ok_def)
  have exclusive: "\<not> (refused req \<and> outage req ?m)" by (simp add: outage_def)
  consider (lost) "refused req" "\<not> outage req ?m"
    | (out) s where "outage req ?m" "\<not> refused req" "mock_CreateTimeSeries ctx req ?m = (s, ?m\<lparr>ms_retry_count := 1\<rparr>)"
      "gs_code s \<in> {Unavailable, DeadlineExceeded}"
    | (accepted) "\<not> refused req" "\<not> outage req ?m"
    using exclusive mock_answers(2) by metis
  then have "delivered (retry_loop cfg (mock_monitoring ctx) mx req 0 st) =
        (if refused req then ?m else if outage req ?m
         then (if mx \<le> second then ?m\<lparr>ms_retry_count := 1\<rparr> else appendCreateTimeSeriesReq ctx req (?m\<lparr>ms_retry_count := 1\<rparr>))
         else appendCreateTimeSeriesReq ctx req ?m) \<and>
      lx_slept (retry_loop cfg (mock_monitoring ctx) mx req 0 st) = lx_slept st @
        (if outage req ?m \<and> second < mx then [1] else [])"
  proof cases
    case lost
    then show ?thesis
      using retry_stops [OF assms, of 0 ctx st _ _ mx, OF _ mock_answers(1) [OF lost(1)]] by (simp add: isNotRecoverable_def)
  next
    case out
    show ?thesis
    proof (cases "mx \<le> second")
      case True
      then show ?thesis using retry_stops [OF assms, of 0 ctx st, OF _ out(3), of mx] out(1,2) by simp
    next
      case False
      have again: "gs_code s \<noteq> OK" "\<not> isNotRecoverable s" using out(4) by (auto simp: isNotRecoverable_def)
      have wait: "2 ^ 0 * second < mx" using False by simp
      obtain st1 where st1: "retry_loop cfg (mock_monitoring ctx) mx req 0 st = retry_loop cfg (mock_monitoring ctx) mx req (Suc 0) st1"
        "delivered st1 = ?m\<lparr>ms_retry_count := 1\<rparr>" "lx_slept st1 = lx_slept st @ [2 ^ 0]"
        by (rule retry_continues [OF assms _ out(3) again wait]) simp
      have "\<not> outage req (delivered st1)" by (simp add: outage_def st1(2))
      from retry_stops [OF assms, of "Suc 0" ctx st1, OF _ mock_answers(3) [OF out(2) this], of mx] st1 False out(1,2)
      show ?thesis by (simp add: ok)
    qed
  next
    case accepted
    then show ?thesis using retry_stops [OF assms, of 0 ctx st, OF _ mock_answers(3) [OF accepted], of mx] by (simp add: ok)
  qed
  then show "ms_series (delivered (retry_loop cfg (mock_monitoring ctx) mx req 0 st)) = ms_series ?m @
      (if refused req \<or> outage req ?m \<and> mx \<le> second then [] else [req])"
    and "lx_slept (retry_loop cfg (mock_monitoring ctx) mx req 0 st) = lx_slept st @
      (if outage req ?m \<and> second < mx then [1] else [])"
    using exclusive by (simp_all add: appendCreateTimeSeriesReq_def)
  obtain s m where a: "mock_CreateTimeSeries ctx req ?m = (s, m)" by fastforce
  have "ms_series m = ms_series ?m @ (if refused req \<or> outage req ?m then [] else [req])"
    using a mock_answers [where ctx = ctx and req = req and m = ?m] by (cases "refused req"; cases "outage req ?m")
      (auto simp: appendCreateTimeSeriesReq_def)
  then show "ms_series (ex_client (snd (export_request cfg (mock_monitoring ctx) req (lx_exporter st)))) = ms_series ?m @
      (if refused req \<or> outage req ?m then [] else [req])"
    using mock_export [OF assms a [unfolded delivered_def]] by auto
qed

definition outage_request :: ts_request where
  "outage_request = \<lparr>rq_name = ''projects/unavailable'', rq_series = []\<rparr>"

definition fresh_run :: "(metrics_server, unit) log_exporter" where
  "fresh_run = \<lparr>lx_exporter = fresh_exporter NewMetricTestServer DisabledNormalizer, lx_log = (), lx_open = False, lx_slept = []\<rparr>"

lemma log_survives_one_outage_witness:
  "ms_series (delivered (retry_loop example_exporter_config (mock_monitoring None) defaultWalMaxBackoff outage_request 0 fresh_run)) =
     [outage_request] \<and>
   lx_slept (retry_loop example_exporter_config (mock_monitoring None) defaultWalMaxBackoff outage_request 0 fresh_run) = [1] \<and>
   ms_series (ex_client (snd (export_request example_exporter_config (mock_monitoring None) outage_request (lx_exporter fresh_run)))) = []"
proof -
  have "\<not> isEmptyReq outage_request" "\<not> ec_service_series example_exporter_config"
    by (simp_all add: isEmptyReq_def outage_request_def example_exporter_config_def)
  moreover have "\<not> refused outage_request" "outage outage_request (delivered fresh_run)" by code_simp+
  moreover have "ms_series (delivered fresh_run) = []" "lx_slept fresh_run = []" by code_simp+
  moreover have "second < defaultWalMaxBackoff" by (simp add: second_def defaultWalMaxBackoff_def)
  ultimately show ?thesis using log_survives_one_outage [of outage_request example_exporter_config None defaultWalMaxBackoff fresh_run] by simp
qed

end
