(* ===== verification/EndToEnd.thy ===== *)
theory EndToEnd
  imports CollectorConfig
begin

text \<open>
  The end-to-end test server (e2e-test-server): the scenarios, the spans that each makes, and the handling of
  a message, which answers on a topic. Arguments are the publisher with its state, the outcome of resource
  detection, of flushing and of shutting the tracer provider down, and the id of the trace that the tracer
  makes. A span is its name, kind, test id and the name of its parent.
\<close>

subsection \<open>Scenarios\<close>

record e2e_request =
  er_scenario :: string
  er_test_id :: string

record e2e_response =
  es_data :: string
  es_code :: grpc_code
  es_trace_id :: string

record e2e_span =
  ep_name :: string
  ep_kind :: span_kind
  ep_test_id :: string
  ep_parent :: "string option"

definition zero_trace_id :: string where
  "zero_trace_id = replicate 32 (CHR ''0'')"

datatype scenario_handler = HealthHandler | BasicTraceHandler | ComplexTraceHandler | DetectResourceHandler | UnimplementedHandler

definition scenarioHandlers :: "string \<Rightarrow> scenario_handler option" where
  "scenarioHandlers = map_of [(''/basicPropagator'', UnimplementedHandler), (''/basicTrace'', BasicTraceHandler),
     (''/complexTrace'', ComplexTraceHandler), (''/detectResource'', DetectResourceHandler), (''/health'', HealthHandler)]"

definition missing_test_id :: e2e_response where
  "missing_test_id = \<lparr>es_data = ''request is missing required field '' @ [CHR 0x27] @ ''testID'' @ [CHR 0x27],
     es_code = InvalidArgument, es_trace_id = zero_trace_id\<rparr>"

definition one_span :: "string \<Rightarrow> e2e_request \<Rightarrow> string \<Rightarrow> e2e_response \<times> e2e_span list" where
  "one_span name req trace =
     (if er_test_id req = [] then (missing_test_id, [])
      else (\<lparr>es_data = [], es_code = OK, es_trace_id = trace\<rparr>,
        [\<lparr>ep_name = name, ep_kind = KInternal, ep_test_id = er_test_id req, ep_parent = None\<rparr>]))"

text \<open>The spans are listed in the order in which they end.\<close>

definition complex_handle :: "e2e_request \<Rightarrow> string \<Rightarrow> e2e_response \<times> e2e_span list" where
  "complex_handle req trace =
     (if er_test_id req = [] then (missing_test_id, [])
      else (\<lparr>es_data = [], es_code = OK, es_trace_id = trace\<rparr>,
        [\<lparr>ep_name = ''complexTrace/child1'', ep_kind = KServer, ep_test_id = er_test_id req, ep_parent = Some ''complexTrace/root''\<rparr>,
         \<lparr>ep_name = ''complexTrace/child2'', ep_kind = KClient, ep_test_id = er_test_id req, ep_parent = Some ''complexTrace/child1''\<rparr>,
         \<lparr>ep_name = ''complexTrace/child3'', ep_kind = KInternal, ep_test_id = er_test_id req, ep_parent = Some ''complexTrace/root''\<rparr>,
         \<lparr>ep_name = ''complexTrace/root'', ep_kind = KInternal, ep_test_id = er_test_id req, ep_parent = None\<rparr>]))"

fun scenario_handle :: "scenario_handler \<Rightarrow> e2e_request \<Rightarrow> string \<Rightarrow> e2e_response \<times> e2e_span list" where
  "scenario_handle HealthHandler req trace = (\<lparr>es_data = [], es_code = OK, es_trace_id = zero_trace_id\<rparr>, [])"
| "scenario_handle BasicTraceHandler req trace = one_span ''basicTrace'' req trace"
| "scenario_handle ComplexTraceHandler req trace = complex_handle req trace"
| "scenario_handle DetectResourceHandler req trace = one_span ''resourceDetectionTrace'' req trace"
| "scenario_handle UnimplementedHandler req trace = (\<lparr>es_data = [], es_code = Unimplemented, es_trace_id = zero_trace_id\<rparr>, [])"

subsection \<open>Messages\<close>

record message =
  pm_data :: string
  pm_attributes :: labels

datatype detection = Detected | PartialResource | SchemaURLConflict | DetectionFailed string

record 'p e2e_env =
  ee_publish :: "message \<Rightarrow> 'p \<Rightarrow> string option \<times> 'p"
  ee_project :: string
  ee_credentials :: "string + string"
  ee_client :: "string option"
  ee_detection :: detection
  ee_flush :: "string option"
  ee_shutdown :: "string option"
  ee_trace :: string

definition newTracerProvider :: "'p e2e_env \<Rightarrow> string + trace_config" where
  "newTracerProvider env = trace_New (ee_credentials env) (ee_client env) [trace_WithProjectID (ee_project env)]"

fun tracerProvider :: "'p e2e_env \<Rightarrow> scenario_handler \<Rightarrow> string + trace_config" where
  "tracerProvider env DetectResourceHandler = (case ee_detection env of
     DetectionFailed e \<Rightarrow> Inl e
   | _ \<Rightarrow> newTracerProvider env)"
| "tracerProvider env _ = newTracerProvider env"

definition shutdownTraceProvider :: "'p e2e_env \<Rightarrow> string option" where
  "shutdownTraceProvider env = (case ee_flush env of
     Some e \<Rightarrow> Some (''traceProvider.ForceFlush(): '' @ e)
   | None \<Rightarrow> map_option (\<lambda>e. ''traceProvider.Shutdown(): '' @ e) (ee_shutdown env))"

fun code_number :: "grpc_code \<Rightarrow> nat" where
  "code_number OK = 0"
| "code_number InvalidArgument = 3"
| "code_number Unimplemented = 12"
| "code_number Internal = 13"
| "code_number _ = 2"

definition answer :: "string \<Rightarrow> e2e_response \<Rightarrow> message" where
  "answer testID res = \<lparr>pm_data = es_data res, pm_attributes = [''test_id'' \<mapsto> testID,
     ''status_code'' \<mapsto> show_nat (code_number (es_code res)), ''trace_id'' \<mapsto> es_trace_id res]\<rparr>"

definition respond :: "'p e2e_env \<Rightarrow> string \<Rightarrow> e2e_response \<Rightarrow> 'p \<Rightarrow> string option \<times> 'p" where
  "respond env testID res p = ee_publish env (answer testID res) p"

datatype handle_error = NoScenario | NotPublished string "string option" | NoTracerProvider string | NotShutDown string

text \<open>A missing attribute is read as the empty string.\<close>

definition attribute_or_empty :: "labels \<Rightarrow> string \<Rightarrow> string" where
  "attribute_or_empty attributes k = (case attributes k of Some v \<Rightarrow> v | None \<Rightarrow> [])"

definition no_scenario :: e2e_response where
  "no_scenario = \<lparr>es_data = ''required \"scenario\" is missing'', es_code = InvalidArgument, es_trace_id = zero_trace_id\<rparr>"

definition internal_error :: "string \<Rightarrow> e2e_response" where
  "internal_error e = \<lparr>es_data = ''could not shutdown tracer-provider: '' @ e, es_code = Internal, es_trace_id = zero_trace_id\<rparr>"

definition HandleMessage :: "'p e2e_env \<Rightarrow> labels \<Rightarrow> 'p \<Rightarrow> handle_error option \<times> e2e_span list \<times> 'p" where
  "HandleMessage env attributes p =
     (let testID = attribute_or_empty attributes ''test_id''; scenario = attribute_or_empty attributes ''scenario'' in
      if scenario = []
      then (case respond env testID no_scenario p of
          (Some e, p) \<Rightarrow> (Some (NotPublished e (Some ''no scenario'')), [], p)
        | (None, p) \<Rightarrow> (Some NoScenario, [], p))
      else
        let handler = (case scenarioHandlers scenario of Some h \<Rightarrow> h | None \<Rightarrow> UnimplementedHandler) in
        case tracerProvider env handler of
          Inl e \<Rightarrow> (Some (NoTracerProvider e), [], p)
        | Inr cfg \<Rightarrow>
            let (res, spans) = scenario_handle handler \<lparr>er_scenario = scenario, er_test_id = testID\<rparr> (ee_trace env) in
            (case shutdownTraceProvider env of
              Some e \<Rightarrow>
                let err = ''could not shutdown tracer-provider: '' @ e in
                (case respond env testID (internal_error err) p of
                  (Some e2, p) \<Rightarrow> (Some (NotPublished e2 (Some err)), spans, p)
                | (None, p) \<Rightarrow> (Some (NotShutDown err), spans, p))
            | None \<Rightarrow> (case respond env testID res p of
                (Some e, p) \<Rightarrow> (Some (NotPublished e None), spans, p)
              | (None, p) \<Rightarrow> (None, spans, p))))"

datatype subscription_server = PullServer | PushServer

definition e2e_New :: "string \<Rightarrow> (string, subscription_server) res" where
  "e2e_New mode = (if mode = ''pull'' then Inr PullServer else if mode = ''push'' then Inr PushServer
     else Inl (''server does not support subscription mode '' @ mode))"

text \<open>The pull server acknowledges every message; the push server answers a request, whose body \<open>decode\<close>
reads, with a status and a text.\<close>

definition onReceive :: "'p e2e_env \<Rightarrow> labels \<Rightarrow> 'p \<Rightarrow> bool \<times> 'p" where
  "onReceive env attributes p = (True, snd (snd (HandleMessage env attributes p)))"

definition push_handle :: "'p e2e_env \<Rightarrow> (string \<Rightarrow> labels option) \<Rightarrow> string \<Rightarrow> (string, string) res \<Rightarrow> 'p \<Rightarrow> nat \<times> string \<times> 'p" where
  "push_handle env decode http_method body p =
     (if http_method = ''POST''
      then (case body of
          Inl e \<Rightarrow> (400, ''Bad Request'', p)
        | Inr b \<Rightarrow> (case decode b of
            None \<Rightarrow> (400, ''Bad Request'', p)
          | Some attributes \<Rightarrow> (200, ''OK'', snd (snd (HandleMessage env attributes p)))))
      else (200, ''OK'', p))"

text \<open>The cloud function: \<open>client\<close> is the error of creating a publisher.\<close>

definition handleCloudFunction :: "'p e2e_env \<Rightarrow> (string \<Rightarrow> labels option) \<Rightarrow> string option \<Rightarrow> string \<Rightarrow> 'p \<Rightarrow>
    (string, handle_error option) res \<times> 'p" where
  "handleCloudFunction env decode client body p = (case decode body of
     None \<Rightarrow> (Inl ''json.Unmarshal'', p)
   | Some attributes \<Rightarrow> (case client of
       Some e \<Rightarrow> (Inl (''error creating pubsub client: '' @ e), p)
     | None \<Rightarrow> (let (e, spans, p) = HandleMessage env attributes p in (Inr e, p))))"

subsection \<open>Answers\<close>

text \<open>The publisher that keeps what it was given beside its own state.\<close>

definition keeping :: "'p e2e_env \<Rightarrow> ('p \<times> message list) e2e_env" where
  "keeping env = \<lparr>ee_publish = (\<lambda>m (p, past). let (e, p) = ee_publish env m p in (e, (p, past @ [m]))),
     ee_project = ee_project env, ee_credentials = ee_credentials env, ee_client = ee_client env,
     ee_detection = ee_detection env, ee_flush = ee_flush env, ee_shutdown = ee_shutdown env, ee_trace = ee_trace env\<rparr>"

lemma keeping_provider [simp]: "newTracerProvider (keeping env) = newTracerProvider env"
  by (simp add: keeping_def newTracerProvider_def)

lemma keeping_fields [simp]:
  "ee_detection (keeping env) = ee_detection env" "ee_flush (keeping env) = ee_flush env"
  "ee_shutdown (keeping env) = ee_shutdown env" "ee_trace (keeping env) = ee_trace env"
  by (simp_all add: keeping_def)

lemma keeping_shutdown [simp]: "shutdownTraceProvider (keeping env) = shutdownTraceProvider env"
  unfolding shutdownTraceProvider_def keeping_fields ..

lemma keeping_tracerProvider [simp]: "tracerProvider (keeping env) h = tracerProvider env h"
  by (cases h) (simp_all split: detection.split)

lemma respond_kept: "snd (snd (respond (keeping env) t res (p, past))) = past @ [answer t res]"
  by (simp add: respond_def keeping_def split: prod.split)

definition handler_of :: "labels \<Rightarrow> scenario_handler" where
  "handler_of attributes = (case scenarioHandlers (attribute_or_empty attributes ''scenario'') of
     Some h \<Rightarrow> h | None \<Rightarrow> UnimplementedHandler)"

text \<open>A message is answered exactly once, with its test id: with the outcome of its scenario, with an error when it
names none or when the spans cannot be flushed. Only when no tracer provider can be made there is no
answer, although the message is acknowledged.\<close>

theorem messages_are_answered_once:
  "snd (snd (snd (HandleMessage (keeping env) attributes (p, past)))) = past @
     (let t = attribute_or_empty attributes ''test_id'';
          req = \<lparr>er_scenario = attribute_or_empty attributes ''scenario'', er_test_id = t\<rparr>
      in if er_scenario req = [] then [answer t no_scenario]
         else if isl (tracerProvider env (handler_of attributes)) then []
         else (case shutdownTraceProvider env of
             Some e \<Rightarrow> [answer t (internal_error (''could not shutdown tracer-provider: '' @ e))]
           | None \<Rightarrow> [answer t (fst (scenario_handle (handler_of attributes) req (ee_trace env)))]))"
proof -
  have r: "\<exists>e q. respond (keeping env) t res (p, past) = (e, (q, past @ [answer t res]))" for t res
    using respond_kept [of env t res p past] by (metis prod.collapse)
  show ?thesis
  proof (cases "attribute_or_empty attributes ''scenario'' = []")
    case True
    obtain e q where "respond (keeping env) (attribute_or_empty attributes ''test_id'') no_scenario (p, past) =
        (e, (q, past @ [answer (attribute_or_empty attributes ''test_id'') no_scenario]))" using r by blast
    with True show ?thesis by (cases e) (simp_all add: HandleMessage_def Let_def)
  next
    case False
    note scenario = this
    let ?t = "attribute_or_empty attributes ''test_id''"
    let ?res = "scenario_handle (handler_of attributes) \<lparr>er_scenario = attribute_or_empty attributes ''scenario'', er_test_id = ?t\<rparr> (ee_trace env)"
    show ?thesis
    proof (cases "tracerProvider env (handler_of attributes)")
      case (Inl e)
      then show ?thesis using scenario by (simp add: HandleMessage_def Let_def handler_of_def)
    next
      case (Inr cfg)
      show ?thesis
      proof (cases "shutdownTraceProvider env")
        case None
        obtain e q where "respond (keeping env) ?t (fst ?res) (p, past) = (e, (q, past @ [answer ?t (fst ?res)]))" using r by blast
        then show ?thesis using scenario Inr None
          by (cases e) (simp_all add: HandleMessage_def Let_def handler_of_def [symmetric] case_prod_beta)
      next
        case (Some err)
        let ?err = "internal_error (''could not shutdown tracer-provider: '' @ err)"
        obtain e q where "respond (keeping env) ?t ?err (p, past) = (e, (q, past @ [answer ?t ?err]))" using r by blast
        then show ?thesis using scenario Inr Some
          by (cases e) (simp_all add: HandleMessage_def Let_def handler_of_def [symmetric] case_prod_beta)
      qed
    qed
  qed
qed

end
