(* ===== verification/Conversion.thy ===== *)
theory Conversion
  imports SdkExporter LogEntries
begin

text \<open>
  From the collector's metrics to those of the Go SDK
  (exporter/collector/integrationtest/testcases/conversion.go): the tests give both metric exporters
  the same data through it. \<open>attribute.NewSet\<close>, \<open>resource.NewSchemaless\<close>, \<open>AsString\<close> and what \<open>int64\<close>
  makes of a float out of its range are arguments. The SDK's temporality is left out, since the exporter
  never reads it.
\<close>

subsection \<open>Conversion\<close>

record conversion_env =
  cv_as_string :: as_string
  cv_new_set :: "key_value list \<Rightarrow> key_value list"
  cv_resource :: "key_value list \<Rightarrow> key_value list"
  cv_overflow :: int

definition convertAttributes :: "conversion_env \<Rightarrow> pmap \<Rightarrow> key_value list" where
  "convertAttributes env attrs = List.map (\<lambda>(k, v). (k, case v of
       VStr s \<Rightarrow> AString s
     | VBool b \<Rightarrow> ABool b
     | VInt i \<Rightarrow> AInt i
     | VDouble d \<Rightarrow> AFloat d
     | _ \<Rightarrow> AString (cv_as_string env v))) attrs"

definition convertDataPoint :: "conversion_env \<Rightarrow> (number_point \<Rightarrow> 'n) \<Rightarrow> number_point \<Rightarrow> 'n sdk_point" where
  "convertDataPoint env get pt = \<lparr>sd_attrs = cv_new_set env (convertAttributes env (np_attrs pt)),
     sd_start = as_time (np_start pt), sd_time = as_time (np_time pt), sd_value = get pt\<rparr>"

definition convertFloatDataPoints :: "conversion_env \<Rightarrow> number_point list \<Rightarrow> f64 sdk_point list" where
  "convertFloatDataPoints env pts = List.map (convertDataPoint env np_double) pts"

definition convertIntDataPoints :: "conversion_env \<Rightarrow> number_point list \<Rightarrow> i64 sdk_point list" where
  "convertIntDataPoints env pts = List.map (convertDataPoint env np_int) pts"

text \<open>The type of the first point decides.\<close>

definition convertGauge :: "conversion_env \<Rightarrow> number_point list \<Rightarrow> sdk_data" where
  "convertGauge env pts = (case pts of
     [] \<Rightarrow> NilData
   | pt # rest \<Rightarrow> (case np_value pt of
       NDouble d \<Rightarrow> FloatGauge (convertFloatDataPoints env pts)
     | NInt i \<Rightarrow> IntGauge (convertIntDataPoints env pts)
     | NEmpty \<Rightarrow> NilData))"

definition convertSum :: "conversion_env \<Rightarrow> bool \<Rightarrow> number_point list \<Rightarrow> sdk_data" where
  "convertSum env monotonic pts = (case pts of
     [] \<Rightarrow> NilData
   | pt # rest \<Rightarrow> (case np_value pt of
       NDouble d \<Rightarrow> FloatSum monotonic (convertFloatDataPoints env pts)
     | NInt i \<Rightarrow> IntSum monotonic (convertIntDataPoints env pts)
     | NEmpty \<Rightarrow> NilData))"

text \<open>\<open>IntValue\<close> and \<open>DoubleValue\<close> of an exemplar are zero on a value of the other type.\<close>

definition convertExemplar :: "conversion_env \<Rightarrow> (number_value \<Rightarrow> 'n) \<Rightarrow> exemplar \<Rightarrow> 'n sdk_exemplar" where
  "convertExemplar env get e = \<lparr>se_filtered = convertAttributes env (ex_filtered e), se_time = as_time (ex_time e),
     se_value = get (ex_value e), se_span_id = ex_span_id e, se_trace_id = ex_trace_id e\<rparr>"

definition convertIntExemplars :: "conversion_env \<Rightarrow> exemplar list \<Rightarrow> i64 sdk_exemplar list" where
  "convertIntExemplars env es = List.map (convertExemplar env (\<lambda>v. case v of NInt i \<Rightarrow> i | _ \<Rightarrow> 0)) es"

definition convertFloatExemplars :: "conversion_env \<Rightarrow> exemplar list \<Rightarrow> f64 sdk_exemplar list" where
  "convertFloatExemplars env es = List.map (convertExemplar env (\<lambda>v. case v of NDouble d \<Rightarrow> d | _ \<Rightarrow> f_zero)) es"

text \<open>\<open>int64\<close> of a float truncates.\<close>

definition int64_of_float :: "conversion_env \<Rightarrow> f64 \<Rightarrow> i64" where
  "int64_of_float env d =
     (let v = (if f_lt d f_zero then int_ceil (cv_overflow env) d else int_floor (cv_overflow env) d)
      in word_of_int (if - (2 ^ 63) \<le> v \<and> v < 2 ^ 63 then v else cv_overflow env))"

definition convertFloatHistogram :: "conversion_env \<Rightarrow> histogram_point list \<Rightarrow> sdk_data" where
  "convertFloatHistogram env pts =
     (if pts = [] then NilData
      else FloatHistogram (List.map (\<lambda>pt. \<lparr>sh_attrs = cv_new_set env (convertAttributes env (hp_attrs pt)),
        sh_start = as_time (hp_start pt), sh_time = as_time (hp_time pt), sh_count = hp_count pt, sh_sum = hp_sum_value pt,
        sh_bounds = hp_bounds pt, sh_buckets = hp_buckets pt, sh_exemplars = convertFloatExemplars env (hp_exemplars pt)\<rparr>) pts))"

definition convertIntHistogram :: "conversion_env \<Rightarrow> histogram_point list \<Rightarrow> sdk_data" where
  "convertIntHistogram env pts =
     (if pts = [] then NilData
      else IntHistogram (List.map (\<lambda>pt. \<lparr>sh_attrs = cv_new_set env (convertAttributes env (hp_attrs pt)),
        sh_start = as_time (hp_start pt), sh_time = as_time (hp_time pt), sh_count = hp_count pt,
        sh_sum = int64_of_float env (hp_sum_value pt),
        sh_bounds = hp_bounds pt, sh_buckets = hp_buckets pt, sh_exemplars = convertIntExemplars env (hp_exemplars pt)\<rparr>) pts))"

text \<open>The first exemplar with a value decides; without one the histogram is of floats.\<close>

definition convertHistogram :: "conversion_env \<Rightarrow> histogram_point list \<Rightarrow> sdk_data" where
  "convertHistogram env pts =
     (case filter (\<lambda>v. v \<noteq> NEmpty) (List.map ex_value (concat (List.map hp_exemplars pts))) of
        NInt i # rest \<Rightarrow> convertIntHistogram env pts
      | _ \<Rightarrow> convertFloatHistogram env pts)"

definition skipped_metric :: sdk_metric where
  "skipped_metric = \<lparr>sm_name = [], sm_description = [], sm_unit = [], sm_data = NilData\<rparr>"

definition convertMetric :: "conversion_env \<Rightarrow> metric \<Rightarrow> sdk_metric" where
  "convertMetric env m =
     (let with_data = (\<lambda>d. \<lparr>sm_name = m_name m, sm_description = m_description m, sm_unit = m_unit m, sm_data = d\<rparr>) in
      case m_data m of
        MGauge pts \<Rightarrow> with_data (convertGauge env pts)
      | MSum monotonic temp pts \<Rightarrow> with_data (convertSum env monotonic pts)
      | MHistogram temp pts \<Rightarrow> with_data (convertHistogram env pts)
      | MSummary pts \<Rightarrow> skipped_metric
      | MExpHistogram temp pts \<Rightarrow> skipped_metric
      | MEmpty \<Rightarrow> with_data NilData)"

definition convertMetrics :: "conversion_env \<Rightarrow> metric list \<Rightarrow> sdk_metric list" where
  "convertMetrics env ms = List.map (convertMetric env) ms"

definition convertScopeMetrics :: "conversion_env \<Rightarrow> scope_metrics list \<Rightarrow> sdk_scope_metrics list" where
  "convertScopeMetrics env sms = List.map (\<lambda>sm. \<lparr>sk_library = scope_name (sm_scope sm),
     sk_metrics = convertMetrics env (scope_metrics.sm_metrics sm)\<rparr>) sms"

definition ConvertResourceMetrics :: "conversion_env \<Rightarrow> resource_metrics list \<Rightarrow> sdk_resource_metrics list" where
  "ConvertResourceMetrics env rms = List.map (\<lambda>rm. \<lparr>sr_resource = cv_resource env (convertAttributes env (rm_resource rm)),
     sr_scopes = convertScopeMetrics env (rm_scopes rm)\<rparr>) rms"

subsection \<open>Both exporters on the same numbers\<close>

text \<open>What a series says beside its metric type and labels: resource, kind, type of value, unit, description and points.\<close>

definition series_content :: "time_series \<Rightarrow> monitored_resource \<times> metric_kind \<times> value_type \<times> string \<times> string \<times> ts_point list" where
  "series_content ts = (ts_resource ts, ts_kind ts, ts_value_type ts, ts_unit ts, ts_description ts, ts_points ts)"

lemma series_content_simps [simp]:
  "series_content (single_series res m kind vt start fin v t ls) =
     (res, kind, vt, m_unit m, m_description m, [\<lparr>tp_start = start, tp_end = fin, tp_value = v\<rparr>])"
  "series_content (one_point sm mr kind vt start fin v) =
     (mr, kind, vt, sm_unit sm, sm_description sm, [\<lparr>tp_start = start, tp_end = fin, tp_value = v\<rparr>])"
  "series_content (with_metric k ts) = series_content ts"
  by (simp_all add: series_content_def single_series_def one_point_def with_metric_def)






















end
