(* ===== verification/Release.thy ===== *)
theory Release
  imports GoStrings
begin

text \<open>
  The release tool (tools/release.go): which version a module of the repository has, the requirements and
  version files that \<open>prepare\<close> writes and the tags that \<open>tag\<close> makes. The file system, \<open>go mod edit\<close> and
  \<open>git tag\<close> are arguments that thread a state; what is asked of them can be recorded.
\<close>

subsection \<open>The world of the tool\<close>

text \<open>\<open>NoFile\<close> is \<open>os.ErrNotExist\<close>; other errors carry their text.\<close>

datatype tool_error = NoFile | ToolFailed string

text \<open>\<open>tl_walk\<close> gives path and name of the visited files; a failing visit ends the walk.\<close>

record 'w tools =
  tl_walk :: "'w \<Rightarrow> (tool_error, (string \<times> string) list) res"
  tl_read :: "string \<Rightarrow> 'w \<Rightarrow> (tool_error, string) res"
  tl_write :: "string \<Rightarrow> string \<Rightarrow> 'w \<Rightarrow> tool_error option \<times> 'w"
  tl_requires :: "string \<Rightarrow> 'w \<Rightarrow> (tool_error, string list) res"
  tl_edit :: "string \<Rightarrow> string \<Rightarrow> string \<Rightarrow> 'w \<Rightarrow> tool_error option \<times> 'w"
  tl_tag :: "string \<Rightarrow> 'w \<Rightarrow> tool_error option \<times> 'w"

text \<open>A loop that returns at the first error.\<close>

fun each :: "('a \<Rightarrow> 'w \<Rightarrow> tool_error option \<times> 'w) \<Rightarrow> 'a list \<Rightarrow> 'w \<Rightarrow> tool_error option \<times> 'w" where
  "each f [] w = (None, w)"
| "each f (x # xs) w = (case f x w of (None, w) \<Rightarrow> each f xs w | (Some e, w) \<Rightarrow> (Some e, w))"

subsection \<open>Modules and versions\<close>

definition module_prefix :: string where
  "module_prefix = ''github.com/GoogleCloudPlatform/opentelemetry-operations-go''"

definition stable :: string where "stable = ''1.38.0''"

definition unstable :: string where "unstable = ''0.62.0''"

definition stableModules :: "string list" where
  "stableModules = [''exporter/trace/'', ''detectors/gcp/'']"

definition versionForPath :: "string \<Rightarrow> string" where
  "versionForPath modDir = (if modDir \<in> set stableModules then stable else unstable)"

text \<open>\<open>filepath.Dir\<close> on a path with slashes.\<close>

definition path_dir :: "string \<Rightarrow> string" where
  "path_dir p = path_clean (rev (dropWhile (\<lambda>c. c \<noteq> slash) (rev p)))"

definition module_dir :: "string \<Rightarrow> string" where
  "module_dir m = (let modDir = path_dir m in if modDir = dot then [] else modDir @ [slash])"

definition module_version :: "string \<Rightarrow> string" where
  "module_version m = versionForPath (module_dir m)"

definition allModules :: "'w tools \<Rightarrow> 'w \<Rightarrow> (tool_error, string list) res" where
  "allModules tk w = res_bind (tl_walk tk w)
     (\<lambda>files. Inr (List.map fst (filter (\<lambda>(path, name). name = ''go.mod'' \<and> path \<noteq> ''tools/'') files)))"

subsection \<open>The version file\<close>

text \<open>\<open>ReplaceAllLiteral\<close> for the pattern \<open>return ".*"\<close>: a match stays on its line and is as long as possible,
so a line has at most one.\<close>

definition return_quote :: string where
  "return_quote = ''return '' @ [CHR 0x22]"

fun after_last :: "char \<Rightarrow> string \<Rightarrow> string" where
  "after_last c s = rev (takeWhile (\<lambda>d. d \<noteq> c) (rev s))"

fun version_line :: "string \<Rightarrow> string \<Rightarrow> string" where
  "version_line v [] = []"
| "version_line v (c # s) =
     (if has_prefix (c # s) return_quote \<and> CHR 0x22 \<in> set (drop 8 (c # s))
      then return_quote @ v @ CHR 0x22 # after_last (CHR 0x22) (drop 8 (c # s))
      else c # version_line v s)"

fun join_lines :: "string list \<Rightarrow> string" where
  "join_lines [] = []"
| "join_lines [l] = l"
| "join_lines (l # ls) = l @ CHR 0x0A # join_lines ls"

definition replace_version :: "string \<Rightarrow> string \<Rightarrow> string" where
  "replace_version v content = join_lines (List.map (version_line v) (split_char (CHR 0x0A) content))"

definition updateVersion :: "'w tools \<Rightarrow> string \<Rightarrow> 'w \<Rightarrow> tool_error option \<times> 'w" where
  "updateVersion tk m w =
     (let fullPath = path_join (path_dir m) ''version.go'' in
      case tl_read tk fullPath w of
        Inl e \<Rightarrow> (Some e, w)
      | Inr content \<Rightarrow> tl_write tk fullPath (replace_version (module_version m) content) w)"

subsection \<open>The two commands\<close>

definition dep_suffix :: "string \<Rightarrow> string" where
  "dep_suffix dep = (let suffix = trim_prefix dep module_prefix in if suffix \<noteq> [] then tl suffix @ [slash] else suffix)"

definition edit_requirement :: "'w tools \<Rightarrow> string \<Rightarrow> string \<Rightarrow> 'w \<Rightarrow> tool_error option \<times> 'w" where
  "edit_requirement tk m dep w =
     (if has_prefix dep module_prefix then tl_edit tk m dep (versionForPath (dep_suffix dep)) w else (None, w))"

definition prepare_module :: "'w tools \<Rightarrow> string \<Rightarrow> 'w \<Rightarrow> tool_error option \<times> 'w" where
  "prepare_module tk m w = (case updateVersion tk m w of (e, w) \<Rightarrow>
     if e \<noteq> None \<and> e \<noteq> Some NoFile then (e, w)
     else (case tl_requires tk m w of
        Inl e \<Rightarrow> (Some e, w)
      | Inr deps \<Rightarrow> each (edit_requirement tk m) deps w))"

definition prepare :: "'w tools \<Rightarrow> 'w \<Rightarrow> tool_error option \<times> 'w" where
  "prepare tk w = (case allModules tk w of Inl e \<Rightarrow> (Some e, w) | Inr mods \<Rightarrow> each (prepare_module tk) mods w)"

definition module_tag :: "string \<Rightarrow> string" where
  "module_tag m = module_dir m @ ''v'' @ module_version m"

definition tag_modules :: "'w tools \<Rightarrow> 'w \<Rightarrow> tool_error option \<times> 'w" where
  "tag_modules tk w = (case allModules tk w of Inl e \<Rightarrow> (Some e, w) | Inr mods \<Rightarrow> each (\<lambda>m. tl_tag tk (module_tag m)) mods w)"

datatype exit = UsageShown | Fatal tool_error | Prepared | TagsMade | Ignored

definition release_main :: "'w tools \<Rightarrow> string list \<Rightarrow> 'w \<Rightarrow> exit \<times> 'w" where
  "release_main tk args w =
     (if length args \<noteq> 2 then (UsageShown, w)
      else if args ! 1 = ''prepare'' then
        (case prepare tk w of (Some e, w) \<Rightarrow> (Fatal e, w) | (None, w) \<Rightarrow> (Prepared, w))
      else if args ! 1 = ''tag'' then
        (case tag_modules tk w of (Some e, w) \<Rightarrow> (Fatal e, w) | (None, w) \<Rightarrow> (TagsMade, w))
      else (Ignored, w))"

subsection \<open>What was asked of the world\<close>

datatype command = Wrote string string | Required string string string | Tagged string

definition recorded :: "'w tools \<Rightarrow> ('w \<times> command list) tools" where
  "recorded tk = \<lparr>
     tl_walk = (\<lambda>(w, cs). tl_walk tk w),
     tl_read = (\<lambda>p (w, cs). tl_read tk p w),
     tl_write = (\<lambda>p s (w, cs). case tl_write tk p s w of (e, w) \<Rightarrow> (e, w, cs @ [Wrote p s])),
     tl_requires = (\<lambda>m (w, cs). tl_requires tk m w),
     tl_edit = (\<lambda>m d v (w, cs). case tl_edit tk m d v w of (e, w) \<Rightarrow> (e, w, cs @ [Required m d v])),
     tl_tag = (\<lambda>t (w, cs). case tl_tag tk t w of (e, w) \<Rightarrow> (e, w, cs @ [Tagged t]))\<rparr>"

lemma recorded_simps [simp]:
  "tl_walk (recorded tk) s = tl_walk tk (fst s)"
  "tl_read (recorded tk) p s = tl_read tk p (fst s)"
  "tl_requires (recorded tk) m s = tl_requires tk m (fst s)"
  "snd (snd (tl_write (recorded tk) p c s)) = snd s @ [Wrote p c]"
  "snd (snd (tl_edit (recorded tk) m d v s)) = snd s @ [Required m d v]"
  "snd (snd (tl_tag (recorded tk) t s)) = snd s @ [Tagged t]"
  by (simp_all add: recorded_def split: prod.splits)

lemma each_keeps:
  assumes "I w" "\<And>x w. x \<in> set xs \<Longrightarrow> I w \<Longrightarrow> I (snd (f x w))"
  shows "I (snd (each f xs w))"
  using assms by (induction xs arbitrary: w) (force split: prod.splits option.splits)+

lemma each_reaches:
  assumes "each f xs w = (None, w')" "x \<in> set xs" "\<And>w. P (snd (f x w))" "\<And>y w. P w \<Longrightarrow> P (snd (f y w))"
  shows "P w'"
proof -
  have keeps: "P w \<Longrightarrow> P (snd (each f ys w))" for ys w
    by (rule each_keeps [where I = P]) (simp_all add: assms(4))
  from assms(1,2) show ?thesis
  proof (induction xs arbitrary: w)
    case (Cons y ys)
    then obtain w1 where w1: "f y w = (None, w1)" "each f ys w1 = (None, w')"
      by (auto split: prod.splits option.splits)
    show ?case
    proof (cases "x = y")
      case True
      then have "P w1" using assms(3) [of w] w1(1) by simp
      then show ?thesis using keeps [of w1 ys] w1(2) by simp
    qed (use Cons w1 in auto)
  qed simp
qed

lemma each_changes:
  "(\<And>x w w'. x \<in> set xs \<Longrightarrow> f x w = (None, w') \<Longrightarrow> g w' = g w @ h x) \<Longrightarrow> each f xs w = (None, w') \<Longrightarrow>
    g w' = g w @ concat (List.map h xs)"
  by (induction xs arbitrary: w) (force split: prod.splits option.splits)+

subsection \<open>Requirements and tags agree\<close>

lemma path_dir_plain:
  assumes "plain_path d" "slash \<notin> set f"
  shows "path_dir (d @ slash # f) = d"
proof -
  have ws: "\<forall>w \<in> set (split_char slash d). w \<noteq> [] \<and> w \<noteq> dot \<and> w \<noteq> dotdot" and ne: "d \<noteq> []"
    using assms(1) by (simp_all add: plain_path_def)
  have "clean_elements False out (ws @ [[]]) = clean_elements False out ws" for out ws
    by (induction False out ws rule: clean_elements.induct) (simp_all split: list.splits)
  then have "clean_elements False [] (split_char slash (d @ [slash])) = split_char slash d"
    using clean_plain [OF ws, of False "[]"] split_append [of d "[]"] by simp
  moreover have "hd d \<noteq> slash"
  proof
    assume "hd d = slash"
    with ne have "[] \<in> set (split_char slash d)" by (cases d) simp_all
    with ws show False by blast
  qed
  moreover have "rev (dropWhile (\<lambda>c. c \<noteq> slash) (rev (d @ slash # f))) = d @ [slash]"
    using assms(2) by (subst rev_append) (auto simp: dropWhile_append3)
  ultimately show ?thesis
    using ne split_char_ne [of slash d] by (simp add: path_dir_def path_clean_def Let_def join_split hd_append2)
qed

lemma plain_path_dot: "plain_path d \<Longrightarrow> d \<noteq> dot"
  by (auto simp: plain_path_def dot_def slash_def)

definition go_mod :: string where
  "go_mod = ''go.mod''"

lemma go_mod_no_slash: "slash \<notin> set go_mod"
  by (simp add: go_mod_def slash_def)

text \<open>The module in a directory below the root, and how it is imported.\<close>

lemma module_dir_plain: "plain_path d \<Longrightarrow> module_dir (d @ slash # go_mod) = d @ [slash]"
  using plain_path_dot by (simp add: module_dir_def Let_def path_dir_plain go_mod_no_slash)

lemma module_dir_root: "module_dir go_mod = []"
  by (simp add: module_dir_def go_mod_def path_dir_def slash_def path_clean_def Let_def)

lemma dep_suffix_simps: "dep_suffix (module_prefix @ slash # d) = d @ [slash]" "dep_suffix module_prefix = []"
  using trim_prefix_append [of module_prefix "[]"] by (simp_all add: dep_suffix_def Let_def)

definition right_version :: "command \<Rightarrow> bool" where
  "right_version c = (case c of Required m dep v \<Rightarrow> v = versionForPath (dep_suffix dep) | _ \<Rightarrow> True)"

lemma edit_right: "list_all right_version (snd s) \<Longrightarrow> list_all right_version (snd (snd (edit_requirement (recorded tk) m d s)))"
  by (simp add: edit_requirement_def right_version_def)

lemma update_right: "list_all right_version (snd s) \<Longrightarrow> list_all right_version (snd (snd (updateVersion (recorded tk) m s)))"
  by (simp add: updateVersion_def right_version_def Let_def split: sum.splits)

lemma prepare_module_right:
  assumes "list_all right_version (snd s)"
  shows "list_all right_version (snd (snd (prepare_module (recorded tk) m s)))"
proof -
  obtain e s1 where s1: "updateVersion (recorded tk) m s = (e, s1)" by (cases "updateVersion (recorded tk) m s")
  then have "list_all right_version (snd s1)" using update_right [OF assms, of tk m] by simp
  then show ?thesis
    using each_keeps [of "\<lambda>s. list_all right_version (snd s)" s1 _ "edit_requirement (recorded tk) m"]
    by (simp add: prepare_module_def s1 edit_right split: sum.splits)
qed

lemma prepare_right: "list_all right_version (snd (snd (prepare (recorded tk) (w, []))))"
  using each_keeps [of "\<lambda>s. list_all right_version (snd s)" "(w, [])" _ "prepare_module (recorded tk)"]
  by (simp add: prepare_def prepare_module_right split: sum.splits)

lemma tags_of_modules:
  assumes "tag_modules (recorded tk) (w, []) = (None, w', cs)" "allModules (recorded tk) (w, []) = Inr mods"
  shows "cs = List.map (\<lambda>m. Tagged (module_tag m)) mods"
proof -
  let ?f = "\<lambda>m. tl_tag (recorded tk) (module_tag m)"
  have "snd s' = snd s @ [Tagged (module_tag m)]" if "?f m s = (None, s')" for m s s'
    using recorded_simps(6) [of tk "module_tag m" s] that by simp
  then have "snd (w', cs) = snd (w, []) @ concat (List.map (\<lambda>m. [Tagged (module_tag m)]) mods)"
    using assms by (intro each_changes [where f = ?f]) (simp_all add: tag_modules_def)
  then show ?thesis by simp
qed

text \<open>C39. The versions that \<open>prepare\<close> asks for are the ones that \<open>tag\<close> publishes: when a module of the repository is required,
as the root or by its directory, the tag of that module at the required version is made.\<close>

theorem required_versions_are_tagged:
  assumes "prepare (recorded tk) (w, []) = (r, w1, cs)" "Required m dep v \<in> set cs"
    and "tag_modules (recorded tk) (u, []) = (None, u1, ts)" "tl_walk tk u = Inr files"
    and "(path, go_mod) \<in> set files"
    and "dep = module_prefix \<and> path = go_mod \<or> (\<exists>d. plain_path d \<and> dep = module_prefix @ slash # d \<and> path = d @ slash # go_mod)"
  shows "Tagged (module_dir path @ ''v'' @ v) \<in> set ts"
proof -
  have "right_version (Required m dep v)"
    using prepare_right [of tk w] assms(1,2) by (simp add: list_all_iff)
  then have "v = module_version path"
    using assms(6) by (auto simp: right_version_def module_version_def module_dir_plain module_dir_root dep_suffix_simps)
  moreover have "path \<in> set mods" if "allModules (recorded tk) (u, []) = Inr mods" for mods
  proof -
    have "path \<noteq> ''tools/''"
      using assms(6) by (auto simp: go_mod_def slash_def dest: arg_cong [where f = last])
    then show ?thesis using that assms(4,5) by (force simp: allModules_def go_mod_def)
  qed
  moreover obtain mods where "allModules (recorded tk) (u, []) = Inr mods" using assms(4) by (simp add: allModules_def)
  ultimately show ?thesis using tags_of_modules [OF assms(3)] by (force simp: module_tag_def)
qed

subsection \<open>A repository of two modules\<close>

definition two_modules :: "unit tools" where
  "two_modules = \<lparr>
     tl_walk = (\<lambda>w. Inr [(''go.mod'', ''go.mod''), (''main.go'', ''main.go''), (''exporter/trace/go.mod'', ''go.mod'')]),
     tl_read = (\<lambda>p w. if p = ''version.go'' then Inr (return_quote @ ''0'' @ [CHR 0x22]) else Inl NoFile),
     tl_write = (\<lambda>p s w. (None, w)),
     tl_requires = (\<lambda>m w. Inr (if m = ''go.mod'' then [module_prefix @ slash # ''exporter/trace'', ''golang.org/x/oauth2''] else [])),
     tl_edit = (\<lambda>m d v w. (None, w)),
     tl_tag = (\<lambda>t w. (None, w))\<rparr>"

lemma two_modules_prepared:
  "prepare (recorded two_modules) ((), []) = (None, (), [Wrote ''version.go'' (return_quote @ unstable @ [CHR 0x22]),
     Required ''go.mod'' (module_prefix @ slash # ''exporter/trace'') stable])"
  by code_simp

lemma two_modules_tagged:
  "tag_modules (recorded two_modules) ((), []) = (None, (), [Tagged ''v0.62.0'', Tagged ''exporter/trace/v1.38.0''])"
  by code_simp

lemma required_versions_are_tagged_witness:
  "Tagged (module_dir (''exporter/trace'' @ slash # go_mod) @ ''v'' @ stable) \<in> set [Tagged ''v0.62.0'', Tagged ''exporter/trace/v1.38.0'']"
proof -
  let ?files = "[(''go.mod'', ''go.mod''), (''main.go'', ''main.go''), (''exporter/trace/go.mod'', ''go.mod'')]"
  have files: "tl_walk two_modules () = Inr ?files" "(''exporter/trace'' @ slash # go_mod, go_mod) \<in> set ?files"
    by (simp_all add: two_modules_def go_mod_def slash_def)
  have plain: "plain_path ''exporter/trace''" by code_simp
  show ?thesis
    by (rule required_versions_are_tagged [OF two_modules_prepared _ two_modules_tagged files]) (use plain in simp_all)
qed

text \<open>The comparison with \<open>tools/\<close> excludes nothing: the module of the tools is prepared and tagged like the others.\<close>

lemma tools_module_is_not_excluded:
  assumes "tl_walk tk w = Inr files" "(''tools/go.mod'', go_mod) \<in> set files" "allModules tk w = Inr mods"
  shows "''tools/go.mod'' \<in> set mods"
  using assms by (force simp: allModules_def go_mod_def)

end
