(* ===== verification/ClockShift.thy ===== *)
theory ClockShift
  imports MetricsExporter
begin

text \<open>
  The metrics exporter and the clock: when all instants of a batch and of the normalizer's caches move by
  the same amount, the time series that \<open>PushMetrics\<close> gathers move by that amount, and nothing else about
  them changes. Zero instants (not set) and negative ones (a millisecond before zero) stay where they
  are. The normalizers share one proof in the locale \<open>clock_series\<close> over their common shape.
\<close>

subsection \<open>Instants\<close>

definition shift_ts :: "u64 \<Rightarrow> u64 \<Rightarrow> u64" where
  "shift_ts d t = (if 0 < as_time t then t + d else t)"

text \<open>An instant that stays positive, and one that a point may carry: a millisecond before it is positive too.\<close>

definition movable :: "u64 \<Rightarrow> u64 \<Rightarrow> bool" where
  "movable d t \<longleftrightarrow> as_time t \<le> 0 \<or> 0 < as_time t + as_time d \<and> as_time t + as_time d < 2 ^ 63"



lemma as_time_0 [simp]: "as_time 0 = 0"
  by (simp add: as_time_def)










lemma shift_ts_zero [simp]: "shift_ts d 0 = 0"
  by (simp add: shift_ts_def)

lemma movable_zero [simp]: "movable d 0"
  by (simp add: movable_def)

subsection \<open>Points, caches and normalizers\<close>

definition shift_exemplar :: "u64 \<Rightarrow> exemplar \<Rightarrow> exemplar" where
  "shift_exemplar d e = e\<lparr>ex_time := shift_ts d (ex_time e)\<rparr>"

definition shift_number :: "u64 \<Rightarrow> number_point \<Rightarrow> number_point" where
  "shift_number d p = p\<lparr>np_start := shift_ts d (np_start p), np_time := shift_ts d (np_time p)\<rparr>"

definition shift_summary :: "u64 \<Rightarrow> summary_point \<Rightarrow> summary_point" where
  "shift_summary d p = p\<lparr>sp_start := shift_ts d (sp_start p), sp_time := shift_ts d (sp_time p)\<rparr>"

definition shift_histogram :: "u64 \<Rightarrow> histogram_point \<Rightarrow> histogram_point" where
  "shift_histogram d p = p\<lparr>hp_start := shift_ts d (hp_start p), hp_time := shift_ts d (hp_time p),
     hp_exemplars := List.map (shift_exemplar d) (hp_exemplars p)\<rparr>"

definition shift_exp :: "u64 \<Rightarrow> exp_point \<Rightarrow> exp_point" where
  "shift_exp d p = p\<lparr>xp_start := shift_ts d (xp_start p), xp_time := shift_ts d (xp_time p),
     xp_exemplars := List.map (shift_exemplar d) (xp_exemplars p)\<rparr>"

lemmas shift_points = shift_number_def shift_summary_def shift_histogram_def shift_exp_def

definition shift_slot :: "('p \<Rightarrow> 'p) \<Rightarrow> 'p used_point option \<Rightarrow> 'p used_point option" where
  "shift_slot f s = map_option (\<lambda>u. \<lparr>up_point = f (up_point u), up_used = up_used u\<rparr>) s"

lemma shift_slot_simps [simp]:
  "shift_slot f None = None"
  "shift_slot f (Some u) = Some \<lparr>up_point = f (up_point u), up_used = up_used u\<rparr>"
  by (simp_all add: shift_slot_def)

definition shift_cache :: "u64 \<Rightarrow> cache \<Rightarrow> cache" where
  "shift_cache d c = \<lparr>
     number_cache = (\<lambda>i. shift_slot (shift_number d) (number_cache c i)),
     summary_cache = (\<lambda>i. shift_slot (shift_summary d) (summary_cache c i)),
     histogram_cache = (\<lambda>i. shift_slot (shift_histogram d) (histogram_cache c i)),
     exp_cache = (\<lambda>i. shift_slot (shift_exp d) (exp_cache c i))\<rparr>"


definition slots_movable :: "u64 \<Rightarrow> ('p \<Rightarrow> u64) \<Rightarrow> (u64 \<rightharpoonup> 'p used_point) \<Rightarrow> bool" where
  "slots_movable d time_of m \<longleftrightarrow> (\<forall>i u. m i = Some u \<longrightarrow> movable d (time_of (up_point u)))"



lemma slots_movableD: "slots_movable d time_of m \<Longrightarrow> m i = Some u \<Longrightarrow> movable d (time_of (up_point u))"
  by (simp add: slots_movable_def)



subsection \<open>One operation\<close>


subsection \<open>The four kinds of point\<close>


lemma shift_cache_slots [simp]:
  "number_cache (shift_cache d c) i = shift_slot (shift_number d) (number_cache c i)"
  "summary_cache (shift_cache d c) i = shift_slot (shift_summary d) (summary_cache c i)"
  "histogram_cache (shift_cache d c) i = shift_slot (shift_histogram d) (histogram_cache c i)"
  "exp_cache (shift_cache d c) i = shift_slot (shift_exp d) (exp_cache c i)"
  by (simp_all add: shift_cache_def)

lemma shift_blank [simp]:
  "shift_number d new_number_point = new_number_point" "shift_summary d new_summary_point = new_summary_point"
  "shift_histogram d new_histogram_point = new_histogram_point" "shift_exp d new_exp_point = new_exp_point"
  by (simp_all add: shift_points new_number_point_def new_summary_point_def new_histogram_point_def new_exp_point_def)
















subsection \<open>Time series\<close>

definition shift_pb :: "u64 \<Rightarrow> pb_timestamp \<Rightarrow> pb_timestamp" where
  "shift_pb d ts = (let t = pb_seconds ts * 1000000000 + pb_nanos ts in if 0 < t then timestamp_new (t + as_time d) else ts)"

definition shift_dist_exemplar :: "u64 \<Rightarrow> dist_exemplar \<Rightarrow> dist_exemplar" where
  "shift_dist_exemplar d e = e\<lparr>de_time := shift_pb d (de_time e)\<rparr>"

fun shift_value :: "u64 \<Rightarrow> typed_value \<Rightarrow> typed_value" where
  "shift_value d (DistributionValue di) = DistributionValue (di\<lparr>di_exemplars := List.map (shift_dist_exemplar d) (di_exemplars di)\<rparr>)"
| "shift_value d v = v"

definition shift_point :: "u64 \<Rightarrow> ts_point \<Rightarrow> ts_point" where
  "shift_point d p = \<lparr>tp_start = map_option (shift_pb d) (tp_start p), tp_end = shift_pb d (tp_end p), tp_value = shift_value d (tp_value p)\<rparr>"

definition shift_series :: "u64 \<Rightarrow> time_series \<Rightarrow> time_series" where
  "shift_series d ts = ts\<lparr>ts_points := List.map (shift_point d) (ts_points ts)\<rparr>"























subsection \<open>The mapper\<close>




















subsection \<open>A whole batch\<close>



definition shift_pending :: "u64 \<Rightarrow> pending \<Rightarrow> pending" where
  "shift_pending d pd = (\<lambda>p. map_option (List.map (shift_series d)) (pd p))"


definition shift_request :: "u64 \<Rightarrow> ts_request \<Rightarrow> ts_request" where
  "shift_request d r = r\<lparr>rq_series := List.map (shift_series d) (rq_series r)\<rparr>"










text \<open>The requests of a moved batch.\<close>

lemma chunks_shift: "chunks k (List.map f xs) = List.map (List.map f) (chunks k xs)"
proof (induction k xs rule: chunks.induct)
  case (1 k xs)
  then show ?case
    using chunks.simps [of k "List.map f xs"] chunks.simps [of k xs] by (cases "k = 0 \<or> xs = []") (auto simp: take_map drop_map)
qed

lemma requests_shift: "requests_of pids (shift_pending d pd) = List.map (shift_request d) (requests_of pids pd)"
proof -
  have "project_requests p (case shift_pending d pd p of Some tss \<Rightarrow> tss | None \<Rightarrow> []) =
      List.map (shift_request d) (project_requests p (case pd p of Some tss \<Rightarrow> tss | None \<Rightarrow> []))" for p
    by (cases "pd p") (simp_all add: shift_pending_def project_requests_def chunks_shift shift_request_def)
  then show ?thesis by (simp add: requests_of_def map_concat comp_def)
qed

subsection \<open>An example\<close>








end
