(* ===== verification/Fixtures.thy ===== *)
theory Fixtures
  imports ClockShift CollectorConfig CloudMock
begin

text \<open>
  The test harness of the collector exporters (exporter/collector/integrationtest: testcases/testcase.go,
  testcases/exporter_settings.go, cmd/recordfixtures/main.go): how input fixtures are stamped with the time
  of the run, how recorded requests are normalized before they are compared or saved, and how a metrics
  fixture is recorded against the mock server. Files, JSON, the text form of a log entry, \<open>sort.Slice\<close>,
  the library of the log and what a meter collects are arguments. Number points carry no exemplars here: the exporter does not read them.
\<close>

subsection \<open>User agents\<close>

text \<open>A character class is a list of inclusive ranges, as Go's regular expressions have it.\<close>

definition in_class :: "(char \<times> char) list \<Rightarrow> char \<Rightarrow> bool" where
  "in_class ranges c = list_ex (\<lambda>(lo, hi). lo \<le> c \<and> c \<le> hi) ranges"

definition digits :: "(char \<times> char) list" where
  "digits = [(CHR ''0'', CHR ''9'')]"

definition letters :: "(char \<times> char) list" where
  "letters = [(CHR ''a'', CHR ''z''), (CHR ''A'', CHR ''Z'')]"

definition word_char :: "char option \<Rightarrow> bool" where
  "word_char c = (case c of None \<Rightarrow> False | Some c \<Rightarrow> in_class (digits @ letters @ [(CHR ''_'', CHR ''_'')]) c)"

definition digit_char :: "char \<Rightarrow> bool" where
  "digit_char = in_class digits"

definition suffix_char :: "char \<Rightarrow> bool" where
  "suffix_char = in_class (letters @ digits @ [(CHR ''.'', CHR ''.'')])"

definition head_of :: "string \<Rightarrow> char option" where
  "head_of s = (case s of [] \<Rightarrow> None | c # _ \<Rightarrow> Some c)"

text \<open>The word boundary \<open>\b\<close>, and the longest suffix \<open>-[a-zA-Z0-9.]+\<close> that ends at one.\<close>

definition boundary :: "char option \<Rightarrow> char option \<Rightarrow> bool" where
  "boundary a b \<longleftrightarrow> word_char a \<noteq> word_char b"

definition suffix_length :: "string \<Rightarrow> nat option" where
  "suffix_length s = (if head_of s \<noteq> Some (CHR ''-'') then None
     else let w = takeWhile suffix_char (tl s);
              ends = filter (\<lambda>k. boundary (Some (w ! (k - 1))) (head_of (drop k (tl s)))) (rev [1..<Suc (length w)])
       in (case ends of [] \<Rightarrow> None | k # _ \<Rightarrow> Some (Suc k)))"

text \<open>The length of a match of \<open>versionRegex\<close> at the start of a text, given the character before it.\<close>

definition version_at :: "char option \<Rightarrow> string \<Rightarrow> nat option" where
  "version_at prev s =
     (let a = takeWhile digit_char s; r = drop (length a) s;
          b = takeWhile digit_char (tl r); r' = drop (length b) (tl r);
          c = takeWhile digit_char (tl r'); r'' = drop (length c) (tl r');
          n = length a + length b + length c + 2 in
      if boundary prev (head_of s) \<and> a \<noteq> [] \<and> head_of r = Some (CHR ''.'') \<and> b \<noteq> [] \<and> head_of r' = Some (CHR ''.'') \<and> c \<noteq> []
      then (case suffix_length r'' of
          Some k \<Rightarrow> Some (n + k)
        | None \<Rightarrow> if boundary (Some (CHR ''0'')) (head_of r'') then Some n else None)
      else None)"

text \<open>\<open>ReplaceAllString\<close>: the second argument counts the characters of a match still to be skipped.\<close>

fun replace_versions :: "char option \<Rightarrow> nat \<Rightarrow> string \<Rightarrow> string" where
  "replace_versions prev k [] = []"
| "replace_versions prev (Suc k) (c # s) = replace_versions (Some c) k s"
| "replace_versions prev 0 (c # s) = (case version_at prev (c # s) of
     Some n \<Rightarrow> ''{{version}}'' @ replace_versions (Some c) (n - 1) s
   | None \<Rightarrow> c # replace_versions (Some c) 0 s)"

definition UserAgentRemoveRuntimeInfo :: "build_info \<Rightarrow> string \<Rightarrow> string" where
  "UserAgentRemoveRuntimeInfo info ua =
     replace_versions None 0 (replace_all ('' ('' @ bi_goos info @ ''/'' @ bi_goarch info @ '')'') [] ua)"

definition SetTestUserAgent :: "build_info \<Rightarrow> config \<Rightarrow> config" where
  "SetTestUserAgent info cfg = (let cfg = SetUserAgent info cfg in
     cfg\<lparr>cg_user_agent := UserAgentRemoveRuntimeInfo info (cg_user_agent cfg)\<rparr>)"

subsection \<open>Configurations of the tests\<close>

definition configured :: "(config \<Rightarrow> config) option \<Rightarrow> config \<Rightarrow> config" where
  "configured configure cfg = (case configure of Some f \<Rightarrow> f cfg | None \<Rightarrow> cfg)"

definition CreateTraceConfig :: "as_string \<Rightarrow> (config \<Rightarrow> config) option \<Rightarrow> config" where
  "CreateTraceConfig str configure = configured configure ((exporter_DefaultConfig str)\<lparr>cg_project := ''fake-project''\<rparr>)"

definition CreateLogConfig :: "as_string \<Rightarrow> (config \<Rightarrow> config) option \<Rightarrow> config" where
  "CreateLogConfig str configure = configured configure ((exporter_DefaultConfig str)\<lparr>cg_project := ''fake-project''\<rparr>)"

definition CreateCollectorMetricConfig :: "as_string \<Rightarrow> (config \<Rightarrow> config) option \<Rightarrow> config" where
  "CreateCollectorMetricConfig str configure =
     (let cfg = (exporter_DefaultConfig str)\<lparr>cg_project := ''fakeprojectid''\<rparr> in
      configured configure (cfg\<lparr>cg_metric := (cg_metric cfg)\<lparr>mt_buffer_size := 500, mt_library_labels := False\<rparr>\<rparr>))"

text \<open>What the constructors of test exporters (inmemoryotelexporter.go) make of a configuration.\<close>

definition test_client :: "string \<Rightarrow> client_config \<Rightarrow> client_config" where
  "test_client endpoint cc = cc\<lparr>cc_endpoint := endpoint, cc_insecure := True\<rparr>"

definition metric_test_config :: "build_info \<Rightarrow> string \<Rightarrow> config \<Rightarrow> config" where
  "metric_test_config info endpoint cfg =
     SetTestUserAgent info (set_metric_client (test_client endpoint (mt_client (cg_metric cfg))) cfg)"

definition log_test_config :: "build_info \<Rightarrow> string \<Rightarrow> config \<Rightarrow> config" where
  "log_test_config info endpoint cfg =
     SetTestUserAgent info ((set_log_client (test_client endpoint (lt_client (cg_log cfg))) cfg)\<lparr>cg_project := ''fakeprojectid''\<rparr>)"

definition trace_test_config :: "build_info \<Rightarrow> string \<Rightarrow> config \<Rightarrow> config" where
  "trace_test_config info endpoint cfg =
     SetTestUserAgent info ((set_trace_client (test_client endpoint (tc_client (cg_trace cfg))) cfg)\<lparr>cg_project := ''fakeprojectid''\<rparr>)"

subsection \<open>Stamping the input\<close>

text \<open>Only instants that are set are replaced; those of exemplars always are.\<close>

definition stamp :: "u64 \<Rightarrow> u64 \<Rightarrow> u64" where
  "stamp new t = (if t \<noteq> 0 then new else t)"




definition LoadOTLPLogsInput :: "u64 \<Rightarrow> resource_logs list \<Rightarrow> resource_logs list" where
  "LoadOTLPLogsInput timestamp rls = List.map (\<lambda>rl. rl\<lparr>rg_scopes := List.map (\<lambda>sl. sl\<lparr>sg_records :=
     List.map (\<lambda>r. r\<lparr>lr_time := stamp timestamp (lr_time r)\<rparr>) (sg_records sl)\<rparr>) (rg_scopes rl)\<rparr>) rls"

definition LoadOTLPTracesInput :: "u64 \<Rightarrow> u64 \<Rightarrow> resource_spans list \<Rightarrow> resource_spans list" where
  "LoadOTLPTracesInput startTimestamp endTimestamp rss = List.map (\<lambda>rs. rs\<lparr>pr_scopes := List.map (\<lambda>ss. ss\<lparr>pc_spans :=
     List.map (\<lambda>sn. sn\<lparr>pn_start := stamp startTimestamp (pn_start sn), pn_end := stamp endTimestamp (pn_end sn)\<rparr>) (pc_spans ss)\<rparr>) (pr_scopes rs)\<rparr>) rss"

subsection \<open>Normalizing what was recorded\<close>

text \<open>\<open>sort.Slice\<close> on each type of element it is used with; the comparison of log requests reads their first entries
and can panic.\<close>

record sorters =
  so_labels :: "(label_descriptor \<Rightarrow> label_descriptor \<Rightarrow> bool) \<Rightarrow> label_descriptor list \<Rightarrow> label_descriptor list"
  so_series :: "(time_series \<Rightarrow> time_series \<Rightarrow> bool) \<Rightarrow> time_series list \<Rightarrow> time_series list"
  so_requests :: "(ts_request \<Rightarrow> ts_request \<Rightarrow> bool) \<Rightarrow> ts_request list \<Rightarrow> ts_request list"
  so_descriptors :: "(md_request \<Rightarrow> md_request \<Rightarrow> bool) \<Rightarrow> md_request list \<Rightarrow> md_request list"
  so_entries :: "(log_entry \<Rightarrow> log_entry \<Rightarrow> bool) \<Rightarrow> log_entry list \<Rightarrow> log_entry list"
  so_writes :: "(string \<times> log_entry list \<Rightarrow> string \<times> log_entry list \<Rightarrow> (go_panic, bool) res) \<Rightarrow>
    (string \<times> log_entry list) list \<Rightarrow> (go_panic, (string \<times> log_entry list) list) res"

definition zero_timestamp :: pb_timestamp where
  "zero_timestamp = \<lparr>pb_seconds = 0, pb_nanos = 0\<rparr>"

fun stamp_distribution :: "pb_timestamp \<Rightarrow> typed_value \<Rightarrow> typed_value" where
  "stamp_distribution t (DistributionValue di) =
     DistributionValue (di\<lparr>di_exemplars := List.map (\<lambda>e. e\<lparr>de_time := t\<rparr>) (di_exemplars di)\<rparr>)"
| "stamp_distribution t v = v"

definition stamp_point :: "pb_timestamp \<Rightarrow> pb_timestamp \<Rightarrow> value_type \<Rightarrow> ts_point \<Rightarrow> ts_point" where
  "stamp_point s e vt p = \<lparr>tp_start = map_option (\<lambda>_. s) (tp_start p), tp_end = e,
     tp_value = (if vt = DISTRIBUTION then stamp_distribution e (tp_value p) else tp_value p)\<rparr>"

definition normalize_time_series :: "time_series \<Rightarrow> time_series" where
  "normalize_time_series ts = ts\<lparr>ts_points := List.map (stamp_point zero_timestamp zero_timestamp (ts_value_type ts)) (ts_points ts),
     ts_resource := (ts_resource ts)\<lparr>mr_labels := (mr_labels (ts_resource ts))(''project_id'' := None)\<rparr>\<rparr>"


definition normalizeMetricDescriptorReqs :: "sorters \<Rightarrow> md_request list \<Rightarrow> md_request list" where
  "normalizeMetricDescriptorReqs so reqs = List.map (\<lambda>r. r\<lparr>mq_descriptor := (mq_descriptor r)
     \<lparr>md_labels := so_labels so (\<lambda>a b. ld_key a < ld_key b) (md_labels (mq_descriptor r))\<rparr>\<rparr>) reqs"

record self_observability =
  ob_series :: "ts_request list"
  ob_descriptors :: "md_request list"

definition selfObsMetricsToNormalize :: "string list" where
  "selfObsMetricsToNormalize = [
     ''workload.googleapis.com/grpc.client.attempt.duration'',
     ''workload.googleapis.com/grpc.client.attempt.rcvd_total_compressed_message_size'',
     ''workload.googleapis.com/grpc.client.attempt.sent_total_compressed_message_size'',
     ''workload.googleapis.com/grpc.client.call.duration'']"

definition selfObsLabelsToNormalize :: "(string \<times> string) list" where
  "selfObsLabelsToNormalize = [(''grpc_target'', ''dns:///127.0.0.1:40441'')]"

fun zero_value :: "typed_value \<Rightarrow> typed_value" where
  "zero_value (Int64Value i) = Int64Value 0"
| "zero_value (DoubleValue x) = DoubleValue f_zero"
| "zero_value (DistributionValue di) = DistributionValue \<lparr>di_count = 0, di_mean = f_zero, di_deviation = f_zero,
     di_buckets = List.map (\<lambda>_. 0) (di_buckets di), di_options = di_options di, di_exemplars = []\<rparr>"
| "zero_value (BoolValue b) = BoolValue b"

definition zero_self_obs :: "time_series \<Rightarrow> (go_panic, time_series) res" where
  "zero_self_obs ts =
     (if ts_metric_type ts \<in> set selfObsMetricsToNormalize
      then (case ts_points ts of
          [] \<Rightarrow> Inl IndexOutOfRange
        | p # ps \<Rightarrow> Inr (ts\<lparr>ts_points := p\<lparr>tp_value := zero_value (tp_value p)\<rparr> # ps\<rparr>))
      else Inr ts)"

definition override_labels :: "time_series \<Rightarrow> time_series" where
  "override_labels ts = ts\<lparr>ts_labels := fold (\<lambda>(k, v) ls. if k \<in> dom ls then ls(k \<mapsto> v) else ls) selfObsLabelsToNormalize (ts_labels ts)\<rparr>"

text \<open>\<open>fmt.Sprint\<close> of a map: its entries in the order of their keys.\<close>

definition sprint_labels :: "labels \<Rightarrow> string" where
  "sprint_labels ls = ''map['' @ join_strings '' '' (List.map (\<lambda>k. k @ '':'' @ get_label ls k) (sorted_order ls)) @ '']''"

definition self_obs_less :: "time_series \<Rightarrow> time_series \<Rightarrow> bool" where
  "self_obs_less a b = (if ts_metric_type a = ts_metric_type b then sprint_labels (ts_labels a) < sprint_labels (ts_labels b)
     else ts_metric_type a < ts_metric_type b)"

fun map_res :: "('a \<Rightarrow> (go_panic, 'b) res) \<Rightarrow> 'a list \<Rightarrow> (go_panic, 'b list) res" where
  "map_res f [] = Inr []"
| "map_res f (x # xs) = res_bind (f x) (\<lambda>y. res_bind (map_res f xs) (\<lambda>ys. Inr (y # ys)))"

definition normalize_self_request :: "sorters \<Rightarrow> ts_request \<Rightarrow> (go_panic, ts_request) res" where
  "normalize_self_request so r = res_bind (map_res zero_self_obs (List.map normalize_time_series (rq_series r))) (\<lambda>tss.
     Inr (r\<lparr>rq_series := so_series so self_obs_less (List.map override_labels tss)\<rparr>))"

definition normalizeSelfObs :: "sorters \<Rightarrow> self_observability option \<Rightarrow> (go_panic, self_observability option) res" where
  "normalizeSelfObs so ob = (case ob of
     None \<Rightarrow> Inr None
   | Some ob \<Rightarrow> res_bind (map_res (normalize_self_request so) (ob_series ob)) (\<lambda>reqs.
       Inr (Some \<lparr>ob_series = reqs,
         ob_descriptors = so_descriptors so (\<lambda>a b. md_type (mq_descriptor a) < md_type (mq_descriptor b))
           (normalizeMetricDescriptorReqs so (ob_descriptors ob))\<rparr>)))"

record metric_fixture =
  mf_agent :: string
  mf_series :: "ts_request list"
  mf_service_series :: "ts_request list"
  mf_descriptors :: "md_request list"
  mf_self_obs :: "self_observability option"



text \<open>Stamping an expected fixture that was read from its file.\<close>

definition updateMetricExpectFixture :: "pb_timestamp \<Rightarrow> pb_timestamp \<Rightarrow> metric_fixture \<Rightarrow> metric_fixture" where
  "updateMetricExpectFixture startTime endTime f =
     (let update = List.map (\<lambda>r. r\<lparr>rq_series := List.map (\<lambda>ts. ts\<lparr>ts_points :=
            List.map (stamp_point startTime endTime (ts_value_type ts)) (ts_points ts)\<rparr>) (rq_series r)\<rparr>)
      in f\<lparr>mf_series := update (mf_series f), mf_service_series := update (mf_service_series f)\<rparr>)"

subsection \<open>Log and trace fixtures\<close>

record log_fixture =
  lf_agent :: string
  lf_writes :: "(string \<times> log_entry list) list"
  lf_self_obs :: "self_observability option"

text \<open>The comparison of entries, given the text of an entry.\<close>

definition log_entry_less :: "(log_entry \<Rightarrow> string) \<Rightarrow> log_entry \<Rightarrow> log_entry \<Rightarrow> bool" where
  "log_entry_less str a b = (if le_log_name a < le_log_name b then le_log_name a < le_log_name b else str a < str b)"

definition log_write_less :: "string \<times> log_entry list \<Rightarrow> string \<times> log_entry list \<Rightarrow> (go_panic, bool) res" where
  "log_write_less a b =
     (if fst a \<noteq> fst b then Inr (fst a < fst b)
      else (case (snd a, snd b) of
          (x # _, y # _) \<Rightarrow> Inr (le_log_name x < le_log_name y)
        | _ \<Rightarrow> Inl IndexOutOfRange))"

definition NormalizeLogFixture :: "sorters \<Rightarrow> build_info \<Rightarrow> (log_entry \<Rightarrow> string) \<Rightarrow> log_fixture \<Rightarrow> (go_panic, log_fixture) res" where
  "NormalizeLogFixture so info str f = res_bind (normalizeSelfObs so (lf_self_obs f)) (\<lambda>ob.
     res_bind (so_writes so log_write_less (List.map (\<lambda>(name, es). (name,
         List.map (\<lambda>e. e\<lparr>le_timestamp := zero_timestamp\<rparr>) (so_entries so (log_entry_less str) es))) (lf_writes f))) (\<lambda>ws.
       Inr \<lparr>lf_agent = UserAgentRemoveRuntimeInfo info (lf_agent f), lf_writes = ws, lf_self_obs = ob\<rparr>))"

definition LoadLogExpectFixture :: "pb_timestamp \<Rightarrow> log_fixture \<Rightarrow> log_fixture" where
  "LoadLogExpectFixture timestamp f = f\<lparr>lf_writes := List.map (\<lambda>(name, es).
     (name, List.map (\<lambda>e. e\<lparr>le_timestamp := timestamp\<rparr>) es)) (lf_writes f)\<rparr>"

record trace_fixture =
  tf_agent :: string
  tf_requests :: "write_request list"
  tf_self_obs :: "self_observability option"

definition normalize_agent :: "build_info \<Rightarrow> span_attributes \<Rightarrow> span_attributes" where
  "normalize_agent info attrs = (case sa_map attrs ''g.co/agent'' of
     Some (TString s) \<Rightarrow> attrs\<lparr>sa_map := (sa_map attrs)(''g.co/agent'' \<mapsto>
       TString (s\<lparr>tr_value := UserAgentRemoveRuntimeInfo info (tr_value s)\<rparr>))\<rparr>
   | _ \<Rightarrow> attrs)"

definition NormalizeTraceFixture :: "sorters \<Rightarrow> build_info \<Rightarrow> trace_fixture \<Rightarrow> (go_panic, trace_fixture) res" where
  "NormalizeTraceFixture so info f = res_bind (normalizeSelfObs so (tf_self_obs f)) (\<lambda>ob. Inr \<lparr>
     tf_agent = UserAgentRemoveRuntimeInfo info (tf_agent f),
     tf_requests = List.map (\<lambda>r. r\<lparr>wr_spans := List.map (\<lambda>sn. sn\<lparr>sp_start_time := zero_timestamp, sp_end_time := zero_timestamp,
       sp_attributes := normalize_agent info (sp_attributes sn)\<rparr>) (wr_spans r)\<rparr>) (tf_requests f),
     tf_self_obs = ob\<rparr>)"

definition LoadTraceExpectFixture :: "pb_timestamp \<Rightarrow> pb_timestamp \<Rightarrow> trace_fixture \<Rightarrow> trace_fixture" where
  "LoadTraceExpectFixture s e f = f\<lparr>tf_requests := List.map (\<lambda>r. r\<lparr>wr_spans := List.map (\<lambda>sn.
     sn\<lparr>sp_start_time := s, sp_end_time := e\<rparr>) (wr_spans r)\<rparr>) (tf_requests f)\<rparr>"

subsection \<open>Recording a fixture\<close>

text \<open>Two tests that write the same file are refused.\<close>

definition checkDuplicate :: "string \<Rightarrow> string \<Rightarrow> (string \<rightharpoonup> string) \<Rightarrow> (string \<times> string \<times> string, string \<rightharpoonup> string) res" where
  "checkDuplicate name path fr = (case fr path of
     Some duplicate \<Rightarrow> Inl (name, path, duplicate)
   | None \<Rightarrow> Inr (fr(path \<mapsto> name)))"




subsection \<open>What a meter collects\<close>















lemma override_frame: "override_labels ts = ts\<lparr>ts_labels := ts_labels (override_labels ts)\<rparr>"
  by (simp add: override_labels_def)



subsection \<open>The recorded fixture and the time of the recording\<close>




























subsection \<open>Examples\<close>




definition linux_build :: build_info where
  "linux_build = \<lparr>bi_description = ''Test'', bi_version = ''0.62.0'', bi_goos = ''linux'', bi_goarch = ''amd64''\<rparr>"

lemma agent_example:
  "UserAgentRemoveRuntimeInfo linux_build ''Test/0.62.0 (linux/amd64) grpc-go/1.60.1-dev.2, x1.2.3 1.2.3_'' =
    ''Test/{{version}} grpc-go/{{version}}, x1.2.3 1.2.3_''"
  by code_simp







text \<open>The comparison of log entries is not an order: an entry with the smaller name but the larger text is before the other
and after it, so the sorted order depends on the recorded one.\<close>

lemma log_entry_less_both_ways:
  "le_log_name a < le_log_name b \<Longrightarrow> str b < str a \<Longrightarrow> log_entry_less str a b \<and> log_entry_less str b a"
  by (auto simp: log_entry_less_def)

end
