(* ===== verification/HistogramRace.thy ===== *)
theory HistogramRace
  imports Normalization
begin

text \<open>
  \<open>NormalizeHistogramDataPoint\<close> of the standard normalizer between its locks (internal/normalization/
  standard_normalizer.go and internal/datapointstorage/datapointcache.go): a cache hands out the point
  that it keeps, which a later \<open>SetHistogramDataPoint\<close> overwrites in place, so points live in cells that
  caches and callers share. A step is one call of a cache, which holds its lock, or one decision on
  points that were handed out. A call whose steps nothing comes between does what the function of
  \<open>Normalization\<close> does; when the steps of two calls mix, the bounds that were compared need not be
  those of the buckets that are subtracted.
\<close>

subsection \<open>Cells\<close>

record shared_points =
  rh_cells :: "histogram_point list"
  rh_start :: "u64 \<rightharpoonup> nat used_point"
  rh_previous :: "u64 \<rightharpoonup> nat used_point"

definition lookup_cell :: "(u64 \<rightharpoonup> nat used_point) \<Rightarrow> u64 \<Rightarrow> nat option \<times> (u64 \<rightharpoonup> nat used_point)" where
  "lookup_cell m i = (case m i of
     None \<Rightarrow> (None, m)
   | Some u \<Rightarrow> (Some (up_point u), m(i \<mapsto> u\<lparr>up_used := True\<rparr>)))"

definition write_cell :: "histogram_point list \<Rightarrow> (u64 \<rightharpoonup> nat used_point) \<Rightarrow> u64 \<Rightarrow> histogram_point \<Rightarrow>
    histogram_point list \<times> (u64 \<rightharpoonup> nat used_point)" where
  "write_cell cells m i p = (case m i of
     Some u \<Rightarrow> (cells[up_point u := minimalHistogramCopyTo p (cells ! up_point u)], m(i \<mapsto> u\<lparr>up_used := True\<rparr>))
   | None \<Rightarrow> (cells @ [minimalHistogramCopyTo p new_histogram_point],
       m(i \<mapsto> \<lparr>up_point = length cells, up_used = True\<rparr>)))"

definition set_start :: "u64 \<Rightarrow> histogram_point \<Rightarrow> shared_points \<Rightarrow> shared_points" where
  "set_start i p sh = (case write_cell (rh_cells sh) (rh_start sh) i p of (cells, m) \<Rightarrow> sh\<lparr>rh_cells := cells, rh_start := m\<rparr>)"

definition set_previous :: "u64 \<Rightarrow> histogram_point \<Rightarrow> shared_points \<Rightarrow> shared_points" where
  "set_previous i p sh = (case write_cell (rh_cells sh) (rh_previous sh) i p of (cells, m) \<Rightarrow> sh\<lparr>rh_cells := cells, rh_previous := m\<rparr>)"

subsection \<open>The steps of a call\<close>

text \<open>Where a call is; \<open>nat\<close>s are the cells of the start and the previous point that it was handed.\<close>

datatype stage =
  GetStart histogram_point
| FirstStart histogram_point
| FirstPrevious histogram_point
| Compare histogram_point nat
| GetPrevious histogram_point nat
| Judge histogram_point nat nat
| ResetPrevious histogram_point
| ResetStart histogram_point
| CheckTime histogram_point nat
| Subtract histogram_point nat
| SetPrevious histogram_point
| Finished bool histogram_point
| Panicked go_panic

fun stage_step :: "u64 \<Rightarrow> stage \<times> shared_points \<Rightarrow> stage \<times> shared_points" where
  "stage_step i (GetStart p, sh) = (case lookup_cell (rh_start sh) i of (cached, m) \<Rightarrow>
     (case cached of
        None \<Rightarrow> if hp_start p = 0 \<or> \<not> ts_before (hp_start p) (hp_time p) then FirstStart p else Finished True p
      | Some a \<Rightarrow> Compare p a, sh\<lparr>rh_start := m\<rparr>))"
| "stage_step i (FirstStart p, sh) = (FirstPrevious p, set_start i p sh)"
| "stage_step i (FirstPrevious p, sh) = (Finished False p, set_previous i p sh)"
| "stage_step i (Compare p a, sh) =
     (if bucketBoundariesEqual (hp_bounds p) (hp_bounds (rh_cells sh ! a)) then GetPrevious p a else FirstStart p, sh)"
| "stage_step i (GetPrevious p a, sh) = (case lookup_cell (rh_previous sh) i of (found, m) \<Rightarrow>
     (Judge p a (case found of None \<Rightarrow> a | Some b \<Rightarrow> b), sh\<lparr>rh_previous := m\<rparr>))"
| "stage_step i (Judge p a b, sh) =
     (if \<not> ts_before (hp_start p) (hp_time p) \<or> (hp_start p = 0 \<and> lessThanHistogramDataPoint p (rh_cells sh ! b))
      then ResetPrevious (p\<lparr>hp_start := hp_time p - millisecond\<rparr>) else CheckTime p a, sh)"
| "stage_step i (ResetPrevious p, sh) = (ResetStart p, set_previous i p sh)"
| "stage_step i (ResetStart p, sh) = (Finished True p,
     set_start i (new_histogram_point\<lparr>hp_time := hp_start p, hp_bounds := hp_bounds p,
       hp_buckets := replicate (length (hp_buckets p)) 0\<rparr>) sh)"
| "stage_step i (CheckTime p a, sh) =
     (if ts_before (hp_time (rh_cells sh ! a)) (hp_time p) then Subtract p a else Finished False p, sh)"
| "stage_step i (Subtract p a, sh) = (case subtractHistogramDataPoint p (rh_cells sh ! a) of
     Inl e \<Rightarrow> Panicked e | Inr q \<Rightarrow> SetPrevious q, sh)"
| "stage_step i (SetPrevious p, sh) = (Finished True p, set_previous i p sh)"
| "stage_step i (Finished keep p, sh) = (Finished keep p, sh)"
| "stage_step i (Panicked e, sh) = (Panicked e, sh)"

text \<open>Calls for one identifier, advanced in the order of a schedule.\<close>

definition advance :: "u64 \<Rightarrow> nat \<Rightarrow> stage list \<times> shared_points \<Rightarrow> stage list \<times> shared_points" where
  "advance i k st = (case st of (calls, sh) \<Rightarrow>
     (case stage_step i (calls ! k, sh) of (c, sh) \<Rightarrow> (calls[k := c], sh)))"

definition run_schedule :: "u64 \<Rightarrow> nat list \<Rightarrow> stage list \<times> shared_points \<Rightarrow> stage list \<times> shared_points" where
  "run_schedule i ks st = foldl (\<lambda>st k. advance i k st) st ks"

subsection \<open>A call that is left alone\<close>

text \<open>What a cache of cells holds, and that no two entries share a cell.\<close>

definition deref :: "histogram_point list \<Rightarrow> nat used_point \<Rightarrow> histogram_point used_point" where
  "deref cells u = \<lparr>up_point = cells ! up_point u, up_used = up_used u\<rparr>"

definition reflects :: "shared_points \<Rightarrow> normalizer \<Rightarrow> bool" where
  "reflects sh n \<longleftrightarrow>
     (\<forall>i. histogram_cache (nz_start n) i = map_option (deref (rh_cells sh)) (rh_start sh i)) \<and>
     (\<forall>i. histogram_cache (nz_previous n) i = map_option (deref (rh_cells sh)) (rh_previous sh i))"

definition cells_of :: "(u64 \<rightharpoonup> nat used_point) \<Rightarrow> nat set" where
  "cells_of m = up_point ` ran m"

definition unshared :: "(u64 \<rightharpoonup> nat used_point) \<Rightarrow> bool" where
  "unshared m \<longleftrightarrow> (\<forall>i j u v. m i = Some u \<longrightarrow> m j = Some v \<longrightarrow> up_point u = up_point v \<longrightarrow> i = j)"

definition separate :: "shared_points \<Rightarrow> bool" where
  "separate sh \<longleftrightarrow> unshared (rh_start sh) \<and> unshared (rh_previous sh) \<and>
     cells_of (rh_start sh) \<inter> cells_of (rh_previous sh) = {} \<and>
     (\<forall>a \<in> cells_of (rh_start sh) \<union> cells_of (rh_previous sh). a < length (rh_cells sh))"

lemma in_cells: "a \<in> cells_of m \<longleftrightarrow> (\<exists>i u. m i = Some u \<and> up_point u = a)"
  by (auto simp: cells_of_def ran_def)

lemma cells_ofI: "m i = Some u \<Longrightarrow> up_point u \<in> cells_of m"
  by (auto simp: in_cells)

lemma lookup_cell_snd: "snd (lookup_cell m i) = m(i := map_option (\<lambda>u. u\<lparr>up_used := True\<rparr>) (m i))"
  by (auto simp: lookup_cell_def split: option.split)

lemma lookup_cell_fst: "fst (lookup_cell m i) = map_option up_point (m i)"
  by (simp add: lookup_cell_def split: option.split)

lemma cells_of_upd: "m i = Some u \<Longrightarrow> up_point v = up_point u \<Longrightarrow> cells_of (m(i \<mapsto> v)) = cells_of m"
  unfolding set_eq_iff in_cells by (metis fun_upd_other fun_upd_same option.inject)

lemma unshared_upd: "unshared m \<Longrightarrow> m i = Some u \<Longrightarrow> up_point v = up_point u \<Longrightarrow> unshared (m(i \<mapsto> v))"
  unfolding unshared_def by (metis fun_upd_other fun_upd_same option.inject)

lemma used_again [simp]: "deref cells (u\<lparr>up_used := b\<rparr>) = (deref cells u)\<lparr>up_used := b\<rparr>"
  by (simp add: deref_def)

text \<open>The lemmas on the two caches are the same but for the cache, so they are stated of a pair of maps.\<close>

definition apart :: "histogram_point list \<Rightarrow> (u64 \<rightharpoonup> nat used_point) \<Rightarrow> (u64 \<rightharpoonup> nat used_point) \<Rightarrow> bool" where
  "apart cells m m' \<longleftrightarrow> unshared m \<and> unshared m' \<and> cells_of m \<inter> cells_of m' = {} \<and>
     (\<forall>a \<in> cells_of m \<union> cells_of m'. a < length cells)"

lemma separate_apart: "separate sh \<longleftrightarrow> apart (rh_cells sh) (rh_start sh) (rh_previous sh)"
  "separate sh \<longleftrightarrow> apart (rh_cells sh) (rh_previous sh) (rh_start sh)"
  by (auto simp: separate_def apart_def)

definition shown :: "histogram_point list \<Rightarrow> (u64 \<rightharpoonup> nat used_point) \<Rightarrow> cache \<Rightarrow> bool" where
  "shown cells m c \<longleftrightarrow> (\<forall>i. histogram_cache c i = map_option (deref cells) (m i))"

lemma reflects_shown: "reflects sh n \<longleftrightarrow> shown (rh_cells sh) (rh_start sh) (nz_start n) \<and> shown (rh_cells sh) (rh_previous sh) (nz_previous n)"
  by (simp add: reflects_def shown_def)

lemma lookup_apart:
  assumes "apart cells m m'"
  shows "apart cells (snd (lookup_cell m i)) m'"
proof (cases "m i")
  case None
  then show ?thesis using assms by (simp add: lookup_cell_snd fun_upd_idem)
next
  case (Some u)
  then show ?thesis
    using assms cells_of_upd [of m i u "u\<lparr>up_used := True\<rparr>"] unshared_upd [of m i u "u\<lparr>up_used := True\<rparr>"]
    by (simp add: lookup_cell_snd apart_def)
qed

lemma lookup_shown:
  assumes "shown cells m c"
  shows "shown cells (snd (lookup_cell m i)) (snd (getHistogramDataPoint c i))"
    "fst (getHistogramDataPoint c i) = map_option (\<lambda>a. cells ! a) (fst (lookup_cell m i))"
  using assms by (auto simp: shown_def lookup_cell_def getHistogramDataPoint_def deref_def split: option.split)

lemma write_apart:
  assumes "apart cells m m'" "write_cell cells m i p = (cells', m1)"
  shows "apart cells' m1 m'"
proof (cases "m i")
  case (Some u)
  then show ?thesis
    using assms cells_of_upd [of m i u "u\<lparr>up_used := True\<rparr>"] unshared_upd [of m i u "u\<lparr>up_used := True\<rparr>"]
    by (auto simp: write_cell_def apart_def)
next
  case None
  have old: "\<forall>a \<in> cells_of m \<union> cells_of m'. a < length cells" using assms(1) by (simp add: apart_def)
  have m1: "m1 = m(i \<mapsto> \<lparr>up_point = length cells, up_used = True\<rparr>)" "cells' = cells @ [minimalHistogramCopyTo p new_histogram_point]"
    using assms(2) None by (auto simp: write_cell_def)
  have "cells_of m1 = insert (length cells) (cells_of m)"
    unfolding set_eq_iff insert_iff in_cells m1(1) using None by (metis fun_upd_other fun_upd_same option.distinct(1) option.inject used_point.select_convs(1))
  moreover have "unshared m1"
    using assms(1) old cells_ofI [of m] by (fastforce simp: m1(1) apart_def unshared_def split: if_splits)
  moreover have "a < Suc (length cells)" if "a \<in> cells_of m \<union> cells_of m'" for a using old that by (auto intro: less_SucI)
  ultimately show ?thesis using assms(1) old by (auto simp: apart_def m1(2))
qed

lemma write_shown:
  assumes "apart cells m m'" "shown cells m c" "write_cell cells m i p = (cells', m1)"
  shows "shown cells' m1 (setHistogramDataPoint c i p)"
  unfolding shown_def
proof
  fix j
  have c: "histogram_cache c k = map_option (deref cells) (m k)" for k using assms(2) by (simp add: shown_def)
  have bound: "up_point u < length cells" if "m k = Some u" for k u using assms(1) cells_ofI [of m k u] that by (auto simp: apart_def)
  have other: "up_point v \<noteq> up_point u" if "m i = Some u" "m j = Some v" "j \<noteq> i" for u v
    using assms(1) that unfolding apart_def unshared_def by metis
  show "histogram_cache (setHistogramDataPoint c i p) j = map_option (deref cells') (m1 j)"
  proof (cases "m i")
    case None
    then show ?thesis
      using assms(3) bound [of j]
      by (cases "m j") (auto simp: setHistogramDataPoint_def c write_cell_def deref_def nth_append)
  next
    case (Some u)
    then show ?thesis
      using assms(3) bound [OF Some] other [OF Some]
      by (cases "m j") (auto simp: setHistogramDataPoint_def c write_cell_def deref_def nth_list_update)
  qed
qed

lemma write_other:
  assumes "apart cells m m'" "shown cells m' c" "write_cell cells m i p = (cells', m1)"
  shows "shown cells' m' c"
  unfolding shown_def
proof
  fix j
  have c: "histogram_cache c j = map_option (deref cells) (m' j)" using assms(2) by (simp add: shown_def)
  have "deref cells' v = deref cells v" if "m' j = Some v" for v
  proof -
    have v: "up_point v \<in> cells_of m'" using that by (rule cells_ofI)
    then have "up_point v < length cells" "up_point v \<notin> cells_of m" using assms(1) by (auto simp: apart_def)
    moreover have "up_point u \<noteq> up_point v" if "m i = Some u" for u using cells_ofI [of m i u] that calculation(2) by auto
    ultimately show ?thesis
      using assms(3) by (auto simp: write_cell_def deref_def nth_append split: option.splits)
  qed
  then show "histogram_cache c j = map_option (deref cells') (m' j)" by (cases "m' j") (simp_all add: c)
qed

lemma set_start_reflects:
  assumes "separate sh" "reflects sh n"
  shows "separate (set_start i p sh)" "reflects (set_start i p sh) (n\<lparr>nz_start := setHistogramDataPoint (nz_start n) i p\<rparr>)"
proof -
  obtain cells m where w: "write_cell (rh_cells sh) (rh_start sh) i p = (cells, m)" by fastforce
  have a: "apart (rh_cells sh) (rh_start sh) (rh_previous sh)" using assms(1) separate_apart(1) by blast
  have s: "shown (rh_cells sh) (rh_start sh) (nz_start n)" "shown (rh_cells sh) (rh_previous sh) (nz_previous n)"
    using assms(2) by (simp_all add: reflects_shown)
  show "separate (set_start i p sh)" using write_apart [OF a w] by (simp add: set_start_def w separate_apart(1))
  show "reflects (set_start i p sh) (n\<lparr>nz_start := setHistogramDataPoint (nz_start n) i p\<rparr>)"
    using write_shown [OF a s(1) w] write_other [OF a s(2) w] by (simp add: set_start_def w reflects_shown)
qed

lemma set_previous_reflects:
  assumes "separate sh" "reflects sh n"
  shows "separate (set_previous i p sh)"
    "reflects (set_previous i p sh) (n\<lparr>nz_previous := setHistogramDataPoint (nz_previous n) i p\<rparr>)"
proof -
  obtain cells m where w: "write_cell (rh_cells sh) (rh_previous sh) i p = (cells, m)" by fastforce
  have a: "apart (rh_cells sh) (rh_previous sh) (rh_start sh)" using assms(1) separate_apart(2) by blast
  have s: "shown (rh_cells sh) (rh_start sh) (nz_start n)" "shown (rh_cells sh) (rh_previous sh) (nz_previous n)"
    using assms(2) by (simp_all add: reflects_shown)
  show "separate (set_previous i p sh)" using write_apart [OF a w] by (simp add: set_previous_def w separate_apart(2))
  show "reflects (set_previous i p sh) (n\<lparr>nz_previous := setHistogramDataPoint (nz_previous n) i p\<rparr>)"
    using write_shown [OF a s(2) w] write_other [OF a s(1) w] by (simp add: set_previous_def w reflects_shown)
qed

lemma get_start_reflects:
  assumes "separate sh" "reflects sh n" "lookup_cell (rh_start sh) i = (a, m)" "getHistogramDataPoint (nz_start n) i = (cached, c)"
  shows "separate (sh\<lparr>rh_start := m\<rparr>)" "reflects (sh\<lparr>rh_start := m\<rparr>) (n\<lparr>nz_start := c\<rparr>)"
    "cached = map_option (\<lambda>a. rh_cells sh ! a) a"
  using assms lookup_apart [of "rh_cells sh" "rh_start sh" "rh_previous sh" i] lookup_shown [of "rh_cells sh" "rh_start sh" "nz_start n" i]
  by (simp_all add: separate_apart(1) reflects_shown)

lemma get_previous_reflects:
  assumes "separate sh" "reflects sh n" "lookup_cell (rh_previous sh) i = (a, m)" "getHistogramDataPoint (nz_previous n) i = (cached, c)"
  shows "separate (sh\<lparr>rh_previous := m\<rparr>)" "reflects (sh\<lparr>rh_previous := m\<rparr>) (n\<lparr>nz_previous := c\<rparr>)"
    "cached = map_option (\<lambda>a. rh_cells sh ! a) a"
  using assms lookup_apart [of "rh_cells sh" "rh_previous sh" "rh_start sh" i] lookup_shown [of "rh_cells sh" "rh_previous sh" "nz_previous n" i]
  by (simp_all add: separate_apart(2) reflects_shown)

text \<open>The outcome of a call, as the function of \<open>Normalization\<close> gives it.\<close>

definition same_outcome :: "stage \<times> shared_points \<Rightarrow> (go_panic, bool \<times> histogram_point \<times> normalizer) res \<Rightarrow> bool" where
  "same_outcome st r = (case r of
     Inl e \<Rightarrow> fst st = Panicked e
   | Inr (keep, q, n) \<Rightarrow> fst st = Finished keep q \<and> separate (snd st) \<and> reflects (snd st) n)"

lemma finished_stays [simp]: "(stage_step i ^^ k) (Finished keep q, sh) = (Finished keep q, sh)"
  by (induction k) simp_all

lemma first_point_ends:
  assumes "separate sh" "reflects sh n"
  shows "same_outcome ((stage_step i ^^ Suc (Suc k)) (FirstStart p, sh)) (Inr (False, p,
    \<lparr>nz_start = setHistogramDataPoint (nz_start n) i p, nz_previous = setHistogramDataPoint (nz_previous n) i p\<rparr>))"
proof -
  note start = set_start_reflects [OF assms, of i p]
  note previous = set_previous_reflects [OF start, of i p]
  have "(stage_step i ^^ Suc (Suc k)) (FirstStart p, sh) = (Finished False p, set_previous i p (set_start i p sh))"
    by (simp add: funpow_Suc_right del: funpow.simps)
  with previous show ?thesis by (cases n) (simp add: same_outcome_def)
qed

lemma reset_point:
  assumes "separate sh" "reflects sh n"
    and "z = new_histogram_point\<lparr>hp_time := hp_start p, hp_bounds := hp_bounds p, hp_buckets := replicate (length (hp_buckets p)) 0\<rparr>"
  shows "same_outcome ((stage_step i ^^ Suc (Suc k)) (ResetPrevious p, sh)) (Inr (True, p,
    \<lparr>nz_start = setHistogramDataPoint (nz_start n) i z, nz_previous = setHistogramDataPoint (nz_previous n) i p\<rparr>))"
proof -
  note previous = set_previous_reflects [OF assms(1,2), of i p]
  note start = set_start_reflects [OF previous, of i z]
  have "(stage_step i ^^ Suc (Suc k)) (ResetPrevious p, sh) = (Finished True p, set_start i z (set_previous i p sh))"
    by (simp add: funpow_Suc_right assms(3) del: funpow.simps)
  with start show ?thesis by (cases n) (simp add: same_outcome_def)
qed

text \<open>What follows the comparison of the bounds.\<close>

definition judged_outcome :: "u64 \<Rightarrow> histogram_point \<Rightarrow> histogram_point \<Rightarrow> histogram_point \<Rightarrow> normalizer \<Rightarrow>
    (go_panic, bool \<times> histogram_point \<times> normalizer) res" where
  "judged_outcome i p start previous n =
     (if \<not> ts_before (hp_start p) (hp_time p) \<or> hp_start p = 0 \<and> lessThanHistogramDataPoint p previous
      then let q = p\<lparr>hp_start := hp_time p - millisecond\<rparr>;
               z = new_histogram_point\<lparr>hp_time := hp_start q, hp_bounds := hp_bounds q, hp_buckets := replicate (length (hp_buckets q)) 0\<rparr>
        in Inr (True, q, \<lparr>nz_start = setHistogramDataPoint (nz_start n) i z, nz_previous = setHistogramDataPoint (nz_previous n) i q\<rparr>)
      else if \<not> ts_before (hp_time start) (hp_time p) then Inr (False, p, n)
      else res_bind (subtractHistogramDataPoint p start) (\<lambda>q.
        Inr (True, q, n\<lparr>nz_previous := setHistogramDataPoint (nz_previous n) i q\<rparr>)))"

lemma judged_point:
  assumes "separate sh" "reflects sh n"
  shows "same_outcome ((stage_step i ^^ 4) (Judge p k l, sh)) (judged_outcome i p (rh_cells sh ! k) (rh_cells sh ! l) n)"
proof -
  have four: "(4 :: nat) = Suc (Suc (Suc (Suc 0)))" by simp
  let ?start = "rh_cells sh ! k"
  consider (reset) "\<not> ts_before (hp_start p) (hp_time p) \<or> hp_start p = 0 \<and> lessThanHistogramDataPoint p (rh_cells sh ! l)"
    | (older) "\<not> (\<not> ts_before (hp_start p) (hp_time p) \<or> hp_start p = 0 \<and> lessThanHistogramDataPoint p (rh_cells sh ! l))"
        "\<not> ts_before (hp_time ?start) (hp_time p)"
    | (newer) "\<not> (\<not> ts_before (hp_start p) (hp_time p) \<or> hp_start p = 0 \<and> lessThanHistogramDataPoint p (rh_cells sh ! l))"
        "ts_before (hp_time ?start) (hp_time p)"
    by blast
  then show ?thesis
  proof cases
    case reset
    let ?q = "p\<lparr>hp_start := hp_time p - millisecond\<rparr>"
    have "(stage_step i ^^ 4) (Judge p k l, sh) = (stage_step i ^^ Suc (Suc 1)) (ResetPrevious ?q, sh)"
      using reset unfolding four by (simp add: funpow_Suc_right del: funpow.simps)
    then show ?thesis
      using reset_point [OF assms refl, where i = i and k = 1 and p = ?q] reset by (simp add: judged_outcome_def Let_def)
  next
    case older
    then have "(stage_step i ^^ 4) (Judge p k l, sh) = (Finished False p, sh)"
      unfolding four by (simp add: funpow_Suc_right del: funpow.simps)
    then show ?thesis using older assms by (auto simp: judged_outcome_def same_outcome_def)
  next
    case newer
    then have judged: "judged_outcome i p ?start (rh_cells sh ! l) n =
        res_bind (subtractHistogramDataPoint p ?start) (\<lambda>q. Inr (True, q, n\<lparr>nz_previous := setHistogramDataPoint (nz_previous n) i q\<rparr>))"
      by (auto simp: judged_outcome_def)
    have "(stage_step i ^^ 4) (Judge p k l, sh) = (case subtractHistogramDataPoint p ?start of
        Inl e \<Rightarrow> (Panicked e, sh) | Inr q \<Rightarrow> (Finished True q, set_previous i q sh))"
      using newer unfolding four by (auto simp: funpow_Suc_right simp del: funpow.simps split: sum.split)
    then show ?thesis using set_previous_reflects [OF assms, of i] by (simp add: judged same_outcome_def split: sum.split)
  qed
qed

text \<open>Seven steps of a call between which nothing else happens are \<open>NormalizeHistogramDataPoint\<close>: they end in its
result, or its panic, with caches that hold what its caches hold.\<close>

theorem undisturbed_call_is_atomic:
  assumes "separate sh" "reflects sh n"
  shows "same_outcome ((stage_step i ^^ 7) (GetStart p, sh)) (NormalizeHistogramDataPoint n p i)"
proof -
  obtain a m where a: "lookup_cell (rh_start sh) i = (a, m)" by fastforce
  obtain cached c where c: "getHistogramDataPoint (nz_start n) i = (cached, c)" by fastforce
  define sh1 n1 where "sh1 = sh\<lparr>rh_start := m\<rparr>" and "n1 = n\<lparr>nz_start := c\<rparr>"
  have s1: "separate sh1" "reflects sh1 n1" "cached = map_option (\<lambda>a. rh_cells sh1 ! a) a"
    using get_start_reflects [OF assms a c] by (simp_all add: sh1_def n1_def)
  have n1: "nz_start n1 = c" "nz_previous n1 = nz_previous n" by (simp_all add: n1_def)
  have seven: "(7 :: nat) = Suc (Suc (Suc (Suc (Suc (Suc (Suc 0))))))" by simp
  show ?thesis
  proof (cases a)
    case None
    show ?thesis
    proof (cases "hp_start p = 0 \<or> \<not> ts_before (hp_start p) (hp_time p)")
      case True
      have "(stage_step i ^^ 7) (GetStart p, sh) = (stage_step i ^^ Suc (Suc 4)) (FirstStart p, sh1)"
        using True unfolding seven by (simp add: funpow_Suc_right a None sh1_def eval_nat_numeral del: funpow.simps)
      then show ?thesis
        using first_point_ends [OF s1(1,2), where i = i and k = 4 and p = p] True s1(3) None
        by (simp add: NormalizeHistogramDataPoint_def c n1 n1_def)
    next
      case False
      have "(stage_step i ^^ 7) (GetStart p, sh) = (stage_step i ^^ 6) (Finished True p, sh1)"
        using False unfolding seven by (simp add: funpow_Suc_right a None sh1_def eval_nat_numeral del: funpow.simps)
      then show ?thesis using s1 False None by (simp add: NormalizeHistogramDataPoint_def c n1_def same_outcome_def)
    qed
  next
    case (Some k)
    let ?start = "rh_cells sh1 ! k"
    have cached: "cached = Some ?start" by (simp add: s1(3) Some)
    show ?thesis
    proof (cases "bucketBoundariesEqual (hp_bounds p) (hp_bounds ?start)")
      case False
      have "(stage_step i ^^ 7) (GetStart p, sh) = (stage_step i ^^ Suc (Suc 3)) (FirstStart p, sh1)"
        using False unfolding seven by (simp add: funpow_Suc_right a Some sh1_def eval_nat_numeral del: funpow.simps)
      then show ?thesis
        using first_point_ends [OF s1(1,2), where i = i and k = 3 and p = p] False cached by (simp add: NormalizeHistogramDataPoint_def c n1 n1_def)
    next
      case equal: True
      obtain b m' where b: "lookup_cell (rh_previous sh1) i = (b, m')" by fastforce
      obtain found c' where c': "getHistogramDataPoint (nz_previous n1) i = (found, c')" by fastforce
      define sh2 n2 where "sh2 = sh1\<lparr>rh_previous := m'\<rparr>" and "n2 = n1\<lparr>nz_previous := c'\<rparr>"
      have s2: "separate sh2" "reflects sh2 n2" "found = map_option (\<lambda>a. rh_cells sh1 ! a) b"
        using get_previous_reflects [OF s1(1,2) b c'] by (simp_all add: sh2_def n2_def)
      have cells: "rh_cells sh2 = rh_cells sh1" by (simp add: sh2_def)
      define l where "l = (case b of None \<Rightarrow> k | Some b \<Rightarrow> b)"
      have previous: "rh_cells sh2 ! l = (case found of None \<Rightarrow> ?start | Some q \<Rightarrow> q)"
        by (cases b) (simp_all add: l_def s2(3) cells)
      have judged: "(stage_step i ^^ 7) (GetStart p, sh) = (stage_step i ^^ 4) (Judge p k l, sh2)"
        using equal b unfolding seven by (simp add: funpow_Suc_right a Some sh1_def sh2_def l_def eval_nat_numeral del: funpow.simps)
      have "NormalizeHistogramDataPoint n p i = judged_outcome i p (rh_cells sh2 ! k) (rh_cells sh2 ! l) n2"
        using equal c' by (simp add: NormalizeHistogramDataPoint_def judged_outcome_def c cached previous [unfolded cells] n1_def n2_def cells Let_def)
      then show ?thesis using judged_point [OF s2(1,2), of i p k l] by (simp only: judged)
    qed
  qed
qed

subsection \<open>Two calls\<close>

text \<open>When nothing comes between its steps, a call for a histogram with one bucket more than bounds does not panic, and the
caches keep what such calls need.\<close>

definition sound_points :: "shared_points \<Rightarrow> bool" where
  "sound_points sh \<longleftrightarrow> separate sh \<and> (\<exists>n. reflects sh n \<and> hist_shaped_cache (nz_start n))"

lemma undisturbed_call_finishes:
  assumes "sound_points sh" "hist_shaped p"
  obtains keep q sh' where "(stage_step i ^^ 7) (GetStart p, sh) = (Finished keep q, sh')" "sound_points sh'"
proof -
  obtain n where n: "separate sh" "reflects sh n" "hist_shaped_cache (nz_start n)" using assms(1) by (auto simp: sound_points_def)
  obtain keep q n' where r: "NormalizeHistogramDataPoint n p i = Inr (keep, q, n')" "hist_shaped_cache (nz_start n')"
    using histogram_step_shaped [OF n(3) assms(2), of i] by (auto split: sum.splits)
  obtain c sh' where c: "(stage_step i ^^ 7) (GetStart p, sh) = (c, sh')" by fastforce
  have "c = Finished keep q" "sound_points sh'"
    using undisturbed_call_is_atomic [OF n(1,2), of i p] r by (auto simp: c same_outcome_def sound_points_def)
  then show thesis using that c by simp
qed

lemma schedule_append [simp]: "run_schedule i (ks @ ks') st = run_schedule i ks' (run_schedule i ks st)"
  by (simp add: run_schedule_def)

lemma schedule_one_call:
  "k < length calls \<Longrightarrow> run_schedule i (replicate m k) (calls, sh) =
    (case (stage_step i ^^ m) (calls ! k, sh) of (c, sh') \<Rightarrow> (calls[k := c], sh'))"
proof (induction m arbitrary: calls sh)
  case (Suc m)
  obtain c sh1 where c: "stage_step i (calls ! k, sh) = (c, sh1)" by fastforce
  have "run_schedule i (replicate (Suc m) k) (calls, sh) = run_schedule i (replicate m k) (calls[k := c], sh1)"
    by (simp add: run_schedule_def advance_def c)
  with Suc show ?case by (simp add: funpow_Suc_right c del: funpow.simps)
qed (simp add: run_schedule_def)

text \<open>C17. Two overlapping calls for one series can panic although each alone does not: when one has compared its bounds with
the cached start point, the other, whose layout differs and has fewer buckets, overwrites that point,
and the first then subtracts buckets that are not there. One after the other, in either order, both end.\<close>

theorem overlapping_histograms_can_panic:
  assumes sound: "sound_points sh" and shaped: "hist_shaped p" "hist_shaped q"
    and start: "rh_start sh i = Some u" "s = rh_cells sh ! up_point u"
    and layouts: "bucketBoundariesEqual (hp_bounds p) (hp_bounds s)" "\<not> bucketBoundariesEqual (hp_bounds q) (hp_bounds s)"
      "length (hp_buckets q) < length (hp_buckets p)"
    and times: "hp_start p \<noteq> 0" "ts_before (hp_start p) (hp_time p)" "ts_before (hp_time s) (hp_time p)"
  shows "fst (run_schedule i [0, 0, 0, 0, 0, 1, 1, 1, 0] ([GetStart p, GetStart q], sh)) ! 0 = Panicked IndexOutOfRange \<and>
    (\<forall>ks \<in> {replicate 7 0 @ replicate 7 1, replicate 7 1 @ replicate 7 0}. \<exists>keep p' keep' q' sh'.
      run_schedule i ks ([GetStart p, GetStart q], sh) = ([Finished keep p', Finished keep' q'], sh'))"
proof
  let ?a = "up_point u"
  have a: "?a < length (rh_cells sh)" using sound start(1) cells_ofI [of "rh_start sh" i u] by (auto simp: sound_points_def separate_def)
  obtain b m where b: "lookup_cell (rh_previous sh) i = (b, m)" by fastforce
  define sh2 where "sh2 = sh\<lparr>rh_start := (rh_start sh)(i \<mapsto> u\<lparr>up_used := True\<rparr>), rh_previous := m\<rparr>"
  have sh2: "rh_cells sh2 = rh_cells sh" "rh_start sh2 i = Some (u\<lparr>up_used := True\<rparr>)" by (simp_all add: sh2_def)
  have first: "run_schedule i [0, 0, 0, 0, 0] ([GetStart p, GetStart q], sh) = ([Subtract p ?a, GetStart q], sh2)"
    using start layouts(1) times b by (simp add: run_schedule_def advance_def lookup_cell_def sh2_def)
  have overwritten: "run_schedule i [1, 1, 1] ([Subtract p ?a, GetStart q], sh2) =
      ([Subtract p ?a, FirstPrevious q], set_start i q sh2)"
    using sh2 start(2) layouts(2) by (simp add: run_schedule_def advance_def lookup_cell_def fun_upd_idem)
  have "hp_buckets (rh_cells (set_start i q sh2) ! ?a) = hp_buckets q"
    using a sh2 by (simp add: set_start_def write_cell_def minimalHistogramCopyTo_def)
  moreover have "subtract_buckets xs ys = Inl IndexOutOfRange" if "length ys < length xs" for xs ys
    using that by (induction xs ys rule: subtract_buckets.induct) (simp_all add: res_bind_def)
  ultimately have "stage_step i (Subtract p ?a, set_start i q sh2) = (Panicked IndexOutOfRange, set_start i q sh2)"
    using layouts(3) by (simp add: subtractHistogramDataPoint_def)
  then have "run_schedule i [0] ([Subtract p ?a, FirstPrevious q], set_start i q sh2) =
      ([Panicked IndexOutOfRange, FirstPrevious q], set_start i q sh2)"
    by (simp add: run_schedule_def advance_def del: stage_step.simps)
  then have "run_schedule i ([0, 0, 0, 0, 0] @ [1, 1, 1] @ [0]) ([GetStart p, GetStart q], sh) =
      ([Panicked IndexOutOfRange, FirstPrevious q], set_start i q sh2)"
    by (simp only: schedule_append first overwritten)
  then show "fst (run_schedule i [0, 0, 0, 0, 0, 1, 1, 1, 0] ([GetStart p, GetStart q], sh)) ! 0 = Panicked IndexOutOfRange"
    by simp
  obtain keep p1 sh1 where p1: "(stage_step i ^^ 7) (GetStart p, sh) = (Finished keep p1, sh1)" "sound_points sh1"
    using sound shaped(1) by (rule undisturbed_call_finishes)
  obtain keep' q1 shq where q1: "(stage_step i ^^ 7) (GetStart q, sh1) = (Finished keep' q1, shq)"
    using p1(2) shaped(2) by (rule undisturbed_call_finishes)
  obtain keepq q2 sh3 where q2: "(stage_step i ^^ 7) (GetStart q, sh) = (Finished keepq q2, sh3)" "sound_points sh3"
    using sound shaped(2) by (rule undisturbed_call_finishes)
  obtain keepp p2 shp where p2: "(stage_step i ^^ 7) (GetStart p, sh3) = (Finished keepp p2, shp)"
    using q2(2) shaped(1) by (rule undisturbed_call_finishes)
  show "\<forall>ks \<in> {replicate 7 0 @ replicate 7 1, replicate 7 1 @ replicate 7 0}. \<exists>keep p' keep' q' sh'.
      run_schedule i ks ([GetStart p, GetStart q], sh) = ([Finished keep p', Finished keep' q'], sh')"
    using p1(1) q1 q2(1) p2 by (simp add: schedule_one_call del: replicate.simps)
qed

definition shared_example :: shared_points where
  "shared_example = \<lparr>rh_cells = [histogram_example_point 5000000 [1, 2, 3], histogram_example_point 5000000 [1, 2, 3]],
     rh_start = [1 \<mapsto> \<lparr>up_point = 0, up_used = True\<rparr>], rh_previous = [1 \<mapsto> \<lparr>up_point = 1, up_used = True\<rparr>]\<rparr>"

lemma shared_example_sound: "sound_points shared_example"
proof -
  let ?u = "\<lparr>up_point = histogram_example_point 5000000 [1, 2, 3], up_used = True\<rparr>"
  let ?c = "newCache\<lparr>histogram_cache := [1 \<mapsto> ?u]\<rparr>"
  have "hist_shaped (histogram_example_point 5000000 [1, 2, 3])" by code_simp
  then have "hist_shaped_cache ?c" by (simp add: hist_shaped_cache_def)
  moreover have "reflects shared_example \<lparr>nz_start = ?c, nz_previous = ?c\<rparr>"
    by (simp add: reflects_def shared_example_def deref_def)
  moreover have "separate shared_example"
    by (auto simp: separate_def unshared_def in_cells shared_example_def split: if_splits)
  ultimately show ?thesis unfolding sound_points_def by (metis normalizer.select_convs(1))
qed

lemma overlapping_histograms_can_panic_witness:
  "fst (run_schedule 1 [0, 0, 0, 0, 0, 1, 1, 1, 0]
     ([GetStart ((histogram_example_point 9000000 [2, 3, 4])\<lparr>hp_start := 2000000\<rparr>), GetStart (histogram_example_point 8000000 [5])],
      shared_example)) ! 0 = Panicked IndexOutOfRange"
proof -
  let ?p = "(histogram_example_point 9000000 [2, 3, 4])\<lparr>hp_start := 2000000\<rparr>" and ?q = "histogram_example_point 8000000 [5]"
  let ?s = "histogram_example_point 5000000 [1, 2, 3]"
  have "hist_shaped ?p" "hist_shaped ?q" "bucketBoundariesEqual (hp_bounds ?p) (hp_bounds ?s)"
    "\<not> bucketBoundariesEqual (hp_bounds ?q) (hp_bounds ?s)" "ts_before (hp_start ?p) (hp_time ?p)" "ts_before (hp_time ?s) (hp_time ?p)"
    by code_simp+
  moreover have "rh_start shared_example 1 = Some \<lparr>up_point = 0, up_used = True\<rparr>"
    "?s = rh_cells shared_example ! up_point \<lparr>up_point = 0, up_used = True\<rparr>"
    by (simp_all add: shared_example_def)
  moreover have "length (hp_buckets ?q) < length (hp_buckets ?p)" "hp_start ?p \<noteq> 0" by (simp_all add: histogram_example_point_def)
  ultimately show ?thesis
    using overlapping_histograms_can_panic [OF shared_example_sound, of ?p ?q 1 "\<lparr>up_point = 0, up_used = True\<rparr>" ?s] by blast
qed

end
