(* ===== verification/Spec2Isabelle.thy ===== *)
theory Spec2Isabelle
  imports ExportLog Gmp Logs Propagator SdkExporter Detector ClientAuth Pipeline CloudMock EndToEnd Conversion Release Fixtures
    HistogramRace
begin

text \<open>
  A verification development for opentelemetry-operations-go: the exporters that translate OpenTelemetry
  metrics, logs and spans to Google Cloud Monitoring, Logging and Trace, the trace header propagator, the
  client authenticator and the resource detector.

  \<^bold>\<open>The program and how its parts interact.\<close>
  The collector hands batches of pdata to three exporters under exporter/collector: \<open>PushMetrics\<close> and
  \<open>PushLogs\<close> of metrics.go and logs.go, and \<open>PushTraces\<close> of traces.go, which makes read-only spans
  (spandata.go, spansnapshot.go) and calls the SDK exporter under exporter/trace. All three map resource
  attributes to a monitored resource with internal/resourcemapping. The metrics exporter passes its
  batch through the Google Managed Prometheus package (names, extra metrics) when so configured, through
  a normalizer that keeps the start and the previous point of every series in a cache with expiry
  (internal/normalization, internal/datapointstorage), through the metric mapper, and sends the time
  series in requests of at most 200, directly or through a write-ahead log that a second goroutine reads.
  Metric descriptors go through a channel to a third goroutine.

  \<^bold>\<open>Theories, in the order of their imports.\<close>
  \<^item> \<open>Prelude\<close>: results with errors as \<open>Inl\<close>, Go maps as partial functions with \<open>put_all\<close> and
    \<open>ranges_over\<close> (the orders in which a map may be ranged over), chunks of lists, the collections of
    simplification rules.
  \<^item> \<open>GoStrings\<close>, \<open>Utf8Tail\<close>: byte strings; UTF-8 decoding, validity and repair, \<open>strings.Map\<close>,
    \<open>FieldsFunc\<close>, \<open>path\<close>, decimal and hexadecimal rendering, \<open>DecodeLastRune\<close>. \<open>GoFloat\<close>, \<open>FloatBounds\<close>:
    binary64 with round to nearest even as executable functions, and the real error bounds of rounding.
  \<^item> \<open>Pdata\<close>: the pdata values as records; timestamps, flags and counts at their machine width.
  \<^item> \<open>PointCache\<close> (datapointcache.go): four maps with used flags, Get, Set, the sweep of the collector tick,
    and the series identifier. Lemmas: the map interface \<open>point_map\<close> and the life cycle \<open>swept_map\<close> as
    locales interpreted on the four kinds of point; injectivity of the identifier's encoding.
  \<^item> \<open>Normalization\<close> (standard_normalizer.go, disabled_normalizer.go): one operation per kind of point, with
    the two caches as state and a panic as result. Lemmas: the locale \<open>normalized_series\<close> over the cache
    interface, and \<open>interval_normalizer\<close>, the contract the mapper relies on, interpreted on both normalizers.
    \<open>HistogramRace\<close>: the same operation on histograms between its locks, with the points that caches and
    callers share as cells. Seven undisturbed steps refine the operation; two overlapping calls can panic.
  \<^item> \<open>ResourceMapping\<close> (resourcemapping.go, both monitoredresource.go): types, label tables, fallbacks, filters.
  \<^item> \<open>MetricMapper\<close> (metrics.go): points to time series, distributions with exemplars and deviation,
    descriptors and label keys. Exemplars are sorted by value; \<open>sort.Slice\<close> itself is an argument that is given the
    comparison. Its lemmas use the normalizers only through \<open>interval_normalizer\<close>.
  \<^item> \<open>MetricsExporter\<close> (metrics.go): gathering per project, batches, quota, self observability, descriptor
    channel with its cache and retry class, \<open>Shutdown\<close>. \<open>PushMetricsDirectly\<close> is the part of \<open>PushMetrics\<close> of a started
    exporter without a log. \<open>ExportLog\<close> (metrics.go): the write-ahead log, its reader with retries and back-off, and
    the flush at shutdown; \<open>PushMetrics\<close> as a whole, which refuses before \<open>Start\<close> and writes to the log when there is
    one; refinement lemmas to a queue of requests.
  \<^item> \<open>Runs\<close>: runs of a step relation with their events, and locales for what every run keeps, follows or
    pays for. \<open>ExporterRun\<close> (metrics.go): the running metrics exporter as a step relation, the count of its
    goroutines, the log's mutex and the order of shutdown. A metric that another goroutine interferes with while
    the standard normalizer handles it is a step \<open>Disturbed\<close>, after which its series and the caches may be
    anything and which may panic. \<open>PushRun\<close>: overlapping pushes. \<open>LogRun\<close>: the log
    under concurrent writing and reading, its end at shutdown, its lost wake-up and what blocks it.
  \<^item> \<open>Gmp\<close> (googlemanagedprometheus): metric names, counters for untyped gauges, \<open>target_info\<close>,
    \<open>otel_scope_info\<close>.
  \<^item> \<open>LogEntries\<close>, \<open>LogSplit\<close>, \<open>Logs\<close> (logs.go): one record to an entry, splitting of long text, grouping
    and sending.
  \<^item> \<open>Traces\<close> (spandata.go, spansnapshot.go, traces.go, exporter/trace): pdata spans to read-only spans to
    Cloud Trace spans, attribute mapping and limits, grouping by project and sending.
  \<^item> \<open>Propagator\<close> (propagator.go): the x-cloud-trace-context header.
  \<^item> \<open>SdkMetrics\<close>, \<open>SdkExporter\<close> (exporter/metric): records of the metric SDK to series and descriptors, the
    descriptor cache, batches, options and life cycle.
  \<^item> \<open>CollectorConfig\<close> (config.go; constructors, \<open>Start\<close> and \<open>Shutdown\<close> in metrics.go, logs.go, traces.go):
    defaults, validation, authenticator, client options, and what the started exporters run with.
    \<open>Pipeline\<close>: from the configuration to the calls of a push.
  \<^item> \<open>ClientAuth\<close> (extension/googleclientauthextension): start, HTTP transports, gRPC metadata, and the
    extension as an exporter sees it.
  \<^item> \<open>Detector\<close> (detectors/gcp): platforms and their attributes.
  \<^item> \<open>CloudMock\<close> (internal/cloudmock): the mock servers as clients of the exporters, and the write-ahead log
    against their outage. \<open>EndToEnd\<close> (e2e-test-server): scenarios and the answers to messages.
  \<^item> \<open>Conversion\<close> (integrationtest/testcases/conversion.go): collector metrics as SDK metrics, and the agreement
    of the two metric exporters on numbers.
  \<^item> \<open>ClockShift\<close>: how normalizers, mapper and exporter behave when all instants move by the same amount; the
    locale \<open>clock_series\<close> extends \<open>normalized_series\<close> and is interpreted on the four kinds of point. \<open>Fixtures\<close>
    (exporter/collector/integrationtest): stamping and normalizing of test fixtures, and their recording against
    the mock server.
  \<^item> \<open>Release\<close> (tools/release.go): versions, requirements and tags of the modules.

  \<^bold>\<open>How code becomes definitions.\<close>
  A function of the code keeps its name where HOL allows it. Structs are records, a value that is mutated
  through a pointer is an argument and part of the result, errors are \<open>Inl\<close> or \<open>None\<close>, a panic is
  \<open>Inl\<close> of \<open>go_panic\<close>. Integers are words where they can wrap around; counters that only grow by the size
  of a batch are \<open>int\<close> or \<open>nat\<close>. The goroutines of the metrics exporter are the inductive relations
  \<open>push_move\<close>, \<open>reader_move\<close>, \<open>runner_move\<close> and \<open>life_move\<close> on one state; a step is what a goroutine does
  between two points where another can interfere: one metric of a batch (several calls of the normalizer's caches, so
  that with the standard normalizer a metric may also be disturbed, see above), one request, one reading of the log with its retries (it holds the log's mutex), one
  descriptor. The collector is taken at its word that it calls \<open>Shutdown\<close> once, with no push in progress and
  none after it. Elsewhere each handler of a goroutine is one function. Libraries and services are arguments: clients thread their own state, codecs, JSON, the log
  library, credentials, the renderings of values and the order of ranging over a map are functions, and
  what a property needs of them is one of its hypotheses.

  \<^bold>\<open>What is shown.\<close>
  Metrics: normalized counters are differences to their start, intervals are valid, no normalizer or
  mapper step panics on well-formed histograms, cached points live exactly between two ticks, time series
  are typed as their descriptors say and move with the clock, labels are sanitized, each series is sent exactly once and, through
  the log, tried at least once and removed in order; and so for every interleaving of pushes, readings,
  descriptors, sweeps and shutdown: no request is lost or repeated by the log, overlapping pushes send and
  report what is theirs, nothing panics unless calls of the standard normalizer disturb each other (and a schedule of
  two histograms that does panic is given), each metric is described once when no call asks for a retry, the client is closed last, and after
  the shutdown signal the exporter comes to its end in a bounded number of steps. Logs: text is split without loss, each
  entry is written once in bounded requests. Traces: each span is sent once to its project, within the
  limits of the service. SDK exporter: series match their descriptors, each is sent once, intervals are
  valid. Configuration: started exporters have a project and options that do not conflict, validated
  mappings rename injectively, which validated configurations panic, and a started exporter sends the series of each
  resource to the project of the resource. Release: required
  versions are tagged. Tests: fixtures recorded without a log depend neither on the clock nor on the numbers that the run itself measures. Authentication: when it starts and
  which headers requests carry. Propagation: the round trip of the header. Where the code deviates from what it
  says or means to do, a property states what it does.

  \<^bold>\<open>Bounds and fuel.\<close>
  \<open>send_loop\<close> of the logs has fuel: two steps per entry are enough when every entry fits, and no fuel is
  enough when one does not (the code does not return). The log is read with twelve attempts per request
  as in the code; the flush gets one turn more than the log has entries, which is shown to be enough.
  Splitting is shown for text below \<open>2^50\<close> bytes, where the float arithmetic of the split points is close
  enough. Twenty decimal digits render every machine integer (\<open>show_nat\<close>). All other loops are structural
  or have a measure.

  \<^bold>\<open>Not modelled.\<close>
  TLS, compression and contexts with their timeouts, which only pass values to libraries, and the calls into
  the client libraries, which are arguments; log output; the feature gate of Prometheus is a configuration
  flag. What the calls of two overlapping normalizations make of the caches is followed for histograms only
  (\<open>HistogramRace\<close>); in the running exporter a disturbed metric may do anything. The descriptors of one metric are
  queued in one step. Functions of the user in the configuration (names, extra metrics, resources) are taken to return.
  A channel whose size the runtime accepts is taken to fit into memory.
  The file notification library is reduced to what ends a watch. The tables of test cases and the examples have
  no logic of their own to verify; of the test harness the reading and writing of files and the recording of logs and
  traces are left out, what its meter collects is an argument, and the reproducibility of fixtures is shown for the
  tests without a log; listening and serving of the mock and end-to-end servers are left out.
\<close>

end
